(* ===== verification/Prelude.thy ===== *)
theory Prelude
  imports "HOL-Library.Word"
begin

text \<open>
  Shared vocabulary of the development.

  The theory names the machine types of the C++ sources (\<open>uint8_t\<close> ...
  \<open>uint64_t\<close>; the signed types are the same words read by \<^term>\<open>sint\<close>),
  the result type of fallible code (\<open>'e + 'a\<close>, the left summand being the
  error), its sequencing operators, and the collections of rewrite rules that
  the component theories extend:
  \<^item> \<open>mask_simps\<close>: literal masks \<open>x AND 0x3F\<close> as \<^const>\<open>take_bit\<close>;
  \<^item> \<open>result_simps\<close>: computation rules of the result type;
  \<^item> \<open>enc_defs\<close>, \<open>dec_simps\<close>: the instruction encoders and what the decoders
    read back from an encoded instruction;
  \<^item> \<open>interp_defs\<close>: the interpreter functions of the simulator;
  \<^item> \<open>asm_defs\<close>: the emit functions of the assembler.
\<close>

unbundle bit_operations_syntax

type_synonym u8 = "8 word"
type_synonym u16 = "16 word"
type_synonym u32 = "32 word"
type_synonym u64 = "64 word"

text \<open>\<open>intptr_t\<close>, \<open>uword\<close>, \<open>intx_t\<close> and \<open>uintx_t\<close> of a 64-bit host and target.\<close>

type_synonym intptr = "64 word"
type_synonym intx = "64 word"

named_theorems mask_simps \<open>literal masks as take_bit\<close>
named_theorems result_simps \<open>computation rules of the result type\<close>
named_theorems enc_defs \<open>instruction encoders\<close>
named_theorems dec_simps \<open>decoders applied to encoded instructions\<close>
named_theorems interp_defs \<open>interpreter functions\<close>
named_theorems asm_defs \<open>emit functions of the assembler\<close>

subsection \<open>Results of fallible code\<close>

fun bindE :: "'e + 'a \<Rightarrow> ('a \<Rightarrow> 'e + 'b) \<Rightarrow> 'e + 'b" where
  "bindE (Inl e) f = Inl e"
| "bindE (Inr x) f = f x"

text \<open>A sequence of state transformers, stopped by the first error.\<close>

fun seqE :: "('s \<Rightarrow> 'e + 's) list \<Rightarrow> 's \<Rightarrow> 'e + 's" where
  "seqE [] s = Inr s"
| "seqE (f # fs) s = bindE (f s) (seqE fs)"

declare bindE.simps [result_simps] seqE.simps [result_simps]

lemma bindE_Inr_iff:
  "bindE r f = Inr y \<longleftrightarrow> (\<exists>x. r = Inr x \<and> f x = Inr y)"
  by (cases r) auto

lemma bindE_assoc: "bindE (bindE r f) g = bindE r (\<lambda>x. bindE (f x) g)"
  by (cases r) auto

lemma seqE_append: "seqE (fs @ gs) s = bindE (seqE fs s) (seqE gs)"
proof (induction fs arbitrary: s)
  case (Cons f fs)
  then have "seqE (fs @ gs) = (\<lambda>s. bindE (seqE fs s) (seqE gs))" by blast
  then show ?case by (simp add: bindE_assoc)
qed simp

lemma seqE_append_fun: "seqE (fs @ gs) = (\<lambda>a. bindE (seqE fs a) (seqE gs))"
  by (rule ext) (rule seqE_append)

lemma seqE_single_fun: "seqE [f] = f"
proof
  fix a show "seqE [f] a = f a" by (cases "f a") simp_all
qed

lemma seqE_invariant:
  assumes "seqE fs s = Inr s'" and "I s"
    and "\<And>f t t'. f \<in> set fs \<Longrightarrow> f t = Inr t' \<Longrightarrow> I t \<Longrightarrow> I t'"
  shows "I s'"
  using assms by (induction fs arbitrary: s) (auto simp: bindE_Inr_iff)

subsection \<open>Words\<close>

lemma and_literal_masks [mask_simps]:
  fixes x :: "'a::len word"
  shows "x AND 1 = take_bit 1 x" "x AND 3 = take_bit 2 x" "x AND 7 = take_bit 3 x"
    "x AND 0xF = take_bit 4 x" "x AND 0x1F = take_bit 5 x" "x AND 0x3F = take_bit 6 x"
    "x AND 0x7F = take_bit 7 x" "x AND 0xFF = take_bit 8 x" "x AND 0x3FF = take_bit 10 x"
    "x AND 0xFFF = take_bit 12 x"
  by (simp_all add: take_bit_eq_mask mask_eq_exp_minus_1)

text \<open>
  Equality of the lowest bits of two words, position by position; the positions
  are numerals, so each premise is decided by evaluation of the bit operations.
\<close>

lemma take_bit_eqI:
  fixes x y :: "'a::len word"
  assumes "\<And>n. n < k \<Longrightarrow> bit x n = bit y n"
  shows "take_bit k x = take_bit k y"
  using assms by (auto intro!: bit_word_eqI simp: bit_simps)

lemma take_bit_eqI_3:
  fixes x y :: "'a::len word"
  shows "bit x 0 = bit y 0 \<Longrightarrow> bit x 1 = bit y 1 \<Longrightarrow> bit x 2 = bit y 2 \<Longrightarrow>
    take_bit 3 x = take_bit 3 y"
  by (rule take_bit_eqI) (auto simp: numeral_eq_Suc less_Suc_eq)

lemma take_bit_eqI_5:
  fixes x y :: "'a::len word"
  shows "bit x 0 = bit y 0 \<Longrightarrow> bit x 1 = bit y 1 \<Longrightarrow> bit x 2 = bit y 2
    \<Longrightarrow> bit x 3 = bit y 3 \<Longrightarrow> bit x 4 = bit y 4 \<Longrightarrow>
    take_bit 5 x = take_bit 5 y"
  by (rule take_bit_eqI) (auto simp: numeral_eq_Suc less_Suc_eq)

lemma take_bit_eqI_6:
  fixes x y :: "'a::len word"
  shows "bit x 0 = bit y 0 \<Longrightarrow> bit x 1 = bit y 1 \<Longrightarrow> bit x 2 = bit y 2
    \<Longrightarrow> bit x 3 = bit y 3 \<Longrightarrow> bit x 4 = bit y 4 \<Longrightarrow>
    bit x 5 = bit y 5 \<Longrightarrow>
    take_bit 6 x = take_bit 6 y"
  by (rule take_bit_eqI) (auto simp: numeral_eq_Suc less_Suc_eq)

lemma take_bit_eqI_7:
  fixes x y :: "'a::len word"
  shows "bit x 0 = bit y 0 \<Longrightarrow> bit x 1 = bit y 1 \<Longrightarrow> bit x 2 = bit y 2
    \<Longrightarrow> bit x 3 = bit y 3 \<Longrightarrow> bit x 4 = bit y 4 \<Longrightarrow>
    bit x 5 = bit y 5 \<Longrightarrow> bit x 6 = bit y 6 \<Longrightarrow>
    take_bit 7 x = take_bit 7 y"
  by (rule take_bit_eqI) (auto simp: numeral_eq_Suc less_Suc_eq)

lemma take_bit_eqI_8:
  fixes x y :: "'a::len word"
  shows "bit x 0 = bit y 0 \<Longrightarrow> bit x 1 = bit y 1 \<Longrightarrow> bit x 2 = bit y 2
    \<Longrightarrow> bit x 3 = bit y 3 \<Longrightarrow> bit x 4 = bit y 4 \<Longrightarrow>
    bit x 5 = bit y 5 \<Longrightarrow> bit x 6 = bit y 6 \<Longrightarrow> bit x 7 = bit y 7 \<Longrightarrow>
    take_bit 8 x = take_bit 8 y"
  by (rule take_bit_eqI) (auto simp: numeral_eq_Suc less_Suc_eq)

lemma take_bit_eqI_9:
  fixes x y :: "'a::len word"
  shows "bit x 0 = bit y 0 \<Longrightarrow> bit x 1 = bit y 1 \<Longrightarrow> bit x 2 = bit y 2
    \<Longrightarrow> bit x 3 = bit y 3 \<Longrightarrow> bit x 4 = bit y 4 \<Longrightarrow>
    bit x 5 = bit y 5 \<Longrightarrow> bit x 6 = bit y 6 \<Longrightarrow> bit x 7 = bit y 7
    \<Longrightarrow> bit x 8 = bit y 8 \<Longrightarrow>
    take_bit 9 x = take_bit 9 y"
  by (rule take_bit_eqI) (auto simp: numeral_eq_Suc less_Suc_eq)

lemma take_bit_eqI_10:
  fixes x y :: "'a::len word"
  shows "bit x 0 = bit y 0 \<Longrightarrow> bit x 1 = bit y 1 \<Longrightarrow> bit x 2 = bit y 2
    \<Longrightarrow> bit x 3 = bit y 3 \<Longrightarrow> bit x 4 = bit y 4 \<Longrightarrow>
    bit x 5 = bit y 5 \<Longrightarrow> bit x 6 = bit y 6 \<Longrightarrow> bit x 7 = bit y 7
    \<Longrightarrow> bit x 8 = bit y 8 \<Longrightarrow> bit x 9 = bit y 9 \<Longrightarrow>
    take_bit 10 x = take_bit 10 y"
  by (rule take_bit_eqI) (auto simp: numeral_eq_Suc less_Suc_eq)

lemma take_bit_eqI_11:
  fixes x y :: "'a::len word"
  shows "bit x 0 = bit y 0 \<Longrightarrow> bit x 1 = bit y 1 \<Longrightarrow> bit x 2 = bit y 2
    \<Longrightarrow> bit x 3 = bit y 3 \<Longrightarrow> bit x 4 = bit y 4 \<Longrightarrow>
    bit x 5 = bit y 5 \<Longrightarrow> bit x 6 = bit y 6 \<Longrightarrow> bit x 7 = bit y 7
    \<Longrightarrow> bit x 8 = bit y 8 \<Longrightarrow> bit x 9 = bit y 9 \<Longrightarrow>
    bit x 10 = bit y 10 \<Longrightarrow>
    take_bit 11 x = take_bit 11 y"
  by (rule take_bit_eqI) (auto simp: numeral_eq_Suc less_Suc_eq)

lemma take_bit_eqI_12:
  fixes x y :: "'a::len word"
  shows "bit x 0 = bit y 0 \<Longrightarrow> bit x 1 = bit y 1 \<Longrightarrow> bit x 2 = bit y 2
    \<Longrightarrow> bit x 3 = bit y 3 \<Longrightarrow> bit x 4 = bit y 4 \<Longrightarrow>
    bit x 5 = bit y 5 \<Longrightarrow> bit x 6 = bit y 6 \<Longrightarrow> bit x 7 = bit y 7
    \<Longrightarrow> bit x 8 = bit y 8 \<Longrightarrow> bit x 9 = bit y 9 \<Longrightarrow>
    bit x 10 = bit y 10 \<Longrightarrow> bit x 11 = bit y 11 \<Longrightarrow>
    take_bit 12 x = take_bit 12 y"
  by (rule take_bit_eqI) (auto simp: numeral_eq_Suc less_Suc_eq)

lemma take_bit_eqI_17:
  fixes x y :: "'a::len word"
  shows "bit x 0 = bit y 0 \<Longrightarrow> bit x 1 = bit y 1 \<Longrightarrow> bit x 2 = bit y 2
    \<Longrightarrow> bit x 3 = bit y 3 \<Longrightarrow> bit x 4 = bit y 4 \<Longrightarrow>
    bit x 5 = bit y 5 \<Longrightarrow> bit x 6 = bit y 6 \<Longrightarrow> bit x 7 = bit y 7
    \<Longrightarrow> bit x 8 = bit y 8 \<Longrightarrow> bit x 9 = bit y 9 \<Longrightarrow>
    bit x 10 = bit y 10 \<Longrightarrow> bit x 11 = bit y 11 \<Longrightarrow> bit x 12 = bit
    y 12 \<Longrightarrow> bit x 13 = bit y 13 \<Longrightarrow> bit x 14 = bit y 14
    \<Longrightarrow> bit x 15 = bit y 15 \<Longrightarrow> bit x 16 = bit y 16 \<Longrightarrow>
    take_bit 17 x = take_bit 17 y"
  by (rule take_bit_eqI) (auto simp: numeral_eq_Suc less_Suc_eq)

lemma take_bit_eqI_20:
  fixes x y :: "'a::len word"
  shows "bit x 0 = bit y 0 \<Longrightarrow> bit x 1 = bit y 1 \<Longrightarrow> bit x 2 = bit y 2
    \<Longrightarrow> bit x 3 = bit y 3 \<Longrightarrow> bit x 4 = bit y 4 \<Longrightarrow>
    bit x 5 = bit y 5 \<Longrightarrow> bit x 6 = bit y 6 \<Longrightarrow> bit x 7 = bit y 7
    \<Longrightarrow> bit x 8 = bit y 8 \<Longrightarrow> bit x 9 = bit y 9 \<Longrightarrow>
    bit x 10 = bit y 10 \<Longrightarrow> bit x 11 = bit y 11 \<Longrightarrow> bit x 12 = bit
    y 12 \<Longrightarrow> bit x 13 = bit y 13 \<Longrightarrow> bit x 14 = bit y 14
    \<Longrightarrow> bit x 15 = bit y 15 \<Longrightarrow> bit x 16 = bit y 16
    \<Longrightarrow> bit x 17 = bit y 17 \<Longrightarrow> bit x 18 = bit y 18
    \<Longrightarrow> bit x 19 = bit y 19 \<Longrightarrow>
    take_bit 20 x = take_bit 20 y"
  by (rule take_bit_eqI) (auto simp: numeral_eq_Suc less_Suc_eq)

lemma take_bit_eqI_32:
  fixes x y :: "'a::len word"
  shows "bit x 0 = bit y 0 \<Longrightarrow> bit x 1 = bit y 1 \<Longrightarrow> bit x 2 = bit y 2
    \<Longrightarrow> bit x 3 = bit y 3 \<Longrightarrow> bit x 4 = bit y 4 \<Longrightarrow>
    bit x 5 = bit y 5 \<Longrightarrow> bit x 6 = bit y 6 \<Longrightarrow> bit x 7 = bit y 7
    \<Longrightarrow> bit x 8 = bit y 8 \<Longrightarrow> bit x 9 = bit y 9 \<Longrightarrow>
    bit x 10 = bit y 10 \<Longrightarrow> bit x 11 = bit y 11 \<Longrightarrow> bit x 12 = bit
    y 12 \<Longrightarrow> bit x 13 = bit y 13 \<Longrightarrow> bit x 14 = bit y 14
    \<Longrightarrow> bit x 15 = bit y 15 \<Longrightarrow> bit x 16 = bit y 16
    \<Longrightarrow> bit x 17 = bit y 17 \<Longrightarrow> bit x 18 = bit y 18
    \<Longrightarrow> bit x 19 = bit y 19 \<Longrightarrow> bit x 20 = bit y 20
    \<Longrightarrow> bit x 21 = bit y 21 \<Longrightarrow> bit x 22 = bit y 22
    \<Longrightarrow> bit x 23 = bit y 23 \<Longrightarrow> bit x 24 = bit y 24
    \<Longrightarrow> bit x 25 = bit y 25 \<Longrightarrow> bit x 26 = bit y 26
    \<Longrightarrow> bit x 27 = bit y 27 \<Longrightarrow> bit x 28 = bit y 28
    \<Longrightarrow> bit x 29 = bit y 29 \<Longrightarrow> bit x 30 = bit y 30
    \<Longrightarrow> bit x 31 = bit y 31 \<Longrightarrow>
    take_bit 32 x = take_bit 32 y"
  by (rule take_bit_eqI) (auto simp: numeral_eq_Suc less_Suc_eq)

lemma word5_eqI:
  fixes x y :: "5 word"
  shows "bit x 0 = bit y 0 \<Longrightarrow> bit x 1 = bit y 1 \<Longrightarrow> bit x 2 = bit y 2 \<Longrightarrow>
    bit x 3 = bit y 3 \<Longrightarrow> bit x 4 = bit y 4 \<Longrightarrow> x = y"
  using take_bit_eqI_5 [of x y] by (simp add: take_bit_word_eq_self)

text \<open>Evaluation of a bit at a numeral position, without unfolding shifts by one.\<close>

lemma Suc_Suc_0_eq_2: "Suc (Suc 0) = 2"
  by simp

lemmas bit_eval = bit_simps Suc_Suc_0_eq_2

text \<open>
  A signed value that fits \<open>N\<close> bits has all its bits from \<open>N - 1\<close> upwards equal
  to its sign.
\<close>

lemma signed_take_bit_fix_bits:
  fixes v :: "'a::len word"
  assumes "signed_take_bit k v = v" and "k \<le> n" and "n < LENGTH('a)"
  shows "bit v n = bit v k"
proof -
  have "bit v n = bit (signed_take_bit k v) n" by (simp add: assms(1))
  also have "\<dots> = bit v k" using assms(2,3) by (simp add: bit_simps)
  finally show ?thesis .
qed

lemma take_bit_0_bits:
  fixes v :: "'a::len word"
  assumes "take_bit k v = 0" and "n < k"
  shows "\<not> bit v n"
proof -
  have "bit v n = bit (take_bit k v) n" using assms(2) by (simp add: bit_simps)
  then show ?thesis by (simp add: assms(1))
qed

lemma signed_take_bit_eqI:
  fixes v w :: "'a::len word"
  assumes "signed_take_bit k v = v" and "take_bit (Suc k) w = take_bit (Suc k) v"
  shows "signed_take_bit k w = v"
  using assms by (metis signed_take_bit_eq_iff_take_bit_eq)

lemma take_bit_fix_bits:
  fixes v :: "'a::len word"
  assumes "take_bit k v = v" and "k \<le> n"
  shows "\<not> bit v n"
proof -
  have "bit v n = bit (take_bit k v) n" by (simp add: assms(1))
  then show ?thesis using assms(2) by (simp add: bit_simps)
qed

end
