(* ===== verification/Platform_Utils.thy ===== *)
theory Platform_Utils
  imports Prelude
begin

text \<open>
  The integer helpers of \<open>runtime/platform/utils.h\<close> that the RISC-V encoders and
  the assembler call: power-of-two and alignment tests, rounding, and the tests
  \<open>IsInt\<close> and \<open>IsUint\<close> that decide whether a value fits an immediate field.
  The templates are modelled at a word type \<open>'a\<close>; the signed instances read the
  word by \<^const>\<open>sint\<close>.
\<close>

subsection \<open>Powers of two and alignment\<close>

definition IsPowerOfTwo :: "'a::len word \<Rightarrow> bool" where
  "IsPowerOfTwo x = (x AND (x - 1) = 0 \<and> x \<noteq> 0)"

definition IsAligned :: "'a::len word \<Rightarrow> 'a word \<Rightarrow> bool" where
  "IsAligned x n = (x AND (n - 1) = 0)"

definition RoundDown :: "'a::len word \<Rightarrow> 'a word \<Rightarrow> 'a word" where
  "RoundDown x n = x AND (- n)"

definition RoundUp :: "'a::len word \<Rightarrow> 'a word \<Rightarrow> 'a word" where
  "RoundUp x n = RoundDown (x + n - 1) n"

text \<open>\<open>RoundUpToPowerOfTwo\<close> of \<open>utils.cc\<close> on a 64-bit host.\<close>

definition RoundUpToPowerOfTwo :: "u64 \<Rightarrow> u64" where
  "RoundUpToPowerOfTwo x0 =
     (let x = x0 - 1;
          x = x OR drop_bit 1 x;
          x = x OR drop_bit 2 x;
          x = x OR drop_bit 4 x;
          x = x OR drop_bit 8 x;
          x = x OR drop_bit 16 x;
          x = x OR drop_bit 32 x
      in x + 1)"

subsection \<open>Values that fit a field\<close>

definition IsInt :: "nat \<Rightarrow> 'a::len word \<Rightarrow> bool" where
  "IsInt N value =
     (if LENGTH('a) \<le> N then True
      else let limit = push_bit (N - 1) 1 in - limit \<le>s value \<and> value <s limit)"

definition IsUint :: "nat \<Rightarrow> 'a::len word \<Rightarrow> bool" where
  "IsUint N value =
     (if value <s 0 then False
      else if LENGTH('a) - 1 \<le> N then True
      else let limit = push_bit N 1 - 1 in value \<le>s limit)"

subsection \<open>What the tests mean\<close>

lemma IsAligned_take_bit:
  fixes x :: "'a::len word"
  shows "IsAligned x (2 ^ k) \<longleftrightarrow> take_bit k x = 0"
  by (simp add: IsAligned_def take_bit_eq_mask mask_eq_exp_minus_1)

lemma IsAligned_numeral:
  fixes x :: "'a::len word"
  shows "IsAligned x 1" "IsAligned x 2 \<longleftrightarrow> take_bit 1 x = 0"
    "IsAligned x 4 \<longleftrightarrow> take_bit 2 x = 0" "IsAligned x 8 \<longleftrightarrow> take_bit 3 x = 0"
    "IsAligned x 16 \<longleftrightarrow> take_bit 4 x = 0" "IsAligned x 4096 \<longleftrightarrow> take_bit 12 x = 0"
  using IsAligned_take_bit [of x 0] IsAligned_take_bit [of x 1] IsAligned_take_bit [of x 2]
    IsAligned_take_bit [of x 3] IsAligned_take_bit [of x 4] IsAligned_take_bit [of x 12]
  by simp_all

lemma sint_word_of_int_fits:
  assumes "- (2 ^ (LENGTH('a::len) - 1)) \<le> k" and "k < 2 ^ (LENGTH('a) - 1)"
  shows "sint (word_of_int k :: 'a word) = k"
  using assms by (simp add: sint_sbintrunc' signed_take_bit_int_eq_self)

lemma sint_power_of_two:
  assumes "Suc k < LENGTH('a::len)"
  shows "sint (push_bit k 1 :: 'a word) = 2 ^ k"
    and "sint (- push_bit k 1 :: 'a word) = - (2 ^ k)"
proof -
  have *: "(2::int) ^ k < 2 ^ (LENGTH('a) - 1)"
    using assms by (intro power_strict_increasing) auto
  have w: "(push_bit k 1 :: 'a word) = word_of_int (2 ^ k)"
    "(- push_bit k 1 :: 'a word) = word_of_int (- (2 ^ k))"
    by simp_all
  show "sint (push_bit k 1 :: 'a word) = 2 ^ k"
    unfolding w(1) using * by (intro sint_word_of_int_fits) (auto intro: order_trans [of _ 0])
  show "sint (- push_bit k 1 :: 'a word) = - (2 ^ k)"
    unfolding w(2) using * by (intro sint_word_of_int_fits) (auto intro: le_less_trans [of _ 0])
qed

lemma IsInt_iff_sint:
  fixes v :: "'a::len word"
  assumes "0 < N" and "N < LENGTH('a)"
  shows "IsInt N v \<longleftrightarrow> - (2 ^ (N - 1)) \<le> sint v \<and> sint v < 2 ^ (N - 1)"
  using assms sint_power_of_two [of "N - 1", where 'a = 'a]
  by (simp add: IsInt_def Let_def word_sle_eq word_sless_alt del: push_bit_of_1)

lemma sint_signed_take_bit:
  fixes v :: "'a::len word"
  assumes "Suc k < LENGTH('a)"
  shows "sint (signed_take_bit k v) = signed_take_bit k (sint v)"
  using assms by (intro bit_eqI) (auto simp: bit_simps min_def)

lemma IsInt_iff_signed_take_bit:
  fixes v :: "'a::len word"
  assumes "0 < N" and "N < LENGTH('a)"
  shows "IsInt N v \<longleftrightarrow> signed_take_bit (N - 1) v = v"
proof -
  have "signed_take_bit (N - 1) v = v \<longleftrightarrow> sint (signed_take_bit (N - 1) v) = sint v"
    by (simp add: word_eq_iff_signed)
  also have "\<dots> \<longleftrightarrow> signed_take_bit (N - 1) (sint v) = sint v"
    using assms by (simp add: sint_signed_take_bit)
  finally show ?thesis
    using assms by (simp add: IsInt_iff_sint signed_take_bit_int_eq_self_iff)
qed

lemma take_bit_word_eq_self_iff_uint:
  fixes v :: "'a::len word"
  shows "take_bit N v = v \<longleftrightarrow> uint v < 2 ^ N"
proof -
  have "take_bit N v = v \<longleftrightarrow> uint (take_bit N v) = uint v"
    by (simp add: word_eq_iff_unsigned)
  then show ?thesis
    by (simp add: unsigned_take_bit_eq take_bit_int_eq_self_iff)
qed

lemma IsUint_iff_take_bit:
  fixes v :: "'a::len word"
  assumes "0 < N" and "N < LENGTH('a) - 1"
  shows "IsUint N v \<longleftrightarrow> take_bit N v = v"
proof -
  have limit: "sint (push_bit N 1 - 1 :: 'a word) = 2 ^ N - 1"
  proof -
    have w: "(push_bit N 1 - 1 :: 'a word) = word_of_int (2 ^ N - 1)" by simp
    have "(2::int) ^ N < 2 ^ (LENGTH('a) - 1)" and "(0::int) < 2 ^ N"
      using assms by (auto intro: power_strict_increasing)
    then show ?thesis
      unfolding w by (intro sint_word_of_int_fits) linarith+
  qed
  have "IsUint N v \<longleftrightarrow> 0 \<le> sint v \<and> sint v < 2 ^ N"
    using assms limit by (auto simp: IsUint_def Let_def word_sle_eq word_sless_alt simp del: push_bit_of_1)
  also have "\<dots> \<longleftrightarrow> take_bit N (sint v) = sint v"
    by (simp add: take_bit_int_eq_self_iff)
  also have "\<dots> \<longleftrightarrow> take_bit N v = v"
  proof -
    have "N < LENGTH('a)" using assms by linarith
    then have "sint (take_bit N v) = take_bit N (sint v)"
      by (simp add: signed_take_bit_eq)
    then show ?thesis by (metis signed_word_eqI)
  qed
  finally show ?thesis .
qed

subsection \<open>Rounding\<close>

lemma IsPowerOfTwo_power:
  assumes "k < LENGTH('a::len)"
  shows "IsPowerOfTwo (2 ^ k :: 'a word)"
proof -
  have "(2 ^ k :: 'a word) AND (2 ^ k - 1) = 0"
    by (auto intro!: bit_word_eqI simp: bit_simps simp flip: mask_eq_exp_minus_1)
  moreover have "(2 ^ k :: 'a word) \<noteq> 0" using assms by simp
  ultimately show ?thesis by (simp add: IsPowerOfTwo_def)
qed

lemma RoundDown_power:
  fixes x :: "'a::len word"
  shows "uint (RoundDown x (2 ^ k)) = uint x div 2 ^ k * 2 ^ k"
proof -
  have "- (2 ^ k) = (NOT (mask k) :: 'a word)"
    by (simp add: mask_eq_exp_minus_1 minus_eq_not_minus_1)
  then have "RoundDown x (2 ^ k) = push_bit k (drop_bit k x)"
    unfolding RoundDown_def by (auto intro!: bit_word_eqI simp: bit_simps)
  then have "uint (RoundDown x (2 ^ k)) = take_bit LENGTH('a) (push_bit k (drop_bit k (uint x)))"
    by (simp only: unsigned_push_bit_eq unsigned_drop_bit_eq take_bit_push_bit drop_bit_take_bit)
      (simp add: bit_eq_iff bit_simps ac_simps)
  moreover have "uint x div 2 ^ k * 2 ^ k \<le> uint x" by (simp add: minus_mod_eq_div_mult [symmetric])
  then have "take_bit LENGTH('a) (uint x div 2 ^ k * 2 ^ k) = uint x div 2 ^ k * 2 ^ k"
    by (intro take_bit_int_eq_self) (auto intro: le_less_trans [OF _ uint_lt2p] simp: pos_imp_zdiv_nonneg_iff)
  ultimately show ?thesis by (simp add: push_bit_eq_mult drop_bit_eq_div)
qed

lemma RoundUp_power:
  fixes x :: "'a::len word"
  assumes "k < LENGTH('a)" and "uint x + 2 ^ k \<le> 2 ^ LENGTH('a)"
  shows "uint (RoundUp x (2 ^ k)) = (uint x + 2 ^ k - 1) div 2 ^ k * 2 ^ k"
proof -
  have "x + 2 ^ k - 1 = word_of_int (uint x + 2 ^ k - 1)" by simp
  then have "uint (x + 2 ^ k - 1) = take_bit LENGTH('a) (uint x + 2 ^ k - 1)"
    by (metis uint_word_of_int_eq)
  also have "\<dots> = uint x + 2 ^ k - 1"
    using assms(2) uint_nonnegative [of x] zero_less_power [of "2 :: int" k]
    by (intro take_bit_int_eq_self) linarith+
  finally show ?thesis by (simp add: RoundUp_def RoundDown_power)
qed

lemma div_mult_round:
  fixes n m :: int
  assumes "0 < m"
  shows "n \<le> (n + m - 1) div m * m" and "(n + m - 1) div m * m < n + m"
  using assms div_mult_mod_eq [of "n + m - 1" m] pos_mod_bound [of m "n + m - 1"] pos_mod_sign [of m "n + m - 1"]
  by linarith+

text \<open>
  The shifts of \<open>RoundUpToPowerOfTwo\<close> spread every bit to all positions below it: the
  windows they cover double with each step.
\<close>

lemma spread_step:
  fixes x z :: "'a::len word"
  assumes "\<And>n. bit z n \<longleftrightarrow> (\<exists>m. n \<le> m \<and> m < n + k \<and> bit x m)"
  shows "bit (z OR drop_bit k z) n \<longleftrightarrow> (\<exists>m. n \<le> m \<and> m < n + 2 * k \<and> bit x m)"
proof -
  have "n \<le> m \<and> m < n + 2 * k \<longleftrightarrow> n \<le> m \<and> m < n + k \<or> k + n \<le> m \<and> m < k + n + k" for m
    by linarith
  then show ?thesis by (auto simp: assms bit_simps)
qed

lemma RoundUpToPowerOfTwo_spread:
  fixes x :: u64
  shows "\<exists>z. RoundUpToPowerOfTwo x = z + 1 \<and> (\<forall>n. bit z n \<longleftrightarrow> (\<exists>m\<ge>n. bit (x - 1) m))"
proof -
  define z0 where "z0 = x - 1"
  define z1 where "z1 = z0 OR drop_bit 1 z0"
  define z2 where "z2 = z1 OR drop_bit 2 z1"
  define z3 where "z3 = z2 OR drop_bit 4 z2"
  define z4 where "z4 = z3 OR drop_bit 8 z3"
  define z5 where "z5 = z4 OR drop_bit 16 z4"
  define z6 where "z6 = z5 OR drop_bit 32 z5"
  let ?in = "\<lambda>n k. \<exists>m. n \<le> m \<and> m < n + k \<and> bit z0 m"
  have "bit z0 n \<longleftrightarrow> ?in n 1" for n by (auto simp: less_Suc_eq_le dest: le_antisym)
  from spread_step [of z0 1 z0, OF this] have "bit z1 n \<longleftrightarrow> ?in n 2" for n by (simp add: z1_def)
  from spread_step [of z1 2 z0, OF this] have "bit z2 n \<longleftrightarrow> ?in n 4" for n by (simp add: z2_def)
  from spread_step [of z2 4 z0, OF this] have "bit z3 n \<longleftrightarrow> ?in n 8" for n by (simp add: z3_def)
  from spread_step [of z3 8 z0, OF this] have "bit z4 n \<longleftrightarrow> ?in n 16" for n by (simp add: z4_def)
  from spread_step [of z4 16 z0, OF this] have "bit z5 n \<longleftrightarrow> ?in n 32" for n by (simp add: z5_def)
  from spread_step [of z5 32 z0, OF this] have "bit z6 n \<longleftrightarrow> ?in n 64" for n by (simp add: z6_def)
  moreover have "?in n 64 \<longleftrightarrow> (\<exists>m\<ge>n. bit z0 m)" for n
    using bit_imp_le_length [of z0] by (auto intro: trans_less_add2)
  moreover have "RoundUpToPowerOfTwo x = z6 + 1"
    by (simp add: RoundUpToPowerOfTwo_def Let_def z0_def z1_def z2_def z3_def z4_def z5_def z6_def)
  ultimately show ?thesis by (intro exI [of _ z6]) (simp add: z0_def)
qed

lemma uint_minus_1:
  fixes x :: "'a::len word"
  assumes "1 \<le> uint x"
  shows "uint (x - 1) = uint x - 1"
proof -
  have "uint (x - 1) = take_bit LENGTH('a) (uint x - 1)"
    by (metis uint_word_of_int_eq word_of_int_uint of_int_diff of_int_1)
  also have "\<dots> = uint x - 1"
    using assms uint_lt2p [of x] by (intro take_bit_int_eq_self) linarith+
  finally show ?thesis .
qed

lemma RoundUpToPowerOfTwo_power:
  fixes x :: u64
  assumes "1 \<le> uint x" and "uint x \<le> 2 ^ 63"
  shows "\<exists>e\<le>63. RoundUpToPowerOfTwo x = 2 ^ e \<and> uint x \<le> 2 ^ e \<and> 2 ^ e < 2 * uint x"
proof -
  obtain z where z: "RoundUpToPowerOfTwo x = z + 1" "\<And>n. bit z n \<longleftrightarrow> (\<exists>m\<ge>n. bit (x - 1) m)"
    using RoundUpToPowerOfTwo_spread [of x] by (elim exE conjE) simp
  define e where "e = (LEAST e. take_bit e (x - 1) = x - 1)"
  have small: "uint (x - 1) < 2 ^ 63" using assms by (simp add: uint_minus_1)
  then have *: "take_bit 63 (x - 1) = x - 1" by (simp add: take_bit_word_eq_self_iff_uint)
  have e: "e \<le> 63" "take_bit e (x - 1) = x - 1"
    unfolding e_def by (rule Least_le [of "\<lambda>e. take_bit e (x - 1) = x - 1", OF *], rule LeastI [of "\<lambda>e. take_bit e (x - 1) = x - 1", OF *])
  have high: "bit (x - 1) (e - 1)" if "e \<noteq> 0"
  proof (rule ccontr)
    assume no: "\<not> bit (x - 1) (e - 1)"
    have "bit (take_bit (e - 1) (x - 1)) n = bit (take_bit e (x - 1)) n" for n
      using no that by (cases "n = e - 1") (auto simp: bit_simps)
    then have "take_bit (e - 1) (x - 1) = x - 1" using e(2) by (simp add: bit_eq_iff)
    then have "e \<le> e - 1" unfolding e_def by (rule Least_le)
    then show False using that by simp
  qed
  have zb: "bit z n \<longleftrightarrow> n < e" for n
  proof
    assume "bit z n"
    then obtain m where "n \<le> m" "bit (take_bit e (x - 1)) m" using e(2) by (auto simp: z)
    then show "n < e" by (simp add: bit_simps)
  next
    assume "n < e"
    then show "bit z n" using high by (auto simp: z intro: exI [of _ "e - 1"])
  qed
  have "z = mask e" by (rule bit_word_eqI) (simp add: zb bit_simps)
  then have "RoundUpToPowerOfTwo x = 2 ^ e" by (simp add: z mask_eq_exp_minus_1)
  moreover have "uint x \<le> 2 ^ e"
    using e(2) assms by (simp add: take_bit_word_eq_self_iff_uint uint_minus_1)
  moreover have "2 ^ e < 2 * uint x"
  proof (cases "e = 0")
    case False
    have "\<not> uint (x - 1) < 2 ^ (e - 1)"
    proof
      assume "uint (x - 1) < 2 ^ (e - 1)"
      then have "bit (take_bit (e - 1) (x - 1)) (e - 1)"
        using high [OF False] by (simp add: take_bit_word_eq_self_iff_uint [symmetric])
      then show False by (simp add: bit_simps)
    qed
    moreover have "(2 :: int) ^ e = 2 * 2 ^ (e - 1)" using False by (cases e) simp_all
    ultimately show ?thesis using assms by (simp add: uint_minus_1)
  qed (use assms in simp)
  ultimately show ?thesis using e(1) by blast
qed

end
