(* ===== verification/Riscv_Constants.thy ===== *)
theory Riscv_Constants
  imports Platform_Utils
begin

text \<open>
  \<open>runtime/vm/constants_riscv.h\<close> for a 64-bit target (\<open>XLEN == 64\<close>): registers,
  condition codes, the enumerations of opcode and function fields, and the
  encoders and decoders of register, function and immediate fields of the
  32-bit and of the compressed 16-bit instructions.

  An enumeration of the source is a type synonym for 32-bit words with one input
  abbreviation per enumerator (the source casts freely between the enumerations
  and \<open>uint32_t\<close>, and several enumerators share a value).  Enumerators carry the
  prefix of their enumeration (\<open>op_\<close>, \<open>f3_\<close>, \<open>f7_\<close>, \<open>f5_\<close>, \<open>f2_\<close>, \<open>f12_\<close>,
  \<open>rm_\<close>), as names such as \<open>AND\<close> and \<open>OR\<close> are taken.  An accessor \<open>x()\<close> of
  the classes \<open>Instr\<close> and \<open>CInstr\<close> is the decoder the accessor calls.  The
  \<open>ASSERT\<close> of an encoder is the predicate \<open>Is...\<close> of the same field; the emit
  functions of the assembler check it.
\<close>

unbundle bit_operations_syntax

subsection \<open>Registers\<close>

type_synonym Register = "5 word"
type_synonym FRegister = "5 word"

abbreviation (input) ZR :: Register where "ZR \<equiv> 0"
abbreviation (input) RA :: Register where "RA \<equiv> 1"
abbreviation (input) SP :: Register where "SP \<equiv> 2"
abbreviation (input) GP :: Register where "GP \<equiv> 3"
abbreviation (input) TP :: Register where "TP \<equiv> 4"
abbreviation (input) T0 :: Register where "T0 \<equiv> 5"
abbreviation (input) T1 :: Register where "T1 \<equiv> 6"
abbreviation (input) T2 :: Register where "T2 \<equiv> 7"
abbreviation (input) FP :: Register where "FP \<equiv> 8"
abbreviation (input) S1 :: Register where "S1 \<equiv> 9"
abbreviation (input) A0 :: Register where "A0 \<equiv> 10"
abbreviation (input) A1 :: Register where "A1 \<equiv> 11"
abbreviation (input) A2 :: Register where "A2 \<equiv> 12"
abbreviation (input) A3 :: Register where "A3 \<equiv> 13"
abbreviation (input) A4 :: Register where "A4 \<equiv> 14"
abbreviation (input) A5 :: Register where "A5 \<equiv> 15"
abbreviation (input) A6 :: Register where "A6 \<equiv> 16"
abbreviation (input) A7 :: Register where "A7 \<equiv> 17"
abbreviation (input) S2 :: Register where "S2 \<equiv> 18"
abbreviation (input) S3 :: Register where "S3 \<equiv> 19"
abbreviation (input) S4 :: Register where "S4 \<equiv> 20"
abbreviation (input) S5 :: Register where "S5 \<equiv> 21"
abbreviation (input) S6 :: Register where "S6 \<equiv> 22"
abbreviation (input) S7 :: Register where "S7 \<equiv> 23"
abbreviation (input) S8 :: Register where "S8 \<equiv> 24"
abbreviation (input) S9 :: Register where "S9 \<equiv> 25"
abbreviation (input) S10 :: Register where "S10 \<equiv> 26"
abbreviation (input) S11 :: Register where "S11 \<equiv> 27"
abbreviation (input) T3 :: Register where "T3 \<equiv> 28"
abbreviation (input) T4 :: Register where "T4 \<equiv> 29"
abbreviation (input) T5 :: Register where "T5 \<equiv> 30"
abbreviation (input) T6 :: Register where "T6 \<equiv> 31"

text \<open>Registers with a fixed role in generated code.\<close>

abbreviation (input) THR :: Register where "THR \<equiv> S1"
abbreviation (input) TMP :: Register where "TMP \<equiv> A3"
abbreviation (input) TMP2 :: Register where "TMP2 \<equiv> A4"
abbreviation (input) PP :: Register where "PP \<equiv> A5"
abbreviation (input) FAR_TMP :: Register where "FAR_TMP \<equiv> S8"

abbreviation (input) FA0 :: FRegister where "FA0 \<equiv> 10"
abbreviation (input) FA1 :: FRegister where "FA1 \<equiv> 11"
abbreviation (input) FA2 :: FRegister where "FA2 \<equiv> 12"
abbreviation (input) FA3 :: FRegister where "FA3 \<equiv> 13"
abbreviation (input) FA4 :: FRegister where "FA4 \<equiv> 14"
abbreviation (input) FA5 :: FRegister where "FA5 \<equiv> 15"
abbreviation (input) FA6 :: FRegister where "FA6 \<equiv> 16"
abbreviation (input) FA7 :: FRegister where "FA7 \<equiv> 17"

subsection \<open>Condition codes\<close>

type_synonym Condition = "32 word"

abbreviation (input) EQUAL :: Condition where "EQUAL \<equiv> 0"
abbreviation (input) NOT_EQUAL :: Condition where "NOT_EQUAL \<equiv> 1"
abbreviation (input) UNSIGNED_GREATER_EQUAL :: Condition where "UNSIGNED_GREATER_EQUAL \<equiv> 2"
abbreviation (input) UNSIGNED_LESS :: Condition where "UNSIGNED_LESS \<equiv> 3"
abbreviation (input) MI :: Condition where "MI \<equiv> 4"
abbreviation (input) PL :: Condition where "PL \<equiv> 5"
abbreviation (input) OVERFLOW :: Condition where "OVERFLOW \<equiv> 6"
abbreviation (input) NO_OVERFLOW :: Condition where "NO_OVERFLOW \<equiv> 7"
abbreviation (input) UNSIGNED_GREATER :: Condition where "UNSIGNED_GREATER \<equiv> 8"
abbreviation (input) UNSIGNED_LESS_EQUAL :: Condition where "UNSIGNED_LESS_EQUAL \<equiv> 9"
abbreviation (input) GREATER_EQUAL :: Condition where "GREATER_EQUAL \<equiv> 10"
abbreviation (input) LESS :: Condition where "LESS \<equiv> 11"
abbreviation (input) GREATER :: Condition where "GREATER \<equiv> 12"
abbreviation (input) LESS_EQUAL :: Condition where "LESS_EQUAL \<equiv> 13"
abbreviation (input) AL :: Condition where "AL \<equiv> 14"
abbreviation (input) NV :: Condition where "NV \<equiv> 15"
abbreviation (input) kInvalidCondition :: Condition where "kInvalidCondition \<equiv> 16"

definition InvertCondition :: "Condition \<Rightarrow> Condition option" where
  "InvertCondition c =
     (if c = AL \<or> c = kInvalidCondition then None else Some (c XOR 1))"

subsection \<open>Sign extension\<close>

definition SignExtend :: "nat \<Rightarrow> u32 \<Rightarrow> u32" where
  "SignExtend N value = signed_drop_bit (32 - N) (push_bit (32 - N) value)"

definition sign_extend32 :: "u32 \<Rightarrow> intx" where
  "sign_extend32 x = scast x"

definition sign_extend64 :: "u64 \<Rightarrow> intx" where
  "sign_extend64 x = x"

subsection \<open>Opcode and function fields\<close>

type_synonym Opcode = "32 word"

abbreviation (input) op_LUI :: Opcode where "op_LUI \<equiv> 0b0110111"
abbreviation (input) op_AUIPC :: Opcode where "op_AUIPC \<equiv> 0b0010111"
abbreviation (input) op_JAL :: Opcode where "op_JAL \<equiv> 0b1101111"
abbreviation (input) op_JALR :: Opcode where "op_JALR \<equiv> 0b1100111"
abbreviation (input) op_BRANCH :: Opcode where "op_BRANCH \<equiv> 0b1100011"
abbreviation (input) op_LOAD :: Opcode where "op_LOAD \<equiv> 0b0000011"
abbreviation (input) op_STORE :: Opcode where "op_STORE \<equiv> 0b0100011"
abbreviation (input) op_OPIMM :: Opcode where "op_OPIMM \<equiv> 0b0010011"
abbreviation (input) op_OP :: Opcode where "op_OP \<equiv> 0b0110011"
abbreviation (input) op_MISCMEM :: Opcode where "op_MISCMEM \<equiv> 0b0001111"
abbreviation (input) op_SYSTEM :: Opcode where "op_SYSTEM \<equiv> 0b1110011"
abbreviation (input) op_OP32 :: Opcode where "op_OP32 \<equiv> 0b0111011"
abbreviation (input) op_OPIMM32 :: Opcode where "op_OPIMM32 \<equiv> 0b0011011"
abbreviation (input) op_AMO :: Opcode where "op_AMO \<equiv> 0b0101111"
abbreviation (input) op_LOADFP :: Opcode where "op_LOADFP \<equiv> 0b0000111"
abbreviation (input) op_STOREFP :: Opcode where "op_STOREFP \<equiv> 0b0100111"
abbreviation (input) op_FMADD :: Opcode where "op_FMADD \<equiv> 0b1000011"
abbreviation (input) op_FMSUB :: Opcode where "op_FMSUB \<equiv> 0b1000111"
abbreviation (input) op_FNMSUB :: Opcode where "op_FNMSUB \<equiv> 0b1001011"
abbreviation (input) op_FNMADD :: Opcode where "op_FNMADD \<equiv> 0b1001111"
abbreviation (input) op_OPFP :: Opcode where "op_OPFP \<equiv> 0b1010011"

type_synonym Funct12 = "32 word"

abbreviation (input) f12_ECALL :: Funct12 where "f12_ECALL \<equiv> 0"
abbreviation (input) f12_EBREAK :: Funct12 where "f12_EBREAK \<equiv> 1"

type_synonym Funct3 = "32 word"

abbreviation (input) f3_0 :: Funct3 where "f3_0 \<equiv> 0"
abbreviation (input) f3_1 :: Funct3 where "f3_1 \<equiv> 1"
abbreviation (input) f3_BEQ :: Funct3 where "f3_BEQ \<equiv> 0b000"
abbreviation (input) f3_BNE :: Funct3 where "f3_BNE \<equiv> 0b001"
abbreviation (input) f3_BLT :: Funct3 where "f3_BLT \<equiv> 0b100"
abbreviation (input) f3_BGE :: Funct3 where "f3_BGE \<equiv> 0b101"
abbreviation (input) f3_BLTU :: Funct3 where "f3_BLTU \<equiv> 0b110"
abbreviation (input) f3_BGEU :: Funct3 where "f3_BGEU \<equiv> 0b111"
abbreviation (input) f3_LB :: Funct3 where "f3_LB \<equiv> 0b000"
abbreviation (input) f3_LH :: Funct3 where "f3_LH \<equiv> 0b001"
abbreviation (input) f3_LW :: Funct3 where "f3_LW \<equiv> 0b010"
abbreviation (input) f3_LBU :: Funct3 where "f3_LBU \<equiv> 0b100"
abbreviation (input) f3_LHU :: Funct3 where "f3_LHU \<equiv> 0b101"
abbreviation (input) f3_LWU :: Funct3 where "f3_LWU \<equiv> 0b110"
abbreviation (input) f3_LD :: Funct3 where "f3_LD \<equiv> 0b011"
abbreviation (input) f3_SB :: Funct3 where "f3_SB \<equiv> 0b000"
abbreviation (input) f3_SH :: Funct3 where "f3_SH \<equiv> 0b001"
abbreviation (input) f3_SW :: Funct3 where "f3_SW \<equiv> 0b010"
abbreviation (input) f3_SD :: Funct3 where "f3_SD \<equiv> 0b011"
abbreviation (input) f3_ADDI :: Funct3 where "f3_ADDI \<equiv> 0b000"
abbreviation (input) f3_SLLI :: Funct3 where "f3_SLLI \<equiv> 0b001"
abbreviation (input) f3_SLTI :: Funct3 where "f3_SLTI \<equiv> 0b010"
abbreviation (input) f3_SLTIU :: Funct3 where "f3_SLTIU \<equiv> 0b011"
abbreviation (input) f3_XORI :: Funct3 where "f3_XORI \<equiv> 0b100"
abbreviation (input) f3_SRI :: Funct3 where "f3_SRI \<equiv> 0b101"
abbreviation (input) f3_ORI :: Funct3 where "f3_ORI \<equiv> 0b110"
abbreviation (input) f3_ANDI :: Funct3 where "f3_ANDI \<equiv> 0b111"
abbreviation (input) f3_ADD :: Funct3 where "f3_ADD \<equiv> 0b000"
abbreviation (input) f3_SLL :: Funct3 where "f3_SLL \<equiv> 0b001"
abbreviation (input) f3_SLT :: Funct3 where "f3_SLT \<equiv> 0b010"
abbreviation (input) f3_SLTU :: Funct3 where "f3_SLTU \<equiv> 0b011"
abbreviation (input) f3_XOR :: Funct3 where "f3_XOR \<equiv> 0b100"
abbreviation (input) f3_SR :: Funct3 where "f3_SR \<equiv> 0b101"
abbreviation (input) f3_OR :: Funct3 where "f3_OR \<equiv> 0b110"
abbreviation (input) f3_AND :: Funct3 where "f3_AND \<equiv> 0b111"
abbreviation (input) f3_FENCE :: Funct3 where "f3_FENCE \<equiv> 0b000"
abbreviation (input) f3_FENCEI :: Funct3 where "f3_FENCEI \<equiv> 0b001"
abbreviation (input) f3_CSRRW :: Funct3 where "f3_CSRRW \<equiv> 0b001"
abbreviation (input) f3_CSRRS :: Funct3 where "f3_CSRRS \<equiv> 0b010"
abbreviation (input) f3_CSRRC :: Funct3 where "f3_CSRRC \<equiv> 0b011"
abbreviation (input) f3_CSRRWI :: Funct3 where "f3_CSRRWI \<equiv> 0b101"
abbreviation (input) f3_CSRRSI :: Funct3 where "f3_CSRRSI \<equiv> 0b110"
abbreviation (input) f3_CSRRCI :: Funct3 where "f3_CSRRCI \<equiv> 0b111"
abbreviation (input) f3_MUL :: Funct3 where "f3_MUL \<equiv> 0b000"
abbreviation (input) f3_MULH :: Funct3 where "f3_MULH \<equiv> 0b001"
abbreviation (input) f3_MULHSU :: Funct3 where "f3_MULHSU \<equiv> 0b010"
abbreviation (input) f3_MULHU :: Funct3 where "f3_MULHU \<equiv> 0b011"
abbreviation (input) f3_DIV :: Funct3 where "f3_DIV \<equiv> 0b100"
abbreviation (input) f3_DIVU :: Funct3 where "f3_DIVU \<equiv> 0b101"
abbreviation (input) f3_REM :: Funct3 where "f3_REM \<equiv> 0b110"
abbreviation (input) f3_REMU :: Funct3 where "f3_REMU \<equiv> 0b111"
abbreviation (input) f3_MULW :: Funct3 where "f3_MULW \<equiv> 0b000"
abbreviation (input) f3_DIVW :: Funct3 where "f3_DIVW \<equiv> 0b100"
abbreviation (input) f3_DIVUW :: Funct3 where "f3_DIVUW \<equiv> 0b101"
abbreviation (input) f3_REMW :: Funct3 where "f3_REMW \<equiv> 0b110"
abbreviation (input) f3_REMUW :: Funct3 where "f3_REMUW \<equiv> 0b111"
abbreviation (input) f3_WIDTH32 :: Funct3 where "f3_WIDTH32 \<equiv> 0b010"
abbreviation (input) f3_WIDTH64 :: Funct3 where "f3_WIDTH64 \<equiv> 0b011"
abbreviation (input) f3_S :: Funct3 where "f3_S \<equiv> 0b010"
abbreviation (input) f3_D :: Funct3 where "f3_D \<equiv> 0b011"
abbreviation (input) f3_J :: Funct3 where "f3_J \<equiv> 0b000"
abbreviation (input) f3_JN :: Funct3 where "f3_JN \<equiv> 0b001"
abbreviation (input) f3_JX :: Funct3 where "f3_JX \<equiv> 0b010"
abbreviation (input) f3_MIN :: Funct3 where "f3_MIN \<equiv> 0b000"
abbreviation (input) f3_MAX :: Funct3 where "f3_MAX \<equiv> 0b001"
abbreviation (input) f3_FEQ :: Funct3 where "f3_FEQ \<equiv> 0b010"
abbreviation (input) f3_FLT :: Funct3 where "f3_FLT \<equiv> 0b001"
abbreviation (input) f3_FLE :: Funct3 where "f3_FLE \<equiv> 0b000"

type_synonym Funct7 = "32 word"

abbreviation (input) f7_0 :: Funct7 where "f7_0 \<equiv> 0"
abbreviation (input) f7_SRA :: Funct7 where "f7_SRA \<equiv> 0b0100000"
abbreviation (input) f7_SUB :: Funct7 where "f7_SUB \<equiv> 0b0100000"
abbreviation (input) f7_MULDIV :: Funct7 where "f7_MULDIV \<equiv> 0b0000001"
abbreviation (input) f7_FADDS :: Funct7 where "f7_FADDS \<equiv> 0b0000000"
abbreviation (input) f7_FSUBS :: Funct7 where "f7_FSUBS \<equiv> 0b0000100"
abbreviation (input) f7_FMULS :: Funct7 where "f7_FMULS \<equiv> 0b0001000"
abbreviation (input) f7_FDIVS :: Funct7 where "f7_FDIVS \<equiv> 0b0001100"
abbreviation (input) f7_FSQRTS :: Funct7 where "f7_FSQRTS \<equiv> 0b0101100"
abbreviation (input) f7_FSGNJS :: Funct7 where "f7_FSGNJS \<equiv> 0b0010000"
abbreviation (input) f7_FMINMAXS :: Funct7 where "f7_FMINMAXS \<equiv> 0b0010100"
abbreviation (input) f7_FCMPS :: Funct7 where "f7_FCMPS \<equiv> 0b1010000"
abbreviation (input) f7_FCLASSS :: Funct7 where "f7_FCLASSS \<equiv> 0b1110000"
abbreviation (input) f7_FCVTintS :: Funct7 where "f7_FCVTintS \<equiv> 0b1100000"
abbreviation (input) f7_FCVTSint :: Funct7 where "f7_FCVTSint \<equiv> 0b1101000"
abbreviation (input) f7_FMVXW :: Funct7 where "f7_FMVXW \<equiv> 0b1110000"
abbreviation (input) f7_FMVWX :: Funct7 where "f7_FMVWX \<equiv> 0b1111000"
abbreviation (input) f7_FADDD :: Funct7 where "f7_FADDD \<equiv> 0b0000001"
abbreviation (input) f7_FSUBD :: Funct7 where "f7_FSUBD \<equiv> 0b0000101"
abbreviation (input) f7_FMULD :: Funct7 where "f7_FMULD \<equiv> 0b0001001"
abbreviation (input) f7_FDIVD :: Funct7 where "f7_FDIVD \<equiv> 0b0001101"
abbreviation (input) f7_FSQRTD :: Funct7 where "f7_FSQRTD \<equiv> 0b0101101"
abbreviation (input) f7_FSGNJD :: Funct7 where "f7_FSGNJD \<equiv> 0b0010001"
abbreviation (input) f7_FMINMAXD :: Funct7 where "f7_FMINMAXD \<equiv> 0b0010101"
abbreviation (input) f7_FCVTS :: Funct7 where "f7_FCVTS \<equiv> 0b0100000"
abbreviation (input) f7_FCVTD :: Funct7 where "f7_FCVTD \<equiv> 0b0100001"
abbreviation (input) f7_FCMPD :: Funct7 where "f7_FCMPD \<equiv> 0b1010001"
abbreviation (input) f7_FCLASSD :: Funct7 where "f7_FCLASSD \<equiv> 0b1110001"
abbreviation (input) f7_FCVTintD :: Funct7 where "f7_FCVTintD \<equiv> 0b1100001"
abbreviation (input) f7_FCVTDint :: Funct7 where "f7_FCVTDint \<equiv> 0b1101001"
abbreviation (input) f7_FMVXD :: Funct7 where "f7_FMVXD \<equiv> 0b1110001"
abbreviation (input) f7_FMVDX :: Funct7 where "f7_FMVDX \<equiv> 0b1111001"

type_synonym Funct5 = "32 word"

abbreviation (input) f5_LR :: Funct5 where "f5_LR \<equiv> 0b00010"
abbreviation (input) f5_SC :: Funct5 where "f5_SC \<equiv> 0b00011"
abbreviation (input) f5_AMOSWAP :: Funct5 where "f5_AMOSWAP \<equiv> 0b00001"
abbreviation (input) f5_AMOADD :: Funct5 where "f5_AMOADD \<equiv> 0b00000"
abbreviation (input) f5_AMOXOR :: Funct5 where "f5_AMOXOR \<equiv> 0b00100"
abbreviation (input) f5_AMOAND :: Funct5 where "f5_AMOAND \<equiv> 0b01100"
abbreviation (input) f5_AMOOR :: Funct5 where "f5_AMOOR \<equiv> 0b01000"
abbreviation (input) f5_AMOMIN :: Funct5 where "f5_AMOMIN \<equiv> 0b10000"
abbreviation (input) f5_AMOMAX :: Funct5 where "f5_AMOMAX \<equiv> 0b10100"
abbreviation (input) f5_AMOMINU :: Funct5 where "f5_AMOMINU \<equiv> 0b11000"
abbreviation (input) f5_AMOMAXU :: Funct5 where "f5_AMOMAXU \<equiv> 0b11100"

type_synonym Funct2 = "32 word"

abbreviation (input) f2_S :: Funct2 where "f2_S \<equiv> 0b00"
abbreviation (input) f2_D :: Funct2 where "f2_D \<equiv> 0b01"

type_synonym RoundingMode = "32 word"

abbreviation (input) rm_RNE :: RoundingMode where "rm_RNE \<equiv> 0b000"
abbreviation (input) rm_RTZ :: RoundingMode where "rm_RTZ \<equiv> 0b001"
abbreviation (input) rm_RDN :: RoundingMode where "rm_RDN \<equiv> 0b010"
abbreviation (input) rm_RUP :: RoundingMode where "rm_RUP \<equiv> 0b011"
abbreviation (input) rm_RMM :: RoundingMode where "rm_RMM \<equiv> 0b100"
abbreviation (input) rm_DYN :: RoundingMode where "rm_DYN \<equiv> 0b111"

type_synonym FcvtRs2 = "32 word"

abbreviation (input) fcvt_W :: FcvtRs2 where "fcvt_W \<equiv> 0b00000"
abbreviation (input) fcvt_WU :: FcvtRs2 where "fcvt_WU \<equiv> 0b00001"
abbreviation (input) fcvt_L :: FcvtRs2 where "fcvt_L \<equiv> 0b00010"
abbreviation (input) fcvt_LU :: FcvtRs2 where "fcvt_LU \<equiv> 0b00011"

subsection \<open>Register and function fields\<close>

definition EncodeRd :: "Register \<Rightarrow> u32" where
  "EncodeRd r = push_bit 7 (ucast r)"

definition DecodeRd :: "u32 \<Rightarrow> Register" where
  "DecodeRd encoding = ucast (drop_bit 7 encoding AND 31)"

definition EncodeRs1 :: "Register \<Rightarrow> u32" where
  "EncodeRs1 r = push_bit 15 (ucast r)"

definition DecodeRs1 :: "u32 \<Rightarrow> Register" where
  "DecodeRs1 encoding = ucast (drop_bit 15 encoding AND 31)"

definition EncodeRs2 :: "Register \<Rightarrow> u32" where
  "EncodeRs2 r = push_bit 20 (ucast r)"

definition DecodeRs2 :: "u32 \<Rightarrow> Register" where
  "DecodeRs2 encoding = ucast (drop_bit 20 encoding AND 31)"

definition EncodeFRd :: "FRegister \<Rightarrow> u32" where
  "EncodeFRd r = push_bit 7 (ucast r)"

definition DecodeFRd :: "u32 \<Rightarrow> FRegister" where
  "DecodeFRd encoding = ucast (drop_bit 7 encoding AND 31)"

definition EncodeFRs1 :: "FRegister \<Rightarrow> u32" where
  "EncodeFRs1 r = push_bit 15 (ucast r)"

definition DecodeFRs1 :: "u32 \<Rightarrow> FRegister" where
  "DecodeFRs1 encoding = ucast (drop_bit 15 encoding AND 31)"

definition EncodeFRs2 :: "FRegister \<Rightarrow> u32" where
  "EncodeFRs2 r = push_bit 20 (ucast r)"

definition DecodeFRs2 :: "u32 \<Rightarrow> FRegister" where
  "DecodeFRs2 encoding = ucast (drop_bit 20 encoding AND 31)"

definition EncodeFRs3 :: "FRegister \<Rightarrow> u32" where
  "EncodeFRs3 r = push_bit 27 (ucast r)"

definition DecodeFRs3 :: "u32 \<Rightarrow> FRegister" where
  "DecodeFRs3 encoding = ucast (drop_bit 27 encoding AND 31)"

definition IsOpcode :: "Opcode \<Rightarrow> bool" where
  "IsOpcode f = (f AND 0x7F = f)"

definition EncodeOpcode :: "Opcode \<Rightarrow> u32" where
  "EncodeOpcode f = push_bit 0 f"

definition DecodeOpcode :: "u32 \<Rightarrow> Opcode" where
  "DecodeOpcode encoding = drop_bit 0 encoding AND 0x7F"

definition IsFunct2 :: "Funct2 \<Rightarrow> bool" where
  "IsFunct2 f = (f AND 0x3 = f)"

definition EncodeFunct2 :: "Funct2 \<Rightarrow> u32" where
  "EncodeFunct2 f = push_bit 25 f"

definition DecodeFunct2 :: "u32 \<Rightarrow> Funct2" where
  "DecodeFunct2 encoding = drop_bit 25 encoding AND 0x3"

definition IsFunct3 :: "Funct3 \<Rightarrow> bool" where
  "IsFunct3 f = (f AND 0x7 = f)"

definition EncodeFunct3 :: "Funct3 \<Rightarrow> u32" where
  "EncodeFunct3 f = push_bit 12 f"

definition DecodeFunct3 :: "u32 \<Rightarrow> Funct3" where
  "DecodeFunct3 encoding = drop_bit 12 encoding AND 0x7"

definition IsFunct5 :: "Funct5 \<Rightarrow> bool" where
  "IsFunct5 f = (f AND 0x1F = f)"

definition EncodeFunct5 :: "Funct5 \<Rightarrow> u32" where
  "EncodeFunct5 f = push_bit 27 f"

definition DecodeFunct5 :: "u32 \<Rightarrow> Funct5" where
  "DecodeFunct5 encoding = drop_bit 27 encoding AND 0x1F"

definition IsFunct7 :: "Funct7 \<Rightarrow> bool" where
  "IsFunct7 f = (f AND 0x7F = f)"

definition EncodeFunct7 :: "Funct7 \<Rightarrow> u32" where
  "EncodeFunct7 f = push_bit 25 f"

definition DecodeFunct7 :: "u32 \<Rightarrow> Funct7" where
  "DecodeFunct7 encoding = drop_bit 25 encoding AND 0x7F"

definition IsFunct12 :: "Funct12 \<Rightarrow> bool" where
  "IsFunct12 f = (f AND 0xFFF = f)"

definition EncodeFunct12 :: "Funct12 \<Rightarrow> u32" where
  "EncodeFunct12 f = push_bit 20 f"

definition DecodeFunct12 :: "u32 \<Rightarrow> Funct12" where
  "DecodeFunct12 encoding = drop_bit 20 encoding AND 0xFFF"

definition IsShamt :: "u32 \<Rightarrow> bool" where
  "IsShamt f = (f AND 0x3F = f)"

definition EncodeShamt :: "u32 \<Rightarrow> u32" where
  "EncodeShamt f = push_bit 20 f"

definition DecodeShamt :: "u32 \<Rightarrow> u32" where
  "DecodeShamt encoding = drop_bit 20 encoding AND 0x3F"

definition IsRoundingMode :: "RoundingMode \<Rightarrow> bool" where
  "IsRoundingMode f = (f AND 0x7 = f)"

definition EncodeRoundingMode :: "RoundingMode \<Rightarrow> u32" where
  "EncodeRoundingMode f = push_bit 12 f"

definition DecodeRoundingMode :: "u32 \<Rightarrow> RoundingMode" where
  "DecodeRoundingMode encoding = drop_bit 12 encoding AND 0x7"

subsection \<open>Immediate fields of 32-bit instructions\<close>

definition IsBTypeImm :: "intptr \<Rightarrow> bool" where
  "IsBTypeImm imm = (IsInt 12 imm \<and> IsAligned imm 2)"

definition EncodeBTypeImm :: "intptr \<Rightarrow> u32" where
  "EncodeBTypeImm imm =
    (ucast (push_bit 31 (signed_drop_bit 12 imm AND 0x1)) OR
     ucast (push_bit 25 (signed_drop_bit 5 imm AND 0x3f)) OR
     ucast (push_bit 8 (signed_drop_bit 1 imm AND 0xf)) OR
     ucast (push_bit 7 (signed_drop_bit 11 imm AND 0x1)))"

definition DecodeBTypeImm :: "u32 \<Rightarrow> intptr" where
  "DecodeBTypeImm encoded =
    (let imm =
       push_bit 12 (drop_bit 31 encoded AND 0x1) OR
       push_bit 5 (drop_bit 25 encoded AND 0x3f) OR
       push_bit 1 (drop_bit 8 encoded AND 0xf) OR
       push_bit 11 (drop_bit 7 encoded AND 0x1)
     in scast (SignExtend 12 imm))"

definition IsJTypeImm :: "intptr \<Rightarrow> bool" where
  "IsJTypeImm imm = (IsInt 20 imm \<and> IsAligned imm 2)"

definition EncodeJTypeImm :: "intptr \<Rightarrow> u32" where
  "EncodeJTypeImm imm =
    (ucast (push_bit 31 (signed_drop_bit 20 imm AND 0x1)) OR
     ucast (push_bit 21 (signed_drop_bit 1 imm AND 0x3ff)) OR
     ucast (push_bit 20 (signed_drop_bit 11 imm AND 0x1)) OR
     ucast (push_bit 12 (signed_drop_bit 12 imm AND 0xff)))"

definition DecodeJTypeImm :: "u32 \<Rightarrow> intptr" where
  "DecodeJTypeImm encoded =
    (let imm =
       push_bit 20 (drop_bit 31 encoded AND 0x1) OR
       push_bit 1 (drop_bit 21 encoded AND 0x3ff) OR
       push_bit 11 (drop_bit 20 encoded AND 0x1) OR
       push_bit 12 (drop_bit 12 encoded AND 0xff)
     in scast (SignExtend 20 imm))"

definition IsITypeImm :: "intptr \<Rightarrow> bool" where
  "IsITypeImm imm = (IsInt 12 imm)"

definition EncodeITypeImm :: "intptr \<Rightarrow> u32" where
  "EncodeITypeImm imm =
    (ucast (push_bit 20 imm))"

definition DecodeITypeImm :: "u32 \<Rightarrow> intptr" where
  "DecodeITypeImm encoded =
    (scast (SignExtend 12 (drop_bit 20 encoded)))"

definition IsUTypeImm :: "intptr \<Rightarrow> bool" where
  "IsUTypeImm imm = (IsInt 32 imm \<and> IsAligned imm 4096)"

definition EncodeUTypeImm :: "intptr \<Rightarrow> u32" where
  "EncodeUTypeImm imm =
    (ucast imm)"

definition DecodeUTypeImm :: "u32 \<Rightarrow> intptr" where
  "DecodeUTypeImm encoded =
    (scast (SignExtend 32 (encoded AND NOT (push_bit 12 1 - 1))))"

definition IsSTypeImm :: "intptr \<Rightarrow> bool" where
  "IsSTypeImm imm = (IsInt 12 imm)"

definition EncodeSTypeImm :: "intptr \<Rightarrow> u32" where
  "EncodeSTypeImm imm =
    (ucast (push_bit 25 (signed_drop_bit 5 imm AND 0x7f)) OR
     ucast (push_bit 7 (signed_drop_bit 0 imm AND 0x1f)))"

definition DecodeSTypeImm :: "u32 \<Rightarrow> intptr" where
  "DecodeSTypeImm encoded =
    (let imm =
       push_bit 5 (drop_bit 25 encoded AND 0x7f) OR
       push_bit 0 (drop_bit 7 encoded AND 0x1f)
     in scast (SignExtend 12 imm))"


subsection \<open>Instructions\<close>

definition IsCInstruction :: "u16 \<Rightarrow> bool" where
  "IsCInstruction parcel = (parcel AND 3 \<noteq> 3)"

text \<open>The class \<open>Instr\<close> wraps the encoding; its length is 4.\<close>

type_synonym Instr = u32

datatype memory_order = memory_order_relaxed | memory_order_acquire | memory_order_release
  | memory_order_acq_rel

abbreviation (input) kReleaseShift :: nat where "kReleaseShift \<equiv> 25"
abbreviation (input) kAcquireShift :: nat where "kAcquireShift \<equiv> 26"

definition Instr_memory_order :: "Instr \<Rightarrow> memory_order" where
  "Instr_memory_order encoding =
     (let acquire = (drop_bit kAcquireShift encoding AND 1) \<noteq> 0;
          release = (drop_bit kReleaseShift encoding AND 1) \<noteq> 0
      in if acquire \<and> release then memory_order_acq_rel
         else if acquire then memory_order_acquire
         else if release then memory_order_release
         else memory_order_relaxed)"

definition Instr_csr :: "Instr \<Rightarrow> u32" where
  "Instr_csr encoding = drop_bit 20 encoding"

definition Instr_zimm :: "Instr \<Rightarrow> u32" where
  "Instr_zimm encoding = ucast (DecodeRs1 encoding)"

definition kSimulatorRedirectInstruction :: u32 where
  "kSimulatorRedirectInstruction = push_bit 20 f12_ECALL OR op_SYSTEM"

subsection \<open>Register fields of compressed instructions\<close>

definition EncodeCRd :: "Register \<Rightarrow> u32" where
  "EncodeCRd r = push_bit 7 (ucast r)"

definition DecodeCRd :: "u32 \<Rightarrow> Register" where
  "DecodeCRd encoding = ucast (drop_bit 7 encoding AND 31)"

definition EncodeCRs1 :: "Register \<Rightarrow> u32" where
  "EncodeCRs1 r = push_bit 7 (ucast r)"

definition DecodeCRs1 :: "u32 \<Rightarrow> Register" where
  "DecodeCRs1 encoding = ucast (drop_bit 7 encoding AND 31)"

definition EncodeCRs2 :: "Register \<Rightarrow> u32" where
  "EncodeCRs2 r = push_bit 2 (ucast r)"

definition DecodeCRs2 :: "u32 \<Rightarrow> Register" where
  "DecodeCRs2 encoding = ucast (drop_bit 2 encoding AND 31)"

definition EncodeCFRd :: "FRegister \<Rightarrow> u32" where
  "EncodeCFRd r = push_bit 7 (ucast r)"

definition DecodeCFRd :: "u32 \<Rightarrow> FRegister" where
  "DecodeCFRd encoding = ucast (drop_bit 7 encoding AND 31)"

definition EncodeCFRs1 :: "FRegister \<Rightarrow> u32" where
  "EncodeCFRs1 r = push_bit 7 (ucast r)"

definition DecodeCFRs1 :: "u32 \<Rightarrow> FRegister" where
  "DecodeCFRs1 encoding = ucast (drop_bit 7 encoding AND 31)"

definition EncodeCFRs2 :: "FRegister \<Rightarrow> u32" where
  "EncodeCFRs2 r = push_bit 2 (ucast r)"

definition DecodeCFRs2 :: "u32 \<Rightarrow> FRegister" where
  "DecodeCFRs2 encoding = ucast (drop_bit 2 encoding AND 31)"

definition IsCRdp :: "Register \<Rightarrow> bool" where
  "IsCRdp r = (r \<ge> 8 \<and> r < 16)"

definition EncodeCRdp :: "Register \<Rightarrow> u32" where
  "EncodeCRdp r = push_bit 2 (ucast r AND 7)"

definition DecodeCRdp :: "u32 \<Rightarrow> Register" where
  "DecodeCRdp encoding = ucast ((drop_bit 2 encoding AND 7) + 8)"

definition IsCRs1p :: "Register \<Rightarrow> bool" where
  "IsCRs1p r = (r \<ge> 8 \<and> r < 16)"

definition EncodeCRs1p :: "Register \<Rightarrow> u32" where
  "EncodeCRs1p r = push_bit 7 (ucast r AND 7)"

definition DecodeCRs1p :: "u32 \<Rightarrow> Register" where
  "DecodeCRs1p encoding = ucast ((drop_bit 7 encoding AND 7) + 8)"

definition IsCRs2p :: "Register \<Rightarrow> bool" where
  "IsCRs2p r = (r \<ge> 8 \<and> r < 16)"

definition EncodeCRs2p :: "Register \<Rightarrow> u32" where
  "EncodeCRs2p r = push_bit 2 (ucast r AND 7)"

definition DecodeCRs2p :: "u32 \<Rightarrow> Register" where
  "DecodeCRs2p encoding = ucast ((drop_bit 2 encoding AND 7) + 8)"

definition IsCFRdp :: "FRegister \<Rightarrow> bool" where
  "IsCFRdp r = (r \<ge> 8 \<and> r < 16)"

definition EncodeCFRdp :: "FRegister \<Rightarrow> u32" where
  "EncodeCFRdp r = push_bit 2 (ucast r AND 7)"

definition DecodeCFRdp :: "u32 \<Rightarrow> FRegister" where
  "DecodeCFRdp encoding = ucast ((drop_bit 2 encoding AND 7) + 8)"

definition IsCFRs1p :: "FRegister \<Rightarrow> bool" where
  "IsCFRs1p r = (r \<ge> 8 \<and> r < 16)"

definition EncodeCFRs1p :: "FRegister \<Rightarrow> u32" where
  "EncodeCFRs1p r = push_bit 7 (ucast r AND 7)"

definition DecodeCFRs1p :: "u32 \<Rightarrow> FRegister" where
  "DecodeCFRs1p encoding = ucast ((drop_bit 7 encoding AND 7) + 8)"

definition IsCFRs2p :: "FRegister \<Rightarrow> bool" where
  "IsCFRs2p r = (r \<ge> 8 \<and> r < 16)"

definition EncodeCFRs2p :: "FRegister \<Rightarrow> u32" where
  "EncodeCFRs2p r = push_bit 2 (ucast r AND 7)"

definition DecodeCFRs2p :: "u32 \<Rightarrow> FRegister" where
  "DecodeCFRs2p encoding = ucast ((drop_bit 2 encoding AND 7) + 8)"

subsection \<open>Immediate fields of compressed instructions\<close>

definition IsCSPLoad4Imm :: "intptr \<Rightarrow> bool" where
  "IsCSPLoad4Imm imm = (IsUint 8 imm \<and> IsAligned imm 4)"

definition EncodeCSPLoad4Imm :: "intptr \<Rightarrow> u32" where
  "EncodeCSPLoad4Imm imm =
    (ucast (push_bit 12 (signed_drop_bit 5 imm AND 0x1)) OR
     ucast (push_bit 4 (signed_drop_bit 2 imm AND 0x7)) OR
     ucast (push_bit 2 (signed_drop_bit 6 imm AND 0x3)))"

definition DecodeCSPLoad4Imm :: "u32 \<Rightarrow> intptr" where
  "DecodeCSPLoad4Imm encoding =
    (let imm =
       push_bit 5 (drop_bit 12 encoding AND 0x1) OR
       push_bit 2 (drop_bit 4 encoding AND 0x7) OR
       push_bit 6 (drop_bit 2 encoding AND 0x3)
     in ucast imm)"

definition IsCSPLoad8Imm :: "intptr \<Rightarrow> bool" where
  "IsCSPLoad8Imm imm = (IsUint 9 imm \<and> IsAligned imm 8)"

definition EncodeCSPLoad8Imm :: "intptr \<Rightarrow> u32" where
  "EncodeCSPLoad8Imm imm =
    (ucast (push_bit 12 (signed_drop_bit 5 imm AND 0x1)) OR
     ucast (push_bit 5 (signed_drop_bit 3 imm AND 0x3)) OR
     ucast (push_bit 2 (signed_drop_bit 6 imm AND 0x7)))"

definition DecodeCSPLoad8Imm :: "u32 \<Rightarrow> intptr" where
  "DecodeCSPLoad8Imm encoding =
    (let imm =
       push_bit 5 (drop_bit 12 encoding AND 0x1) OR
       push_bit 3 (drop_bit 5 encoding AND 0x3) OR
       push_bit 6 (drop_bit 2 encoding AND 0x7)
     in ucast imm)"

definition IsCSPStore4Imm :: "intptr \<Rightarrow> bool" where
  "IsCSPStore4Imm imm = (IsUint 8 imm \<and> IsAligned imm 4)"

definition EncodeCSPStore4Imm :: "intptr \<Rightarrow> u32" where
  "EncodeCSPStore4Imm imm =
    (ucast (push_bit 9 (signed_drop_bit 2 imm AND 0xF)) OR
     ucast (push_bit 7 (signed_drop_bit 6 imm AND 0x3)))"

definition DecodeCSPStore4Imm :: "u32 \<Rightarrow> intptr" where
  "DecodeCSPStore4Imm encoding =
    (let imm =
       push_bit 2 (drop_bit 9 encoding AND 0xF) OR
       push_bit 6 (drop_bit 7 encoding AND 0x3)
     in ucast imm)"

definition IsCSPStore8Imm :: "intptr \<Rightarrow> bool" where
  "IsCSPStore8Imm imm = (IsUint 9 imm \<and> IsAligned imm 8)"

definition EncodeCSPStore8Imm :: "intptr \<Rightarrow> u32" where
  "EncodeCSPStore8Imm imm =
    (ucast (push_bit 10 (signed_drop_bit 3 imm AND 0x7)) OR
     ucast (push_bit 7 (signed_drop_bit 6 imm AND 0x7)))"

definition DecodeCSPStore8Imm :: "u32 \<Rightarrow> intptr" where
  "DecodeCSPStore8Imm encoding =
    (let imm =
       push_bit 3 (drop_bit 10 encoding AND 0x7) OR
       push_bit 6 (drop_bit 7 encoding AND 0x7)
     in ucast imm)"

definition IsCMem4Imm :: "intptr \<Rightarrow> bool" where
  "IsCMem4Imm imm = (IsUint 7 imm \<and> IsAligned imm 4)"

definition EncodeCMem4Imm :: "intptr \<Rightarrow> u32" where
  "EncodeCMem4Imm imm =
    (ucast (push_bit 10 (signed_drop_bit 3 imm AND 0x7)) OR
     ucast (push_bit 6 (signed_drop_bit 2 imm AND 0x1)) OR
     ucast (push_bit 5 (signed_drop_bit 6 imm AND 0x1)))"

definition DecodeCMem4Imm :: "u32 \<Rightarrow> intptr" where
  "DecodeCMem4Imm encoding =
    (let imm =
       push_bit 3 (drop_bit 10 encoding AND 0x7) OR
       push_bit 2 (drop_bit 6 encoding AND 0x1) OR
       push_bit 6 (drop_bit 5 encoding AND 0x1)
     in ucast imm)"

definition IsCMem8Imm :: "intptr \<Rightarrow> bool" where
  "IsCMem8Imm imm = (IsUint 8 imm \<and> IsAligned imm 8)"

definition EncodeCMem8Imm :: "intptr \<Rightarrow> u32" where
  "EncodeCMem8Imm imm =
    (ucast (push_bit 10 (signed_drop_bit 3 imm AND 0x7)) OR
     ucast (push_bit 5 (signed_drop_bit 6 imm AND 0x3)))"

definition DecodeCMem8Imm :: "u32 \<Rightarrow> intptr" where
  "DecodeCMem8Imm encoding =
    (let imm =
       push_bit 3 (drop_bit 10 encoding AND 0x7) OR
       push_bit 6 (drop_bit 5 encoding AND 0x3)
     in ucast imm)"

definition IsCJImm :: "intptr \<Rightarrow> bool" where
  "IsCJImm imm = (IsInt 11 imm \<and> IsAligned imm 2)"

definition EncodeCJImm :: "intptr \<Rightarrow> u32" where
  "EncodeCJImm imm =
    (ucast (push_bit 12 (signed_drop_bit 11 imm AND 0x1)) OR
     ucast (push_bit 11 (signed_drop_bit 4 imm AND 0x1)) OR
     ucast (push_bit 9 (signed_drop_bit 8 imm AND 0x3)) OR
     ucast (push_bit 8 (signed_drop_bit 10 imm AND 0x1)) OR
     ucast (push_bit 7 (signed_drop_bit 6 imm AND 0x1)) OR
     ucast (push_bit 6 (signed_drop_bit 7 imm AND 0x1)) OR
     ucast (push_bit 3 (signed_drop_bit 1 imm AND 0x7)) OR
     ucast (push_bit 2 (signed_drop_bit 5 imm AND 0x1)))"

definition DecodeCJImm :: "u32 \<Rightarrow> intptr" where
  "DecodeCJImm encoding =
    (let imm =
       push_bit 11 (drop_bit 12 encoding AND 0x1) OR
       push_bit 4 (drop_bit 11 encoding AND 0x1) OR
       push_bit 8 (drop_bit 9 encoding AND 0x3) OR
       push_bit 10 (drop_bit 8 encoding AND 0x1) OR
       push_bit 6 (drop_bit 7 encoding AND 0x1) OR
       push_bit 7 (drop_bit 6 encoding AND 0x1) OR
       push_bit 1 (drop_bit 3 encoding AND 0x7) OR
       push_bit 5 (drop_bit 2 encoding AND 0x1)
     in scast (SignExtend 11 imm))"

definition IsCBImm :: "intptr \<Rightarrow> bool" where
  "IsCBImm imm = (IsInt 8 imm \<and> IsAligned imm 2)"

definition EncodeCBImm :: "intptr \<Rightarrow> u32" where
  "EncodeCBImm imm =
    (ucast (push_bit 12 (signed_drop_bit 8 imm AND 0x1)) OR
     ucast (push_bit 10 (signed_drop_bit 3 imm AND 0x3)) OR
     ucast (push_bit 5 (signed_drop_bit 6 imm AND 0x3)) OR
     ucast (push_bit 3 (signed_drop_bit 1 imm AND 0x3)) OR
     ucast (push_bit 2 (signed_drop_bit 5 imm AND 0x1)))"

definition DecodeCBImm :: "u32 \<Rightarrow> intptr" where
  "DecodeCBImm encoding =
    (let imm =
       push_bit 8 (drop_bit 12 encoding AND 0x1) OR
       push_bit 3 (drop_bit 10 encoding AND 0x3) OR
       push_bit 6 (drop_bit 5 encoding AND 0x3) OR
       push_bit 1 (drop_bit 3 encoding AND 0x3) OR
       push_bit 5 (drop_bit 2 encoding AND 0x1)
     in scast (SignExtend 8 imm))"

definition IsCIImm :: "intptr \<Rightarrow> bool" where
  "IsCIImm imm = (IsInt 6 imm \<and> IsAligned imm 1)"

definition EncodeCIImm :: "intptr \<Rightarrow> u32" where
  "EncodeCIImm imm =
    (ucast (push_bit 12 (signed_drop_bit 5 imm AND 0x1)) OR
     ucast (push_bit 2 (signed_drop_bit 0 imm AND 0x1F)))"

definition DecodeCIImm :: "u32 \<Rightarrow> intptr" where
  "DecodeCIImm encoding =
    (let imm =
       push_bit 5 (drop_bit 12 encoding AND 0x1) OR
       push_bit 0 (drop_bit 2 encoding AND 0x1F)
     in scast (SignExtend 6 imm))"

definition IsCUImm :: "intptr \<Rightarrow> bool" where
  "IsCUImm imm = (IsInt 17 imm \<and> IsAligned imm 4096)"

definition EncodeCUImm :: "intptr \<Rightarrow> u32" where
  "EncodeCUImm imm =
    (ucast (push_bit 12 (signed_drop_bit 17 imm AND 0x1)) OR
     ucast (push_bit 2 (signed_drop_bit 12 imm AND 0x1F)))"

definition DecodeCUImm :: "u32 \<Rightarrow> intptr" where
  "DecodeCUImm encoding =
    (let imm =
       push_bit 17 (drop_bit 12 encoding AND 0x1) OR
       push_bit 12 (drop_bit 2 encoding AND 0x1F)
     in scast (SignExtend 17 imm))"

definition IsCI16Imm :: "intptr \<Rightarrow> bool" where
  "IsCI16Imm imm = (IsInt 10 imm \<and> IsAligned imm 16)"

definition EncodeCI16Imm :: "intptr \<Rightarrow> u32" where
  "EncodeCI16Imm imm =
    (ucast (push_bit 12 (signed_drop_bit 9 imm AND 0x1)) OR
     ucast (push_bit 6 (signed_drop_bit 4 imm AND 0x1)) OR
     ucast (push_bit 5 (signed_drop_bit 6 imm AND 0x1)) OR
     ucast (push_bit 3 (signed_drop_bit 7 imm AND 0x3)) OR
     ucast (push_bit 2 (signed_drop_bit 5 imm AND 0x1)))"

definition DecodeCI16Imm :: "u32 \<Rightarrow> intptr" where
  "DecodeCI16Imm encoding =
    (let imm =
       push_bit 9 (drop_bit 12 encoding AND 0x1) OR
       push_bit 4 (drop_bit 6 encoding AND 0x1) OR
       push_bit 6 (drop_bit 5 encoding AND 0x1) OR
       push_bit 7 (drop_bit 3 encoding AND 0x3) OR
       push_bit 5 (drop_bit 2 encoding AND 0x1)
     in scast (SignExtend 10 imm))"

definition IsCI4SPNImm :: "intptr \<Rightarrow> bool" where
  "IsCI4SPNImm imm = (IsUint 9 imm \<and> IsAligned imm 4)"

definition EncodeCI4SPNImm :: "intptr \<Rightarrow> u32" where
  "EncodeCI4SPNImm imm =
    (ucast (push_bit 11 (signed_drop_bit 4 imm AND 0x3)) OR
     ucast (push_bit 7 (signed_drop_bit 6 imm AND 0xF)) OR
     ucast (push_bit 6 (signed_drop_bit 2 imm AND 0x1)) OR
     ucast (push_bit 5 (signed_drop_bit 3 imm AND 0x1)))"

definition DecodeCI4SPNImm :: "u32 \<Rightarrow> intptr" where
  "DecodeCI4SPNImm encoding =
    (let imm =
       push_bit 4 (drop_bit 11 encoding AND 0x3) OR
       push_bit 6 (drop_bit 7 encoding AND 0xF) OR
       push_bit 2 (drop_bit 6 encoding AND 0x1) OR
       push_bit 3 (drop_bit 5 encoding AND 0x1)
     in ucast imm)"

subsection \<open>Compressed opcodes\<close>

type_synonym COpcode = "32 word"

abbreviation (input) C_OP_MASK :: COpcode where "C_OP_MASK \<equiv> 0b1110000000000011"
abbreviation (input) C_ADDI4SPN :: COpcode where "C_ADDI4SPN \<equiv> 0b0000000000000000"
abbreviation (input) C_FLD :: COpcode where "C_FLD \<equiv> 0b0010000000000000"
abbreviation (input) C_LW :: COpcode where "C_LW \<equiv> 0b0100000000000000"
abbreviation (input) C_FLW :: COpcode where "C_FLW \<equiv> 0b0110000000000000"
abbreviation (input) C_LD :: COpcode where "C_LD \<equiv> 0b0110000000000000"
abbreviation (input) C_FSD :: COpcode where "C_FSD \<equiv> 0b1010000000000000"
abbreviation (input) C_SW :: COpcode where "C_SW \<equiv> 0b1100000000000000"
abbreviation (input) C_FSW :: COpcode where "C_FSW \<equiv> 0b1110000000000000"
abbreviation (input) C_SD :: COpcode where "C_SD \<equiv> 0b1110000000000000"
abbreviation (input) C_ADDI :: COpcode where "C_ADDI \<equiv> 0b0000000000000001"
abbreviation (input) C_JAL :: COpcode where "C_JAL \<equiv> 0b0010000000000001"
abbreviation (input) C_ADDIW :: COpcode where "C_ADDIW \<equiv> 0b0010000000000001"
abbreviation (input) C_LI :: COpcode where "C_LI \<equiv> 0b0100000000000001"
abbreviation (input) C_ADDI16SP :: COpcode where "C_ADDI16SP \<equiv> 0b0110000000000001"
abbreviation (input) C_LUI :: COpcode where "C_LUI \<equiv> 0b0110000000000001"
abbreviation (input) C_MISCALU :: COpcode where "C_MISCALU \<equiv> 0b1000000000000001"
abbreviation (input) C_MISCALU_MASK :: COpcode where "C_MISCALU_MASK \<equiv> 0b1110110000000011"
abbreviation (input) C_SRLI :: COpcode where "C_SRLI \<equiv> 0b1000000000000001"
abbreviation (input) C_SRAI :: COpcode where "C_SRAI \<equiv> 0b1000010000000001"
abbreviation (input) C_ANDI :: COpcode where "C_ANDI \<equiv> 0b1000100000000001"
abbreviation (input) C_RR :: COpcode where "C_RR \<equiv> 0b1000110000000001"
abbreviation (input) C_RR_MASK :: COpcode where "C_RR_MASK \<equiv> 0b1111110001100011"
abbreviation (input) C_SUB :: COpcode where "C_SUB \<equiv> 0b1000110000000001"
abbreviation (input) C_XOR :: COpcode where "C_XOR \<equiv> 0b1000110000100001"
abbreviation (input) C_OR :: COpcode where "C_OR \<equiv> 0b1000110001000001"
abbreviation (input) C_AND :: COpcode where "C_AND \<equiv> 0b1000110001100001"
abbreviation (input) C_SUBW :: COpcode where "C_SUBW \<equiv> 0b1001110000000001"
abbreviation (input) C_ADDW :: COpcode where "C_ADDW \<equiv> 0b1001110000100001"
abbreviation (input) C_J :: COpcode where "C_J \<equiv> 0b1010000000000001"
abbreviation (input) C_BEQZ :: COpcode where "C_BEQZ \<equiv> 0b1100000000000001"
abbreviation (input) C_BNEZ :: COpcode where "C_BNEZ \<equiv> 0b1110000000000001"
abbreviation (input) C_SLLI :: COpcode where "C_SLLI \<equiv> 0b0000000000000010"
abbreviation (input) C_FLDSP :: COpcode where "C_FLDSP \<equiv> 0b0010000000000010"
abbreviation (input) C_LWSP :: COpcode where "C_LWSP \<equiv> 0b0100000000000010"
abbreviation (input) C_FLWSP :: COpcode where "C_FLWSP \<equiv> 0b0110000000000010"
abbreviation (input) C_LDSP :: COpcode where "C_LDSP \<equiv> 0b0110000000000010"
abbreviation (input) C_JR :: COpcode where "C_JR \<equiv> 0b1000000000000010"
abbreviation (input) C_MV :: COpcode where "C_MV \<equiv> 0b1000000000000010"
abbreviation (input) C_JALR :: COpcode where "C_JALR \<equiv> 0b1001000000000010"
abbreviation (input) C_ADD :: COpcode where "C_ADD \<equiv> 0b1001000000000010"
abbreviation (input) C_FSDSP :: COpcode where "C_FSDSP \<equiv> 0b1010000000000010"
abbreviation (input) C_SWSP :: COpcode where "C_SWSP \<equiv> 0b1100000000000010"
abbreviation (input) C_FSWSP :: COpcode where "C_FSWSP \<equiv> 0b1110000000000010"
abbreviation (input) C_SDSP :: COpcode where "C_SDSP \<equiv> 0b1110000000000010"
abbreviation (input) C_NOP :: COpcode where "C_NOP \<equiv> 0b0000000000000001"
abbreviation (input) C_EBREAK :: COpcode where "C_EBREAK \<equiv> 0b1001000000000010"

text \<open>
  The class \<open>CInstr\<close> wraps the 16-bit encoding; its length is 2.  Its accessors
  pass the encoding to the decoders after the implicit conversion to \<open>uint32_t\<close>.
\<close>

type_synonym CInstr = u16

definition CInstr_opcode :: "CInstr \<Rightarrow> COpcode" where
  "CInstr_opcode encoding = ucast encoding AND C_OP_MASK"

subsection \<open>Instruction set extensions\<close>

type_synonym Extension = nat
type_synonym ExtensionSet = u32

abbreviation (input) RV_I :: Extension where "RV_I \<equiv> 0"
abbreviation (input) RV_M :: Extension where "RV_M \<equiv> 1"
abbreviation (input) RV_A :: Extension where "RV_A \<equiv> 2"
abbreviation (input) RV_F :: Extension where "RV_F \<equiv> 3"
abbreviation (input) RV_D :: Extension where "RV_D \<equiv> 4"
abbreviation (input) RV_C :: Extension where "RV_C \<equiv> 5"

definition ExtensionSet_of :: "Extension list \<Rightarrow> ExtensionSet" where
  "ExtensionSet_of es = foldr (\<lambda>e acc. push_bit e 1 OR acc) es 0"

definition Includes :: "ExtensionSet \<Rightarrow> Extension \<Rightarrow> bool" where
  "Includes encoding r = (encoding AND push_bit r 1 \<noteq> 0)"

definition IncludesAll :: "ExtensionSet \<Rightarrow> ExtensionSet \<Rightarrow> bool" where
  "IncludesAll encoding other = (encoding AND other = other)"

definition RV_G :: ExtensionSet where
  "RV_G = ExtensionSet_of [RV_I, RV_M, RV_A, RV_F, RV_D]"

definition RV_GC :: ExtensionSet where
  "RV_GC = RV_G OR ExtensionSet_of [RV_C]"

end
