(* ===== verification/Riscv_Encoding.thy ===== *)
theory Riscv_Encoding
  imports Riscv_Constants
begin

text \<open>
  The decoders of \<open>constants_riscv.h\<close> applied to instructions put together by
  its encoders.  One encoder per instruction format is named (\<open>RType\<close>, \<open>IType\<close>,
  ...): it is the word that the \<open>Emit...Type\<close> function of
  \<open>runtime/vm/compiler/assembler/assembler_riscv.cc\<close> writes.
\<close>

unbundle bit_operations_syntax

subsection \<open>Sign extension and field predicates\<close>

lemma scast_SignExtend:
  assumes "0 < N" and "N \<le> 32"
  shows "(scast (SignExtend N v) :: 64 word) = signed_take_bit (N - 1) (ucast v)"
proof (rule bit_word_eqI)
  fix n assume n: "n < LENGTH(64)"
  obtain M where M: "N = Suc M" "M \<le> 31" using assms by (cases N) auto
  consider "n < M" | "n = M" | "M < n" "n < 31" | "M < n" "31 \<le> n" by linarith
  then show "bit (scast (SignExtend N v) :: 64 word) n = bit (signed_take_bit (N - 1) (ucast v :: 64 word)) n"
    unfolding SignExtend_def M using n M(2) by cases (auto simp: bit_simps min_def)
qed

lemma bit_Register_out [simp]: "5 \<le> n \<Longrightarrow> \<not> bit (r :: 5 word) n"
  using bit_imp_le_length [of r n] by auto

text \<open>A field that passes its \<open>Is...\<close> test has no bits beyond its width.\<close>

lemma Is_field_take_bit:
  shows "IsOpcode f \<Longrightarrow> take_bit 7 f = f" and "IsFunct2 f2 \<Longrightarrow> take_bit 2 f2 = f2"
    and "IsFunct3 f3 \<Longrightarrow> take_bit 3 f3 = f3" and "IsFunct7 f7 \<Longrightarrow> take_bit 7 f7 = f7"
    and "IsShamt s \<Longrightarrow> take_bit 6 s = s"
  by (simp_all add: IsOpcode_def IsFunct2_def IsFunct3_def IsFunct7_def IsShamt_def mask_simps)

lemma take_bit_field_eqI:
  fixes f w :: "'a::len word"
  assumes "take_bit k f = f" and "take_bit k w = take_bit k f"
  shows "take_bit k w = f"
  using assms by simp

lemmas Is_field_bits =
  Is_field_take_bit [THEN take_bit_fix_bits]

lemmas Is_field_eqI =
  Is_field_take_bit(1) [THEN take_bit_field_eqI, OF _ take_bit_eqI_7]
  Is_field_take_bit(3) [THEN take_bit_field_eqI, OF _ take_bit_eqI_3]
  Is_field_take_bit(4) [THEN take_bit_field_eqI, OF _ take_bit_eqI_7]
  Is_field_take_bit(5) [THEN take_bit_field_eqI, OF _ take_bit_eqI_6]

text \<open>A signed immediate is determined by its lowest bits.\<close>

lemma IsInt_eqI:
  fixes v w :: intptr
  shows "IsInt 6 v \<Longrightarrow> take_bit 6 w = take_bit 6 v \<Longrightarrow> signed_take_bit 5 w = v"
    and "IsInt 8 v \<Longrightarrow> take_bit 8 w = take_bit 8 v \<Longrightarrow> signed_take_bit 7 w = v"
    and "IsInt 10 v \<Longrightarrow> take_bit 10 w = take_bit 10 v \<Longrightarrow> signed_take_bit 9 w = v"
    and "IsInt 11 v \<Longrightarrow> take_bit 11 w = take_bit 11 v \<Longrightarrow> signed_take_bit 10 w = v"
    and "IsInt 12 v \<Longrightarrow> take_bit 12 w = take_bit 12 v \<Longrightarrow> signed_take_bit 11 w = v"
    and "IsInt 17 v \<Longrightarrow> take_bit 17 w = take_bit 17 v \<Longrightarrow> signed_take_bit 16 w = v"
    and "IsInt 20 v \<Longrightarrow> take_bit 20 w = take_bit 20 v \<Longrightarrow> signed_take_bit 19 w = v"
    and "IsInt 32 v \<Longrightarrow> take_bit 32 w = take_bit 32 v \<Longrightarrow> signed_take_bit 31 w = v"
  by (auto simp: IsInt_iff_signed_take_bit intro: signed_take_bit_eqI)

text \<open>An unsigned immediate too.\<close>

lemma IsUint_eqI:
  fixes v :: intptr and w :: u32
  assumes "IsUint N v" and "0 < N" and "N \<le> 32" and "take_bit 32 (ucast w) = take_bit 32 v"
  shows "ucast w = v"
proof -
  have "take_bit N v = v" using assms by (simp add: IsUint_iff_take_bit)
  then have "take_bit 32 v = v" using assms(3)
    by (metis min.absorb2 take_bit_take_bit)
  moreover have "take_bit 32 (ucast w :: intptr) = ucast w"
    by (simp flip: unsigned_take_bit_eq add: take_bit_word_eq_self)
  ultimately show ?thesis using assms(4) by simp
qed

lemma IsAligned_bits:
  fixes v :: intptr
  shows "IsAligned v 2 \<Longrightarrow> n < 1 \<Longrightarrow> \<not> bit v n" and "IsAligned v 4 \<Longrightarrow> n < 2 \<Longrightarrow> \<not> bit v n"
    and "IsAligned v 8 \<Longrightarrow> n < 3 \<Longrightarrow> \<not> bit v n" and "IsAligned v 16 \<Longrightarrow> n < 4 \<Longrightarrow> \<not> bit v n"
    and "IsAligned v 4096 \<Longrightarrow> n < 12 \<Longrightarrow> \<not> bit v n"
  by (simp_all only: IsAligned_numeral take_bit_0_bits not_False_eq_True)

lemmas bit_del = push_bit_Suc take_bit_Suc_0

lemmas field_defs =
  EncodeRd_def DecodeRd_def EncodeRs1_def DecodeRs1_def EncodeRs2_def DecodeRs2_def
  EncodeFRd_def DecodeFRd_def EncodeFRs1_def DecodeFRs1_def EncodeFRs2_def DecodeFRs2_def
  EncodeFRs3_def DecodeFRs3_def EncodeOpcode_def DecodeOpcode_def EncodeFunct2_def DecodeFunct2_def
  EncodeFunct3_def DecodeFunct3_def EncodeFunct7_def DecodeFunct7_def EncodeShamt_def DecodeShamt_def

lemmas imm_defs =
  EncodeITypeImm_def DecodeITypeImm_def EncodeSTypeImm_def DecodeSTypeImm_def
  EncodeBTypeImm_def DecodeBTypeImm_def EncodeUTypeImm_def DecodeUTypeImm_def
  EncodeJTypeImm_def DecodeJTypeImm_def

text \<open>Floating-point register fields and the rounding mode lie where the integer ones do.\<close>

lemma FReg_fields:
  shows "EncodeFRd = EncodeRd" and "EncodeFRs1 = EncodeRs1" and "EncodeFRs2 = EncodeRs2"
    and "DecodeFRd = DecodeRd" and "DecodeFRs1 = DecodeRs1" and "DecodeFRs2 = DecodeRs2"
    and "EncodeRoundingMode = EncodeFunct3" and "DecodeRoundingMode = DecodeFunct3"
  by (simp_all add: fun_eq_iff field_defs EncodeRoundingMode_def DecodeRoundingMode_def)

subsection \<open>Instruction formats\<close>

definition RType :: "Funct7 \<Rightarrow> Register \<Rightarrow> Register \<Rightarrow> Funct3 \<Rightarrow> Register \<Rightarrow> Opcode \<Rightarrow> u32" where
  "RType funct7 rs2 rs1 funct3 rd opcode =
    (EncodeFunct7 funct7 OR EncodeRs2 rs2 OR EncodeRs1 rs1 OR EncodeFunct3 funct3 OR
     EncodeRd rd OR EncodeOpcode opcode)"

definition ShiftType :: "Funct7 \<Rightarrow> u32 \<Rightarrow> Register \<Rightarrow> Funct3 \<Rightarrow> Register \<Rightarrow> Opcode \<Rightarrow> u32" where
  "ShiftType funct7 shamt rs1 funct3 rd opcode =
    (EncodeFunct7 funct7 OR EncodeShamt shamt OR EncodeRs1 rs1 OR EncodeFunct3 funct3 OR
     EncodeRd rd OR EncodeOpcode opcode)"

definition R4Type :: "FRegister \<Rightarrow> Funct2 \<Rightarrow> FRegister \<Rightarrow> FRegister \<Rightarrow> RoundingMode \<Rightarrow> FRegister \<Rightarrow> Opcode \<Rightarrow> u32" where
  "R4Type rs3 funct2 rs2 rs1 rounding rd opcode =
    (EncodeFRs3 rs3 OR EncodeFunct2 funct2 OR EncodeFRs2 rs2 OR EncodeFRs1 rs1 OR
     EncodeRoundingMode rounding OR EncodeFRd rd OR EncodeOpcode opcode)"

definition IType :: "intptr \<Rightarrow> Register \<Rightarrow> Funct3 \<Rightarrow> Register \<Rightarrow> Opcode \<Rightarrow> u32" where
  "IType imm rs1 funct3 rd opcode =
    (EncodeITypeImm imm OR EncodeRs1 rs1 OR EncodeFunct3 funct3 OR EncodeRd rd OR
     EncodeOpcode opcode)"

definition SType :: "intptr \<Rightarrow> Register \<Rightarrow> Register \<Rightarrow> Funct3 \<Rightarrow> Opcode \<Rightarrow> u32" where
  "SType imm rs2 rs1 funct3 opcode =
    (EncodeSTypeImm imm OR EncodeRs2 rs2 OR EncodeRs1 rs1 OR EncodeFunct3 funct3 OR
     EncodeOpcode opcode)"

definition BType :: "intptr \<Rightarrow> Register \<Rightarrow> Register \<Rightarrow> Funct3 \<Rightarrow> Opcode \<Rightarrow> u32" where
  "BType imm rs2 rs1 funct3 opcode =
    (EncodeBTypeImm imm OR EncodeRs2 rs2 OR EncodeRs1 rs1 OR EncodeFunct3 funct3 OR
     EncodeOpcode opcode)"

definition UType :: "intptr \<Rightarrow> Register \<Rightarrow> Opcode \<Rightarrow> u32" where
  "UType imm rd opcode =
    (EncodeUTypeImm imm OR EncodeRd rd OR EncodeOpcode opcode)"

definition JType :: "intptr \<Rightarrow> Register \<Rightarrow> Opcode \<Rightarrow> u32" where
  "JType imm rd opcode =
    (EncodeJTypeImm imm OR EncodeRd rd OR EncodeOpcode opcode)"

declare RType_def [enc_defs] ShiftType_def [enc_defs] R4Type_def [enc_defs] IType_def [enc_defs]
  SType_def [enc_defs] BType_def [enc_defs] UType_def [enc_defs] JType_def [enc_defs]

text \<open>Sign extension from each of the widths in use.\<close>

lemma sext_simps:
  fixes v :: u32
  shows "(scast (SignExtend 6 v) :: intptr) = signed_take_bit 5 (ucast v)"
    and "(scast (SignExtend 8 v) :: intptr) = signed_take_bit 7 (ucast v)"
    and "(scast (SignExtend 10 v) :: intptr) = signed_take_bit 9 (ucast v)"
    and "(scast (SignExtend 11 v) :: intptr) = signed_take_bit 10 (ucast v)"
    and "(scast (SignExtend 12 v) :: intptr) = signed_take_bit 11 (ucast v)"
    and "(scast (SignExtend 17 v) :: intptr) = signed_take_bit 16 (ucast v)"
    and "(scast (SignExtend 20 v) :: intptr) = signed_take_bit 19 (ucast v)"
    and "(scast (SignExtend 32 v) :: intptr) = signed_take_bit 31 (ucast v)"
  by (simp_all add: scast_SignExtend)

lemma bit_not_low_mask:
  "bit (NOT (push_bit 12 1 - 1) :: u32) n \<longleftrightarrow> 12 \<le> n \<and> n < 32"
proof -
  have "push_bit 12 1 - 1 = (mask 12 :: u32)" by (simp add: mask_eq_exp_minus_1)
  then show ?thesis by (auto simp only: bit_simps) (auto simp: bit_simps)
qed

lemma take_bit_funct7_shamt:
  assumes "IsFunct7 f" and "IsShamt s"
  shows "take_bit 7 (f OR drop_bit 5 s) = f OR drop_bit 5 s"
proof (rule bit_word_eqI)
  fix n
  show "bit (take_bit 7 (f OR drop_bit 5 s)) n = bit (f OR drop_bit 5 s) n"
    by (cases "n < 7")
      (simp_all add: bit_simps Is_field_bits(4) [OF assms(1)] Is_field_bits(5) [OF assms(2)])
qed

lemma IsUTypeImm_aligned: "IsUTypeImm imm \<Longrightarrow> IsAligned imm 4096"
  by (simp add: IsUTypeImm_def)

subsection \<open>Decoding the 32-bit formats\<close>

lemma dec_RType [dec_simps]:
  assumes "IsFunct7 funct7" and "IsFunct3 funct3" and "IsOpcode opcode"
  shows "DecodeFunct7 (RType funct7 rs2 rs1 funct3 rd opcode) = funct7"
    and "DecodeRs2 (RType funct7 rs2 rs1 funct3 rd opcode) = rs2"
    and "DecodeRs1 (RType funct7 rs2 rs1 funct3 rd opcode) = rs1"
    and "DecodeFunct3 (RType funct7 rs2 rs1 funct3 rd opcode) = funct3"
    and "DecodeRd (RType funct7 rs2 rs1 funct3 rd opcode) = rd"
    and "DecodeOpcode (RType funct7 rs2 rs1 funct3 rd opcode) = opcode"
proof -
  note [simp] = Is_field_bits(4) [OF assms(1)]
    Is_field_bits(3) [OF assms(2)]
    Is_field_bits(1) [OF assms(3)]
  note unf = RType_def field_defs  mask_simps
  show "DecodeFunct7 (RType funct7 rs2 rs1 funct3 rd opcode) = funct7"
    unfolding unf by (rule Is_field_eqI(3) [OF assms(1)]; simp add: bit_eval del: bit_del)
  show "DecodeRs2 (RType funct7 rs2 rs1 funct3 rd opcode) = rs2"
    unfolding unf by (rule word5_eqI; simp add: bit_eval del: bit_del)
  show "DecodeRs1 (RType funct7 rs2 rs1 funct3 rd opcode) = rs1"
    unfolding unf by (rule word5_eqI; simp add: bit_eval del: bit_del)
  show "DecodeFunct3 (RType funct7 rs2 rs1 funct3 rd opcode) = funct3"
    unfolding unf by (rule Is_field_eqI(2) [OF assms(2)]; simp add: bit_eval del: bit_del)
  show "DecodeRd (RType funct7 rs2 rs1 funct3 rd opcode) = rd"
    unfolding unf by (rule word5_eqI; simp add: bit_eval del: bit_del)
  show "DecodeOpcode (RType funct7 rs2 rs1 funct3 rd opcode) = opcode"
    unfolding unf by (rule Is_field_eqI(1) [OF assms(3)]; simp add: bit_eval del: bit_del)
qed

lemma dec_ShiftType [dec_simps]:
  assumes "IsFunct7 funct7" and "IsShamt shamt" and "IsFunct3 funct3" and "IsOpcode opcode" and "\<not> bit funct7 0"
  shows "DecodeFunct7 (ShiftType funct7 shamt rs1 funct3 rd opcode) = funct7 OR drop_bit 5 shamt"
    and "DecodeShamt (ShiftType funct7 shamt rs1 funct3 rd opcode) = shamt"
    and "DecodeRs1 (ShiftType funct7 shamt rs1 funct3 rd opcode) = rs1"
    and "DecodeFunct3 (ShiftType funct7 shamt rs1 funct3 rd opcode) = funct3"
    and "DecodeRd (ShiftType funct7 shamt rs1 funct3 rd opcode) = rd"
    and "DecodeOpcode (ShiftType funct7 shamt rs1 funct3 rd opcode) = opcode"
proof -
  note [simp] = Is_field_bits(4) [OF assms(1)]
    Is_field_bits(5) [OF assms(2)]
    Is_field_bits(3) [OF assms(3)]
    Is_field_bits(1) [OF assms(4)]
    assms(5)
  note unf = ShiftType_def field_defs  mask_simps
  show "DecodeFunct7 (ShiftType funct7 shamt rs1 funct3 rd opcode) = funct7 OR drop_bit 5 shamt"
    unfolding unf by (rule take_bit_field_eqI [OF take_bit_funct7_shamt [OF assms(1,2)]], rule take_bit_eqI_7; simp add: bit_eval del: bit_del)
  show "DecodeShamt (ShiftType funct7 shamt rs1 funct3 rd opcode) = shamt"
    unfolding unf by (rule Is_field_eqI(4) [OF assms(2)]; simp add: bit_eval del: bit_del)
  show "DecodeRs1 (ShiftType funct7 shamt rs1 funct3 rd opcode) = rs1"
    unfolding unf by (rule word5_eqI; simp add: bit_eval del: bit_del)
  show "DecodeFunct3 (ShiftType funct7 shamt rs1 funct3 rd opcode) = funct3"
    unfolding unf by (rule Is_field_eqI(2) [OF assms(3)]; simp add: bit_eval del: bit_del)
  show "DecodeRd (ShiftType funct7 shamt rs1 funct3 rd opcode) = rd"
    unfolding unf by (rule word5_eqI; simp add: bit_eval del: bit_del)
  show "DecodeOpcode (ShiftType funct7 shamt rs1 funct3 rd opcode) = opcode"
    unfolding unf by (rule Is_field_eqI(1) [OF assms(4)]; simp add: bit_eval del: bit_del)
qed

lemma dec_R4Type [dec_simps]:
  assumes "IsFunct2 funct2" and "IsFunct3 rounding" and "IsOpcode opcode"
  shows "DecodeFRs3 (R4Type rs3 funct2 rs2 rs1 rounding rd opcode) = rs3"
    and "DecodeFunct2 (R4Type rs3 funct2 rs2 rs1 rounding rd opcode) = funct2"
    and "DecodeFRs2 (R4Type rs3 funct2 rs2 rs1 rounding rd opcode) = rs2"
    and "DecodeFRs1 (R4Type rs3 funct2 rs2 rs1 rounding rd opcode) = rs1"
    and "DecodeFunct3 (R4Type rs3 funct2 rs2 rs1 rounding rd opcode) = rounding"
    and "DecodeFRd (R4Type rs3 funct2 rs2 rs1 rounding rd opcode) = rd"
    and "DecodeOpcode (R4Type rs3 funct2 rs2 rs1 rounding rd opcode) = opcode"
proof -
  note [simp] = Is_field_bits(2) [OF assms(1)]
    Is_field_bits(3) [OF assms(2)]
    Is_field_bits(1) [OF assms(3)]
  note unf = R4Type_def FReg_fields(7,8) field_defs  mask_simps
  show "DecodeFRs3 (R4Type rs3 funct2 rs2 rs1 rounding rd opcode) = rs3"
    unfolding unf by (rule word5_eqI; simp add: bit_eval del: bit_del)
  show "DecodeFunct2 (R4Type rs3 funct2 rs2 rs1 rounding rd opcode) = funct2"
    unfolding unf by (rule take_bit_field_eqI [OF Is_field_take_bit(2) [OF assms(1)]],
      rule take_bit_eqI, auto simp: numeral_eq_Suc less_Suc_eq bit_simps simp del: bit_del)
  show "DecodeFRs2 (R4Type rs3 funct2 rs2 rs1 rounding rd opcode) = rs2"
    unfolding unf by (rule word5_eqI; simp add: bit_eval del: bit_del)
  show "DecodeFRs1 (R4Type rs3 funct2 rs2 rs1 rounding rd opcode) = rs1"
    unfolding unf by (rule word5_eqI; simp add: bit_eval del: bit_del)
  show "DecodeFunct3 (R4Type rs3 funct2 rs2 rs1 rounding rd opcode) = rounding"
    unfolding unf by (rule Is_field_eqI(2) [OF assms(2)]; simp add: bit_eval del: bit_del)
  show "DecodeFRd (R4Type rs3 funct2 rs2 rs1 rounding rd opcode) = rd"
    unfolding unf by (rule word5_eqI; simp add: bit_eval del: bit_del)
  show "DecodeOpcode (R4Type rs3 funct2 rs2 rs1 rounding rd opcode) = opcode"
    unfolding unf by (rule Is_field_eqI(1) [OF assms(3)]; simp add: bit_eval del: bit_del)
qed

lemma dec_IType [dec_simps]:
  assumes "IsFunct3 funct3" and "IsOpcode opcode"
  shows "IsITypeImm imm \<Longrightarrow> DecodeITypeImm (IType imm rs1 funct3 rd opcode) = imm"
    and "DecodeRs1 (IType imm rs1 funct3 rd opcode) = rs1"
    and "DecodeFunct3 (IType imm rs1 funct3 rd opcode) = funct3"
    and "DecodeRd (IType imm rs1 funct3 rd opcode) = rd"
    and "DecodeOpcode (IType imm rs1 funct3 rd opcode) = opcode"
proof -
  note [simp] = Is_field_bits(3) [OF assms(1)]
    Is_field_bits(1) [OF assms(2)]
  note unf = IType_def field_defs EncodeITypeImm_def mask_simps
  show "DecodeITypeImm (IType imm rs1 funct3 rd opcode) = imm" if "IsITypeImm imm"
  proof -
    have i: "IsInt 12 imm" using that by (simp_all add: IsITypeImm_def)
    show ?thesis
      unfolding unf DecodeITypeImm_def Let_def
      by (simp only: sext_simps mask_simps, rule IsInt_eqI(5) [OF i(1)], rule take_bit_eqI_12;
        simp add: bit_eval del: bit_del)
  qed
  show "DecodeRs1 (IType imm rs1 funct3 rd opcode) = rs1"
    unfolding unf by (rule word5_eqI; simp add: bit_eval del: bit_del)
  show "DecodeFunct3 (IType imm rs1 funct3 rd opcode) = funct3"
    unfolding unf by (rule Is_field_eqI(2) [OF assms(1)]; simp add: bit_eval del: bit_del)
  show "DecodeRd (IType imm rs1 funct3 rd opcode) = rd"
    unfolding unf by (rule word5_eqI; simp add: bit_eval del: bit_del)
  show "DecodeOpcode (IType imm rs1 funct3 rd opcode) = opcode"
    unfolding unf by (rule Is_field_eqI(1) [OF assms(2)]; simp add: bit_eval del: bit_del)
qed

lemma dec_SType [dec_simps]:
  assumes "IsFunct3 funct3" and "IsOpcode opcode"
  shows "IsSTypeImm imm \<Longrightarrow> DecodeSTypeImm (SType imm rs2 rs1 funct3 opcode) = imm"
    and "DecodeRs2 (SType imm rs2 rs1 funct3 opcode) = rs2"
    and "DecodeRs1 (SType imm rs2 rs1 funct3 opcode) = rs1"
    and "DecodeFunct3 (SType imm rs2 rs1 funct3 opcode) = funct3"
    and "DecodeOpcode (SType imm rs2 rs1 funct3 opcode) = opcode"
proof -
  note [simp] = Is_field_bits(3) [OF assms(1)]
    Is_field_bits(1) [OF assms(2)]
  note unf = SType_def field_defs EncodeSTypeImm_def mask_simps
  show "DecodeSTypeImm (SType imm rs2 rs1 funct3 opcode) = imm" if "IsSTypeImm imm"
  proof -
    have i: "IsInt 12 imm" using that by (simp_all add: IsSTypeImm_def)
    show ?thesis
      unfolding unf DecodeSTypeImm_def Let_def
      by (simp only: sext_simps mask_simps, rule IsInt_eqI(5) [OF i(1)], rule take_bit_eqI_12;
        simp add: bit_eval del: bit_del)
  qed
  show "DecodeRs2 (SType imm rs2 rs1 funct3 opcode) = rs2"
    unfolding unf by (rule word5_eqI; simp add: bit_eval del: bit_del)
  show "DecodeRs1 (SType imm rs2 rs1 funct3 opcode) = rs1"
    unfolding unf by (rule word5_eqI; simp add: bit_eval del: bit_del)
  show "DecodeFunct3 (SType imm rs2 rs1 funct3 opcode) = funct3"
    unfolding unf by (rule Is_field_eqI(2) [OF assms(1)]; simp add: bit_eval del: bit_del)
  show "DecodeOpcode (SType imm rs2 rs1 funct3 opcode) = opcode"
    unfolding unf by (rule Is_field_eqI(1) [OF assms(2)]; simp add: bit_eval del: bit_del)
qed

lemma dec_BType [dec_simps]:
  assumes "IsFunct3 funct3" and "IsOpcode opcode"
  shows "IsBTypeImm imm \<Longrightarrow> DecodeBTypeImm (BType imm rs2 rs1 funct3 opcode) = imm"
    and "DecodeRs2 (BType imm rs2 rs1 funct3 opcode) = rs2"
    and "DecodeRs1 (BType imm rs2 rs1 funct3 opcode) = rs1"
    and "DecodeFunct3 (BType imm rs2 rs1 funct3 opcode) = funct3"
    and "DecodeOpcode (BType imm rs2 rs1 funct3 opcode) = opcode"
proof -
  note [simp] = Is_field_bits(3) [OF assms(1)]
    Is_field_bits(1) [OF assms(2)]
  note unf = BType_def field_defs EncodeBTypeImm_def mask_simps
  show "DecodeBTypeImm (BType imm rs2 rs1 funct3 opcode) = imm" if "IsBTypeImm imm"
  proof -
    have i: "IsInt 12 imm" "IsAligned imm 2" using that by (simp_all add: IsBTypeImm_def)
    show ?thesis
      unfolding unf DecodeBTypeImm_def Let_def
      by (simp only: sext_simps mask_simps, rule IsInt_eqI(5) [OF i(1)], rule take_bit_eqI_12;
        simp add: bit_eval IsAligned_bits(1) [OF i(2)] del: bit_del)
  qed
  show "DecodeRs2 (BType imm rs2 rs1 funct3 opcode) = rs2"
    unfolding unf by (rule word5_eqI; simp add: bit_eval del: bit_del)
  show "DecodeRs1 (BType imm rs2 rs1 funct3 opcode) = rs1"
    unfolding unf by (rule word5_eqI; simp add: bit_eval del: bit_del)
  show "DecodeFunct3 (BType imm rs2 rs1 funct3 opcode) = funct3"
    unfolding unf by (rule Is_field_eqI(2) [OF assms(1)]; simp add: bit_eval del: bit_del)
  show "DecodeOpcode (BType imm rs2 rs1 funct3 opcode) = opcode"
    unfolding unf by (rule Is_field_eqI(1) [OF assms(2)]; simp add: bit_eval del: bit_del)
qed

lemma dec_UType [dec_simps]:
  assumes "IsUTypeImm imm" and "IsOpcode opcode"
  shows "DecodeUTypeImm (UType imm rd opcode) = imm"
    and "DecodeRd (UType imm rd opcode) = rd"
    and "DecodeOpcode (UType imm rd opcode) = opcode"
proof -
  note [simp] = Is_field_bits(1) [OF assms(2)]
    IsAligned_bits(5) [OF IsUTypeImm_aligned [OF assms(1)]]
  note unf = UType_def field_defs EncodeUTypeImm_def mask_simps
  have u: "IsInt 32 imm" "IsAligned imm 4096" using assms(1) by (simp_all add: IsUTypeImm_def)
  show "DecodeUTypeImm (UType imm rd opcode) = imm"
    unfolding unf DecodeUTypeImm_def
    by (simp only: sext_simps, rule IsInt_eqI(8) [OF u(1)], rule take_bit_eqI_32;
      simp add: bit_eval IsAligned_bits(5) [OF u(2)] bit_not_low_mask del: bit_del)
  show "DecodeRd (UType imm rd opcode) = rd"
    unfolding unf by (rule word5_eqI; simp add: bit_eval del: bit_del)
  show "DecodeOpcode (UType imm rd opcode) = opcode"
    unfolding unf by (rule Is_field_eqI(1) [OF assms(2)]; simp add: bit_eval del: bit_del)
qed

lemma dec_JType [dec_simps]:
  assumes "IsOpcode opcode"
  shows "IsJTypeImm imm \<Longrightarrow> DecodeJTypeImm (JType imm rd opcode) = imm"
    and "DecodeRd (JType imm rd opcode) = rd"
    and "DecodeOpcode (JType imm rd opcode) = opcode"
proof -
  note [simp] = Is_field_bits(1) [OF assms(1)]
  note unf = JType_def field_defs EncodeJTypeImm_def mask_simps
  show "DecodeJTypeImm (JType imm rd opcode) = imm" if "IsJTypeImm imm"
  proof -
    have i: "IsInt 20 imm" "IsAligned imm 2" using that by (simp_all add: IsJTypeImm_def)
    show ?thesis
      unfolding unf DecodeJTypeImm_def Let_def
      by (simp only: sext_simps mask_simps, rule IsInt_eqI(7) [OF i(1)], rule take_bit_eqI_20;
        simp add: bit_eval IsAligned_bits(1) [OF i(2)] del: bit_del)
  qed
  show "DecodeRd (JType imm rd opcode) = rd"
    unfolding unf by (rule word5_eqI; simp add: bit_eval del: bit_del)
  show "DecodeOpcode (JType imm rd opcode) = opcode"
    unfolding unf by (rule Is_field_eqI(1) [OF assms(1)]; simp add: bit_eval del: bit_del)
qed

end
