(* ===== verification/Riscv_CEncoding.thy ===== *)
theory Riscv_CEncoding
  imports Riscv_Encoding
begin

text \<open>
  Formats of the compressed instructions (extension C) and what the decoders of
  \<open>constants_riscv.h\<close> read back from them.  A format word is 16 bits wide, as
  \<open>Emit16\<close> of the assembler writes it; the simulator widens it before decoding.
  The hypothesis on an opcode \<open>op\<close> says which bits it may set (\<open>C_OP_MASK\<close>,
  \<open>C_MISCALU_MASK\<close>, \<open>C_RR_MASK\<close>, or the mask of the \<open>C_JR\<close> group).
\<close>

unbundle bit_operations_syntax

subsection \<open>Registers x8 to x15\<close>

lemma Register_cases32:
  fixes r :: Register
  obtains n where "n < 32" and "r = word_of_nat n"
proof
  show "unat r < 32" using unsigned_less [of r, where 'a = nat] by simp
  show "r = word_of_nat (unat r)" by simp
qed

lemma prime_Register_bits:
  fixes r :: Register
  shows "r \<ge> 8 \<and> r < 16 \<longleftrightarrow> bit r 3 \<and> \<not> bit r 4"
proof (cases r rule: Register_cases32)
  case (1 n)
  then have "n \<in> {0,1,2,3,4,5,6,7,8,9,10,11,12,13,14,15,16,17,18,19,20,21,22,23,24,25,26,27,28,29,30,31}"
    by (simp add: numeral_eq_Suc less_Suc_eq)
  then show ?thesis unfolding 1(2) by (elim insertE emptyE; simp add: word_le_def)
qed

lemma IsCRp_bits:
  shows "IsCRdp r \<Longrightarrow> bit r 3 \<and> \<not> bit r 4" and "IsCRs1p r \<Longrightarrow> bit r 3 \<and> \<not> bit r 4"
    and "IsCRs2p r \<Longrightarrow> bit r 3 \<and> \<not> bit r 4"
  using prime_Register_bits [of r] by (simp_all add: IsCRdp_def IsCRs1p_def IsCRs2p_def)

lemma CFReg_fields:
  shows "EncodeCFRd = EncodeCRd" and "EncodeCFRs2 = EncodeCRs2" and "EncodeCRs1 = EncodeCRd"
    and "DecodeCFRd = DecodeCRd" and "DecodeCFRs2 = DecodeCRs2" and "DecodeCRs1 = DecodeCRd"
    and "EncodeCFRdp = EncodeCRdp" and "EncodeCFRs2p = EncodeCRs2p"
    and "DecodeCFRdp = DecodeCRdp" and "DecodeCFRs2p = DecodeCRs2p"
    and "IsCFRdp = IsCRdp" and "IsCFRs2p = IsCRs2p"
  by (simp_all add: fun_eq_iff EncodeCFRd_def EncodeCRd_def EncodeCFRs2_def EncodeCRs2_def EncodeCRs1_def
      DecodeCFRd_def DecodeCRd_def DecodeCFRs2_def DecodeCRs2_def DecodeCRs1_def
      EncodeCFRdp_def EncodeCRdp_def EncodeCFRs2p_def EncodeCRs2p_def
      DecodeCFRdp_def DecodeCRdp_def DecodeCFRs2p_def DecodeCRs2p_def
      IsCFRdp_def IsCRdp_def IsCFRs2p_def IsCRs2p_def)

lemma low_bits_plus_8:
  fixes x :: u32
  shows "take_bit 3 x + 8 = take_bit 3 x OR 8"
proof -
  have "(8 :: u32) = push_bit 3 1" by simp
  moreover have "take_bit 3 x AND push_bit 3 1 = 0"
    by (rule bit_word_eqI) (auto simp: bit_simps simp del: push_bit_of_1)
  ultimately show ?thesis by (simp only: disjunctive_add_eq_or)
qed

lemma and_mask_bits:
  fixes op m :: "'a::len word"
  assumes "op AND m = op" and "\<not> bit m n"
  shows "\<not> bit op n"
proof -
  have "bit op n = bit (op AND m) n" by (simp add: assms(1))
  then show ?thesis using assms(2) by (simp add: bit_simps)
qed

lemma and_3_eq_3_iff:
  shows "(x :: u16) AND 3 = 3 \<longleftrightarrow> bit x 0 \<and> bit x 1" and "(y :: u32) AND 3 = 3 \<longleftrightarrow> bit y 0 \<and> bit y 1"
proof -
  have *: "z AND 3 = 3 \<longleftrightarrow> bit z 0 \<and> bit z 1" if "LENGTH('a) > 1" for z :: "'a::len word"
  proof -
    have m: "(3 :: 'a word) = mask 2" by (simp add: mask_eq_exp_minus_1)
    have "z AND mask 2 = mask 2 \<longleftrightarrow> (\<forall>n<2. bit z n)"
    proof -
      have "n < LENGTH('a)" if "n < 2" for n using that \<open>LENGTH('a) > 1\<close> by linarith
      then show ?thesis by (simp add: bit_eq_iff bit_simps) blast
    qed
    then show ?thesis unfolding m by (auto simp: numeral_2_eq_2 less_Suc_eq)
  qed
  show "(x :: u16) AND 3 = 3 \<longleftrightarrow> bit x 0 \<and> bit x 1" and "(y :: u32) AND 3 = 3 \<longleftrightarrow> bit y 0 \<and> bit y 1"
    by (rule *, simp)+
qed

lemma word32_eqI:
  fixes x y :: u32
  assumes "take_bit 32 x = take_bit 32 y"
  shows "x = y"
  using assms by (simp add: take_bit_word_eq_self)

lemmas cfield_defs =
  EncodeCRd_def DecodeCRd_def EncodeCRs2_def DecodeCRs2_def EncodeCRdp_def DecodeCRdp_def
  EncodeCRs1p_def DecodeCRs1p_def EncodeCRs2p_def DecodeCRs2p_def

subsection \<open>Formats\<close>

definition CI :: "COpcode \<Rightarrow> Register \<Rightarrow> intptr \<Rightarrow> u16" where
  "CI op rd imm = ucast (op OR EncodeCRd rd OR EncodeCIImm imm)"

definition CI_L4 :: "COpcode \<Rightarrow> Register \<Rightarrow> intptr \<Rightarrow> u16" where
  "CI_L4 op rd imm = ucast (op OR EncodeCRd rd OR EncodeCSPLoad4Imm imm)"

definition CI_L8 :: "COpcode \<Rightarrow> Register \<Rightarrow> intptr \<Rightarrow> u16" where
  "CI_L8 op rd imm = ucast (op OR EncodeCRd rd OR EncodeCSPLoad8Imm imm)"

definition CI_U :: "COpcode \<Rightarrow> Register \<Rightarrow> intptr \<Rightarrow> u16" where
  "CI_U op rd imm = ucast (op OR EncodeCRd rd OR EncodeCUImm imm)"

definition CI_16 :: "COpcode \<Rightarrow> Register \<Rightarrow> intptr \<Rightarrow> u16" where
  "CI_16 op rd imm = ucast (op OR EncodeCRd rd OR EncodeCI16Imm imm)"

definition CSS4 :: "COpcode \<Rightarrow> Register \<Rightarrow> intptr \<Rightarrow> u16" where
  "CSS4 op rs2 imm = ucast (op OR EncodeCRs2 rs2 OR EncodeCSPStore4Imm imm)"

definition CSS8 :: "COpcode \<Rightarrow> Register \<Rightarrow> intptr \<Rightarrow> u16" where
  "CSS8 op rs2 imm = ucast (op OR EncodeCRs2 rs2 OR EncodeCSPStore8Imm imm)"

definition CIW :: "COpcode \<Rightarrow> Register \<Rightarrow> intptr \<Rightarrow> u16" where
  "CIW op rd imm = ucast (op OR EncodeCRdp rd OR EncodeCI4SPNImm imm)"

definition CL4 :: "COpcode \<Rightarrow> Register \<Rightarrow> Register \<Rightarrow> intptr \<Rightarrow> u16" where
  "CL4 op rd rs1 imm = ucast (op OR EncodeCRdp rd OR EncodeCRs1p rs1 OR EncodeCMem4Imm imm)"

definition CL8 :: "COpcode \<Rightarrow> Register \<Rightarrow> Register \<Rightarrow> intptr \<Rightarrow> u16" where
  "CL8 op rd rs1 imm = ucast (op OR EncodeCRdp rd OR EncodeCRs1p rs1 OR EncodeCMem8Imm imm)"

definition CS4 :: "COpcode \<Rightarrow> Register \<Rightarrow> Register \<Rightarrow> intptr \<Rightarrow> u16" where
  "CS4 op rs1 rs2 imm = ucast (op OR EncodeCRs1p rs1 OR EncodeCRs2p rs2 OR EncodeCMem4Imm imm)"

definition CS8 :: "COpcode \<Rightarrow> Register \<Rightarrow> Register \<Rightarrow> intptr \<Rightarrow> u16" where
  "CS8 op rs1 rs2 imm = ucast (op OR EncodeCRs1p rs1 OR EncodeCRs2p rs2 OR EncodeCMem8Imm imm)"

definition CJ :: "COpcode \<Rightarrow> intptr \<Rightarrow> u16" where
  "CJ op imm = ucast (op OR EncodeCJImm imm)"

definition CB :: "COpcode \<Rightarrow> Register \<Rightarrow> intptr \<Rightarrow> u16" where
  "CB op rs1 imm = ucast (op OR EncodeCRs1p rs1 OR EncodeCBImm imm)"

definition CBI :: "COpcode \<Rightarrow> Register \<Rightarrow> intptr \<Rightarrow> u16" where
  "CBI op rs1 imm = ucast (op OR EncodeCRs1p rs1 OR EncodeCIImm imm)"

definition CA :: "COpcode \<Rightarrow> Register \<Rightarrow> Register \<Rightarrow> u16" where
  "CA op rs1 rs2 = ucast (op OR EncodeCRs1p rs1 OR EncodeCRs2p rs2)"

definition CR :: "COpcode \<Rightarrow> Register \<Rightarrow> Register \<Rightarrow> u16" where
  "CR op rd rs2 = ucast (op OR EncodeCRd rd OR EncodeCRs2 rs2)"

declare CI_def [enc_defs] CI_L4_def [enc_defs] CI_L8_def [enc_defs] CI_U_def [enc_defs]
  CI_16_def [enc_defs] CSS4_def [enc_defs] CSS8_def [enc_defs] CIW_def [enc_defs]
  CL4_def [enc_defs] CL8_def [enc_defs] CS4_def [enc_defs] CS8_def [enc_defs]
  CJ_def [enc_defs] CB_def [enc_defs] CBI_def [enc_defs] CA_def [enc_defs]
  CR_def [enc_defs]

subsection \<open>Decoding the compressed formats\<close>

lemma dec_CI [dec_simps]:
  assumes "op AND 0xE003 = op"
  shows "DecodeCRd (ucast (CI op rd imm)) = rd"
    and "IsCIImm imm \<Longrightarrow> DecodeCIImm (ucast (CI op rd imm)) = imm"
    and "(ucast (CI op rd imm) :: u32) AND 0xE003 = op"
    and "IsCInstruction (CI op rd imm) \<longleftrightarrow> op AND 3 \<noteq> 3"
proof -
  note [simp] = and_mask_bits [OF assms(1)]
  note unf = CI_def cfield_defs mask_simps low_bits_plus_8 EncodeCIImm_def
  show "DecodeCRd (ucast (CI op rd imm)) = rd"
    unfolding unf by (rule word5_eqI; simp add: bit_eval del: bit_del)
  show "DecodeCIImm (ucast (CI op rd imm)) = imm" if "IsCIImm imm"
  proof -
    have i: "IsInt 6 imm" using that by (simp_all add: IsCIImm_def)
    show ?thesis
      unfolding unf DecodeCIImm_def Let_def
      by (simp only: sext_simps, rule IsInt_eqI(1) [OF i(1)], rule take_bit_eqI_6;
        simp add: bit_eval del: bit_del)
  qed
  show "(ucast (CI op rd imm) :: u32) AND 0xE003 = op"
    unfolding unf by (rule word32_eqI, rule take_bit_eqI_32; simp add: bit_eval del: bit_del)
  show "IsCInstruction (CI op rd imm) \<longleftrightarrow> op AND 3 \<noteq> 3"
    unfolding IsCInstruction_def and_3_eq_3_iff unfolding unf by (simp add: bit_eval del: bit_del)
qed

lemma dec_CI_L4 [dec_simps]:
  assumes "op AND 0xE003 = op"
  shows "DecodeCRd (ucast (CI_L4 op rd imm)) = rd"
    and "IsCSPLoad4Imm imm \<Longrightarrow> DecodeCSPLoad4Imm (ucast (CI_L4 op rd imm)) = imm"
    and "(ucast (CI_L4 op rd imm) :: u32) AND 0xE003 = op"
    and "IsCInstruction (CI_L4 op rd imm) \<longleftrightarrow> op AND 3 \<noteq> 3"
proof -
  note [simp] = and_mask_bits [OF assms(1)]
  note unf = CI_L4_def cfield_defs mask_simps low_bits_plus_8 EncodeCSPLoad4Imm_def
  show "DecodeCRd (ucast (CI_L4 op rd imm)) = rd"
    unfolding unf by (rule word5_eqI; simp add: bit_eval del: bit_del)
  show "DecodeCSPLoad4Imm (ucast (CI_L4 op rd imm)) = imm" if "IsCSPLoad4Imm imm"
  proof -
    have i: "IsUint 8 imm" "IsAligned imm 4" using that by (simp_all add: IsCSPLoad4Imm_def)
    have t: "take_bit 8 imm = imm" using i(1) by (simp add: IsUint_iff_take_bit)
    show ?thesis
      unfolding unf DecodeCSPLoad4Imm_def Let_def
      by (rule IsUint_eqI [OF i(1)], simp, simp, rule take_bit_eqI_32;
        simp add: bit_eval IsAligned_bits(2) [OF i(2)] take_bit_fix_bits [OF t] del: bit_del)
  qed
  show "(ucast (CI_L4 op rd imm) :: u32) AND 0xE003 = op"
    unfolding unf by (rule word32_eqI, rule take_bit_eqI_32; simp add: bit_eval del: bit_del)
  show "IsCInstruction (CI_L4 op rd imm) \<longleftrightarrow> op AND 3 \<noteq> 3"
    unfolding IsCInstruction_def and_3_eq_3_iff unfolding unf by (simp add: bit_eval del: bit_del)
qed

lemma dec_CI_L8 [dec_simps]:
  assumes "op AND 0xE003 = op"
  shows "DecodeCRd (ucast (CI_L8 op rd imm)) = rd"
    and "IsCSPLoad8Imm imm \<Longrightarrow> DecodeCSPLoad8Imm (ucast (CI_L8 op rd imm)) = imm"
    and "(ucast (CI_L8 op rd imm) :: u32) AND 0xE003 = op"
    and "IsCInstruction (CI_L8 op rd imm) \<longleftrightarrow> op AND 3 \<noteq> 3"
proof -
  note [simp] = and_mask_bits [OF assms(1)]
  note unf = CI_L8_def cfield_defs mask_simps low_bits_plus_8 EncodeCSPLoad8Imm_def
  show "DecodeCRd (ucast (CI_L8 op rd imm)) = rd"
    unfolding unf by (rule word5_eqI; simp add: bit_eval del: bit_del)
  show "DecodeCSPLoad8Imm (ucast (CI_L8 op rd imm)) = imm" if "IsCSPLoad8Imm imm"
  proof -
    have i: "IsUint 9 imm" "IsAligned imm 8" using that by (simp_all add: IsCSPLoad8Imm_def)
    have t: "take_bit 9 imm = imm" using i(1) by (simp add: IsUint_iff_take_bit)
    show ?thesis
      unfolding unf DecodeCSPLoad8Imm_def Let_def
      by (rule IsUint_eqI [OF i(1)], simp, simp, rule take_bit_eqI_32;
        simp add: bit_eval IsAligned_bits(3) [OF i(2)] take_bit_fix_bits [OF t] del: bit_del)
  qed
  show "(ucast (CI_L8 op rd imm) :: u32) AND 0xE003 = op"
    unfolding unf by (rule word32_eqI, rule take_bit_eqI_32; simp add: bit_eval del: bit_del)
  show "IsCInstruction (CI_L8 op rd imm) \<longleftrightarrow> op AND 3 \<noteq> 3"
    unfolding IsCInstruction_def and_3_eq_3_iff unfolding unf by (simp add: bit_eval del: bit_del)
qed

lemma dec_CI_U [dec_simps]:
  assumes "op AND 0xE003 = op"
  shows "DecodeCRd (ucast (CI_U op rd imm)) = rd"
    and "IsCUImm imm \<Longrightarrow> DecodeCUImm (ucast (CI_U op rd imm)) = imm"
    and "(ucast (CI_U op rd imm) :: u32) AND 0xE003 = op"
    and "IsCInstruction (CI_U op rd imm) \<longleftrightarrow> op AND 3 \<noteq> 3"
proof -
  note [simp] = and_mask_bits [OF assms(1)]
  note unf = CI_U_def cfield_defs mask_simps low_bits_plus_8 EncodeCUImm_def
  show "DecodeCRd (ucast (CI_U op rd imm)) = rd"
    unfolding unf by (rule word5_eqI; simp add: bit_eval del: bit_del)
  show "DecodeCUImm (ucast (CI_U op rd imm)) = imm" if "IsCUImm imm"
  proof -
    have i: "IsInt 17 imm" "IsAligned imm 4096" using that by (simp_all add: IsCUImm_def)
    show ?thesis
      unfolding unf DecodeCUImm_def Let_def
      by (simp only: sext_simps, rule IsInt_eqI(6) [OF i(1)], rule take_bit_eqI_17;
        simp add: bit_eval IsAligned_bits(5) [OF i(2)] del: bit_del)
  qed
  show "(ucast (CI_U op rd imm) :: u32) AND 0xE003 = op"
    unfolding unf by (rule word32_eqI, rule take_bit_eqI_32; simp add: bit_eval del: bit_del)
  show "IsCInstruction (CI_U op rd imm) \<longleftrightarrow> op AND 3 \<noteq> 3"
    unfolding IsCInstruction_def and_3_eq_3_iff unfolding unf by (simp add: bit_eval del: bit_del)
qed

lemma dec_CI_16 [dec_simps]:
  assumes "op AND 0xE003 = op"
  shows "DecodeCRd (ucast (CI_16 op rd imm)) = rd"
    and "IsCI16Imm imm \<Longrightarrow> DecodeCI16Imm (ucast (CI_16 op rd imm)) = imm"
    and "(ucast (CI_16 op rd imm) :: u32) AND 0xE003 = op"
    and "IsCInstruction (CI_16 op rd imm) \<longleftrightarrow> op AND 3 \<noteq> 3"
proof -
  note [simp] = and_mask_bits [OF assms(1)]
  note unf = CI_16_def cfield_defs mask_simps low_bits_plus_8 EncodeCI16Imm_def
  show "DecodeCRd (ucast (CI_16 op rd imm)) = rd"
    unfolding unf by (rule word5_eqI; simp add: bit_eval del: bit_del)
  show "DecodeCI16Imm (ucast (CI_16 op rd imm)) = imm" if "IsCI16Imm imm"
  proof -
    have i: "IsInt 10 imm" "IsAligned imm 16" using that by (simp_all add: IsCI16Imm_def)
    show ?thesis
      unfolding unf DecodeCI16Imm_def Let_def
      by (simp only: sext_simps, rule IsInt_eqI(3) [OF i(1)], rule take_bit_eqI_10;
        simp add: bit_eval IsAligned_bits(4) [OF i(2)] del: bit_del)
  qed
  show "(ucast (CI_16 op rd imm) :: u32) AND 0xE003 = op"
    unfolding unf by (rule word32_eqI, rule take_bit_eqI_32; simp add: bit_eval del: bit_del)
  show "IsCInstruction (CI_16 op rd imm) \<longleftrightarrow> op AND 3 \<noteq> 3"
    unfolding IsCInstruction_def and_3_eq_3_iff unfolding unf by (simp add: bit_eval del: bit_del)
qed

lemma dec_CSS4 [dec_simps]:
  assumes "op AND 0xE003 = op"
  shows "DecodeCRs2 (ucast (CSS4 op rs2 imm)) = rs2"
    and "IsCSPStore4Imm imm \<Longrightarrow> DecodeCSPStore4Imm (ucast (CSS4 op rs2 imm)) = imm"
    and "(ucast (CSS4 op rs2 imm) :: u32) AND 0xE003 = op"
    and "IsCInstruction (CSS4 op rs2 imm) \<longleftrightarrow> op AND 3 \<noteq> 3"
proof -
  note [simp] = and_mask_bits [OF assms(1)]
  note unf = CSS4_def cfield_defs mask_simps low_bits_plus_8 EncodeCSPStore4Imm_def
  show "DecodeCRs2 (ucast (CSS4 op rs2 imm)) = rs2"
    unfolding unf by (rule word5_eqI; simp add: bit_eval del: bit_del)
  show "DecodeCSPStore4Imm (ucast (CSS4 op rs2 imm)) = imm" if "IsCSPStore4Imm imm"
  proof -
    have i: "IsUint 8 imm" "IsAligned imm 4" using that by (simp_all add: IsCSPStore4Imm_def)
    have t: "take_bit 8 imm = imm" using i(1) by (simp add: IsUint_iff_take_bit)
    show ?thesis
      unfolding unf DecodeCSPStore4Imm_def Let_def
      by (rule IsUint_eqI [OF i(1)], simp, simp, rule take_bit_eqI_32;
        simp add: bit_eval IsAligned_bits(2) [OF i(2)] take_bit_fix_bits [OF t] del: bit_del)
  qed
  show "(ucast (CSS4 op rs2 imm) :: u32) AND 0xE003 = op"
    unfolding unf by (rule word32_eqI, rule take_bit_eqI_32; simp add: bit_eval del: bit_del)
  show "IsCInstruction (CSS4 op rs2 imm) \<longleftrightarrow> op AND 3 \<noteq> 3"
    unfolding IsCInstruction_def and_3_eq_3_iff unfolding unf by (simp add: bit_eval del: bit_del)
qed

lemma dec_CSS8 [dec_simps]:
  assumes "op AND 0xE003 = op"
  shows "DecodeCRs2 (ucast (CSS8 op rs2 imm)) = rs2"
    and "IsCSPStore8Imm imm \<Longrightarrow> DecodeCSPStore8Imm (ucast (CSS8 op rs2 imm)) = imm"
    and "(ucast (CSS8 op rs2 imm) :: u32) AND 0xE003 = op"
    and "IsCInstruction (CSS8 op rs2 imm) \<longleftrightarrow> op AND 3 \<noteq> 3"
proof -
  note [simp] = and_mask_bits [OF assms(1)]
  note unf = CSS8_def cfield_defs mask_simps low_bits_plus_8 EncodeCSPStore8Imm_def
  show "DecodeCRs2 (ucast (CSS8 op rs2 imm)) = rs2"
    unfolding unf by (rule word5_eqI; simp add: bit_eval del: bit_del)
  show "DecodeCSPStore8Imm (ucast (CSS8 op rs2 imm)) = imm" if "IsCSPStore8Imm imm"
  proof -
    have i: "IsUint 9 imm" "IsAligned imm 8" using that by (simp_all add: IsCSPStore8Imm_def)
    have t: "take_bit 9 imm = imm" using i(1) by (simp add: IsUint_iff_take_bit)
    show ?thesis
      unfolding unf DecodeCSPStore8Imm_def Let_def
      by (rule IsUint_eqI [OF i(1)], simp, simp, rule take_bit_eqI_32;
        simp add: bit_eval IsAligned_bits(3) [OF i(2)] take_bit_fix_bits [OF t] del: bit_del)
  qed
  show "(ucast (CSS8 op rs2 imm) :: u32) AND 0xE003 = op"
    unfolding unf by (rule word32_eqI, rule take_bit_eqI_32; simp add: bit_eval del: bit_del)
  show "IsCInstruction (CSS8 op rs2 imm) \<longleftrightarrow> op AND 3 \<noteq> 3"
    unfolding IsCInstruction_def and_3_eq_3_iff unfolding unf by (simp add: bit_eval del: bit_del)
qed

lemma dec_CIW [dec_simps]:
  assumes "op AND 0xE003 = op" and "IsCRdp rd"
  shows "DecodeCRdp (ucast (CIW op rd imm)) = rd"
    and "IsCI4SPNImm imm \<Longrightarrow> DecodeCI4SPNImm (ucast (CIW op rd imm)) = imm"
    and "(ucast (CIW op rd imm) :: u32) AND 0xE003 = op"
    and "IsCInstruction (CIW op rd imm) \<longleftrightarrow> op AND 3 \<noteq> 3"
proof -
  note [simp] = and_mask_bits [OF assms(1)] IsCRp_bits(1) [OF assms(2)]
  note unf = CIW_def cfield_defs mask_simps low_bits_plus_8 EncodeCI4SPNImm_def
  show "DecodeCRdp (ucast (CIW op rd imm)) = rd"
    unfolding unf by (rule word5_eqI; simp add: bit_eval del: bit_del)
  show "DecodeCI4SPNImm (ucast (CIW op rd imm)) = imm" if "IsCI4SPNImm imm"
  proof -
    have i: "IsUint 9 imm" "IsAligned imm 4" using that by (simp_all add: IsCI4SPNImm_def)
    have t: "take_bit 9 imm = imm" using i(1) by (simp add: IsUint_iff_take_bit)
    show ?thesis
      unfolding unf DecodeCI4SPNImm_def Let_def
      by (rule IsUint_eqI [OF i(1)], simp, simp, rule take_bit_eqI_32;
        simp add: bit_eval IsAligned_bits(2) [OF i(2)] take_bit_fix_bits [OF t] del: bit_del)
  qed
  show "(ucast (CIW op rd imm) :: u32) AND 0xE003 = op"
    unfolding unf by (rule word32_eqI, rule take_bit_eqI_32; simp add: bit_eval del: bit_del)
  show "IsCInstruction (CIW op rd imm) \<longleftrightarrow> op AND 3 \<noteq> 3"
    unfolding IsCInstruction_def and_3_eq_3_iff unfolding unf by (simp add: bit_eval del: bit_del)
qed

lemma dec_CL4 [dec_simps]:
  assumes "op AND 0xE003 = op" and "IsCRdp rd" and "IsCRs1p rs1"
  shows "DecodeCRdp (ucast (CL4 op rd rs1 imm)) = rd"
    and "DecodeCRs1p (ucast (CL4 op rd rs1 imm)) = rs1"
    and "IsCMem4Imm imm \<Longrightarrow> DecodeCMem4Imm (ucast (CL4 op rd rs1 imm)) = imm"
    and "(ucast (CL4 op rd rs1 imm) :: u32) AND 0xE003 = op"
    and "IsCInstruction (CL4 op rd rs1 imm) \<longleftrightarrow> op AND 3 \<noteq> 3"
proof -
  note [simp] = and_mask_bits [OF assms(1)] IsCRp_bits(1) [OF assms(2)] IsCRp_bits(2) [OF assms(3)]
  note unf = CL4_def cfield_defs mask_simps low_bits_plus_8 EncodeCMem4Imm_def
  show "DecodeCRdp (ucast (CL4 op rd rs1 imm)) = rd"
    unfolding unf by (rule word5_eqI; simp add: bit_eval del: bit_del)
  show "DecodeCRs1p (ucast (CL4 op rd rs1 imm)) = rs1"
    unfolding unf by (rule word5_eqI; simp add: bit_eval del: bit_del)
  show "DecodeCMem4Imm (ucast (CL4 op rd rs1 imm)) = imm" if "IsCMem4Imm imm"
  proof -
    have i: "IsUint 7 imm" "IsAligned imm 4" using that by (simp_all add: IsCMem4Imm_def)
    have t: "take_bit 7 imm = imm" using i(1) by (simp add: IsUint_iff_take_bit)
    show ?thesis
      unfolding unf DecodeCMem4Imm_def Let_def
      by (rule IsUint_eqI [OF i(1)], simp, simp, rule take_bit_eqI_32;
        simp add: bit_eval IsAligned_bits(2) [OF i(2)] take_bit_fix_bits [OF t] del: bit_del)
  qed
  show "(ucast (CL4 op rd rs1 imm) :: u32) AND 0xE003 = op"
    unfolding unf by (rule word32_eqI, rule take_bit_eqI_32; simp add: bit_eval del: bit_del)
  show "IsCInstruction (CL4 op rd rs1 imm) \<longleftrightarrow> op AND 3 \<noteq> 3"
    unfolding IsCInstruction_def and_3_eq_3_iff unfolding unf by (simp add: bit_eval del: bit_del)
qed

lemma dec_CL8 [dec_simps]:
  assumes "op AND 0xE003 = op" and "IsCRdp rd" and "IsCRs1p rs1"
  shows "DecodeCRdp (ucast (CL8 op rd rs1 imm)) = rd"
    and "DecodeCRs1p (ucast (CL8 op rd rs1 imm)) = rs1"
    and "IsCMem8Imm imm \<Longrightarrow> DecodeCMem8Imm (ucast (CL8 op rd rs1 imm)) = imm"
    and "(ucast (CL8 op rd rs1 imm) :: u32) AND 0xE003 = op"
    and "IsCInstruction (CL8 op rd rs1 imm) \<longleftrightarrow> op AND 3 \<noteq> 3"
proof -
  note [simp] = and_mask_bits [OF assms(1)] IsCRp_bits(1) [OF assms(2)] IsCRp_bits(2) [OF assms(3)]
  note unf = CL8_def cfield_defs mask_simps low_bits_plus_8 EncodeCMem8Imm_def
  show "DecodeCRdp (ucast (CL8 op rd rs1 imm)) = rd"
    unfolding unf by (rule word5_eqI; simp add: bit_eval del: bit_del)
  show "DecodeCRs1p (ucast (CL8 op rd rs1 imm)) = rs1"
    unfolding unf by (rule word5_eqI; simp add: bit_eval del: bit_del)
  show "DecodeCMem8Imm (ucast (CL8 op rd rs1 imm)) = imm" if "IsCMem8Imm imm"
  proof -
    have i: "IsUint 8 imm" "IsAligned imm 8" using that by (simp_all add: IsCMem8Imm_def)
    have t: "take_bit 8 imm = imm" using i(1) by (simp add: IsUint_iff_take_bit)
    show ?thesis
      unfolding unf DecodeCMem8Imm_def Let_def
      by (rule IsUint_eqI [OF i(1)], simp, simp, rule take_bit_eqI_32;
        simp add: bit_eval IsAligned_bits(3) [OF i(2)] take_bit_fix_bits [OF t] del: bit_del)
  qed
  show "(ucast (CL8 op rd rs1 imm) :: u32) AND 0xE003 = op"
    unfolding unf by (rule word32_eqI, rule take_bit_eqI_32; simp add: bit_eval del: bit_del)
  show "IsCInstruction (CL8 op rd rs1 imm) \<longleftrightarrow> op AND 3 \<noteq> 3"
    unfolding IsCInstruction_def and_3_eq_3_iff unfolding unf by (simp add: bit_eval del: bit_del)
qed

lemma dec_CS4 [dec_simps]:
  assumes "op AND 0xE003 = op" and "IsCRs1p rs1" and "IsCRs2p rs2"
  shows "DecodeCRs1p (ucast (CS4 op rs1 rs2 imm)) = rs1"
    and "DecodeCRs2p (ucast (CS4 op rs1 rs2 imm)) = rs2"
    and "IsCMem4Imm imm \<Longrightarrow> DecodeCMem4Imm (ucast (CS4 op rs1 rs2 imm)) = imm"
    and "(ucast (CS4 op rs1 rs2 imm) :: u32) AND 0xE003 = op"
    and "IsCInstruction (CS4 op rs1 rs2 imm) \<longleftrightarrow> op AND 3 \<noteq> 3"
proof -
  note [simp] = and_mask_bits [OF assms(1)] IsCRp_bits(2) [OF assms(2)] IsCRp_bits(3) [OF assms(3)]
  note unf = CS4_def cfield_defs mask_simps low_bits_plus_8 EncodeCMem4Imm_def
  show "DecodeCRs1p (ucast (CS4 op rs1 rs2 imm)) = rs1"
    unfolding unf by (rule word5_eqI; simp add: bit_eval del: bit_del)
  show "DecodeCRs2p (ucast (CS4 op rs1 rs2 imm)) = rs2"
    unfolding unf by (rule word5_eqI; simp add: bit_eval del: bit_del)
  show "DecodeCMem4Imm (ucast (CS4 op rs1 rs2 imm)) = imm" if "IsCMem4Imm imm"
  proof -
    have i: "IsUint 7 imm" "IsAligned imm 4" using that by (simp_all add: IsCMem4Imm_def)
    have t: "take_bit 7 imm = imm" using i(1) by (simp add: IsUint_iff_take_bit)
    show ?thesis
      unfolding unf DecodeCMem4Imm_def Let_def
      by (rule IsUint_eqI [OF i(1)], simp, simp, rule take_bit_eqI_32;
        simp add: bit_eval IsAligned_bits(2) [OF i(2)] take_bit_fix_bits [OF t] del: bit_del)
  qed
  show "(ucast (CS4 op rs1 rs2 imm) :: u32) AND 0xE003 = op"
    unfolding unf by (rule word32_eqI, rule take_bit_eqI_32; simp add: bit_eval del: bit_del)
  show "IsCInstruction (CS4 op rs1 rs2 imm) \<longleftrightarrow> op AND 3 \<noteq> 3"
    unfolding IsCInstruction_def and_3_eq_3_iff unfolding unf by (simp add: bit_eval del: bit_del)
qed

lemma dec_CS8 [dec_simps]:
  assumes "op AND 0xE003 = op" and "IsCRs1p rs1" and "IsCRs2p rs2"
  shows "DecodeCRs1p (ucast (CS8 op rs1 rs2 imm)) = rs1"
    and "DecodeCRs2p (ucast (CS8 op rs1 rs2 imm)) = rs2"
    and "IsCMem8Imm imm \<Longrightarrow> DecodeCMem8Imm (ucast (CS8 op rs1 rs2 imm)) = imm"
    and "(ucast (CS8 op rs1 rs2 imm) :: u32) AND 0xE003 = op"
    and "IsCInstruction (CS8 op rs1 rs2 imm) \<longleftrightarrow> op AND 3 \<noteq> 3"
proof -
  note [simp] = and_mask_bits [OF assms(1)] IsCRp_bits(2) [OF assms(2)] IsCRp_bits(3) [OF assms(3)]
  note unf = CS8_def cfield_defs mask_simps low_bits_plus_8 EncodeCMem8Imm_def
  show "DecodeCRs1p (ucast (CS8 op rs1 rs2 imm)) = rs1"
    unfolding unf by (rule word5_eqI; simp add: bit_eval del: bit_del)
  show "DecodeCRs2p (ucast (CS8 op rs1 rs2 imm)) = rs2"
    unfolding unf by (rule word5_eqI; simp add: bit_eval del: bit_del)
  show "DecodeCMem8Imm (ucast (CS8 op rs1 rs2 imm)) = imm" if "IsCMem8Imm imm"
  proof -
    have i: "IsUint 8 imm" "IsAligned imm 8" using that by (simp_all add: IsCMem8Imm_def)
    have t: "take_bit 8 imm = imm" using i(1) by (simp add: IsUint_iff_take_bit)
    show ?thesis
      unfolding unf DecodeCMem8Imm_def Let_def
      by (rule IsUint_eqI [OF i(1)], simp, simp, rule take_bit_eqI_32;
        simp add: bit_eval IsAligned_bits(3) [OF i(2)] take_bit_fix_bits [OF t] del: bit_del)
  qed
  show "(ucast (CS8 op rs1 rs2 imm) :: u32) AND 0xE003 = op"
    unfolding unf by (rule word32_eqI, rule take_bit_eqI_32; simp add: bit_eval del: bit_del)
  show "IsCInstruction (CS8 op rs1 rs2 imm) \<longleftrightarrow> op AND 3 \<noteq> 3"
    unfolding IsCInstruction_def and_3_eq_3_iff unfolding unf by (simp add: bit_eval del: bit_del)
qed

lemma dec_CJ [dec_simps]:
  assumes "op AND 0xE003 = op"
  shows "IsCJImm imm \<Longrightarrow> DecodeCJImm (ucast (CJ op imm)) = imm"
    and "(ucast (CJ op imm) :: u32) AND 0xE003 = op"
    and "IsCInstruction (CJ op imm) \<longleftrightarrow> op AND 3 \<noteq> 3"
proof -
  note [simp] = and_mask_bits [OF assms(1)]
  note unf = CJ_def cfield_defs mask_simps low_bits_plus_8 EncodeCJImm_def
  show "DecodeCJImm (ucast (CJ op imm)) = imm" if "IsCJImm imm"
  proof -
    have i: "IsInt 11 imm" "IsAligned imm 2" using that by (simp_all add: IsCJImm_def)
    show ?thesis
      unfolding unf DecodeCJImm_def Let_def
      by (simp only: sext_simps, rule IsInt_eqI(4) [OF i(1)], rule take_bit_eqI_11;
        simp add: bit_eval IsAligned_bits(1) [OF i(2)] del: bit_del)
  qed
  show "(ucast (CJ op imm) :: u32) AND 0xE003 = op"
    unfolding unf by (rule word32_eqI, rule take_bit_eqI_32; simp add: bit_eval del: bit_del)
  show "IsCInstruction (CJ op imm) \<longleftrightarrow> op AND 3 \<noteq> 3"
    unfolding IsCInstruction_def and_3_eq_3_iff unfolding unf by (simp add: bit_eval del: bit_del)
qed

lemma dec_CB [dec_simps]:
  assumes "op AND 0xE003 = op" and "IsCRs1p rs1"
  shows "DecodeCRs1p (ucast (CB op rs1 imm)) = rs1"
    and "IsCBImm imm \<Longrightarrow> DecodeCBImm (ucast (CB op rs1 imm)) = imm"
    and "(ucast (CB op rs1 imm) :: u32) AND 0xE003 = op"
    and "IsCInstruction (CB op rs1 imm) \<longleftrightarrow> op AND 3 \<noteq> 3"
proof -
  note [simp] = and_mask_bits [OF assms(1)] IsCRp_bits(2) [OF assms(2)]
  note unf = CB_def cfield_defs mask_simps low_bits_plus_8 EncodeCBImm_def
  show "DecodeCRs1p (ucast (CB op rs1 imm)) = rs1"
    unfolding unf by (rule word5_eqI; simp add: bit_eval del: bit_del)
  show "DecodeCBImm (ucast (CB op rs1 imm)) = imm" if "IsCBImm imm"
  proof -
    have i: "IsInt 8 imm" "IsAligned imm 2" using that by (simp_all add: IsCBImm_def)
    show ?thesis
      unfolding unf DecodeCBImm_def Let_def
      by (simp only: sext_simps, rule IsInt_eqI(2) [OF i(1)], rule take_bit_eqI_8;
        simp add: bit_eval IsAligned_bits(1) [OF i(2)] del: bit_del)
  qed
  show "(ucast (CB op rs1 imm) :: u32) AND 0xE003 = op"
    unfolding unf by (rule word32_eqI, rule take_bit_eqI_32; simp add: bit_eval del: bit_del)
  show "IsCInstruction (CB op rs1 imm) \<longleftrightarrow> op AND 3 \<noteq> 3"
    unfolding IsCInstruction_def and_3_eq_3_iff unfolding unf by (simp add: bit_eval del: bit_del)
qed

lemma dec_CBI [dec_simps]:
  assumes "op AND 0xEC03 = op" and "IsCRs1p rs1"
  shows "DecodeCRs1p (ucast (CBI op rs1 imm)) = rs1"
    and "IsCIImm imm \<Longrightarrow> DecodeCIImm (ucast (CBI op rs1 imm)) = imm"
    and "(ucast (CBI op rs1 imm) :: u32) AND 0xE003 = op AND 0xE003"
    and "(ucast (CBI op rs1 imm) :: u32) AND 0xEC03 = op"
    and "IsCInstruction (CBI op rs1 imm) \<longleftrightarrow> op AND 3 \<noteq> 3"
proof -
  note [simp] = and_mask_bits [OF assms(1)] IsCRp_bits(2) [OF assms(2)]
  note unf = CBI_def cfield_defs mask_simps low_bits_plus_8 EncodeCIImm_def
  show "DecodeCRs1p (ucast (CBI op rs1 imm)) = rs1"
    unfolding unf by (rule word5_eqI; simp add: bit_eval del: bit_del)
  show "DecodeCIImm (ucast (CBI op rs1 imm)) = imm" if "IsCIImm imm"
  proof -
    have i: "IsInt 6 imm" using that by (simp_all add: IsCIImm_def)
    show ?thesis
      unfolding unf DecodeCIImm_def Let_def
      by (simp only: sext_simps, rule IsInt_eqI(1) [OF i(1)], rule take_bit_eqI_6;
        simp add: bit_eval del: bit_del)
  qed
  show "(ucast (CBI op rs1 imm) :: u32) AND 0xE003 = op AND 0xE003"
    unfolding unf by (rule word32_eqI, rule take_bit_eqI_32; simp add: bit_eval del: bit_del)
  show "(ucast (CBI op rs1 imm) :: u32) AND 0xEC03 = op"
    unfolding unf by (rule word32_eqI, rule take_bit_eqI_32; simp add: bit_eval del: bit_del)
  show "IsCInstruction (CBI op rs1 imm) \<longleftrightarrow> op AND 3 \<noteq> 3"
    unfolding IsCInstruction_def and_3_eq_3_iff unfolding unf by (simp add: bit_eval del: bit_del)
qed

lemma dec_CA [dec_simps]:
  assumes "op AND 0xFC63 = op" and "IsCRs1p rs1" and "IsCRs2p rs2"
  shows "DecodeCRs1p (ucast (CA op rs1 rs2)) = rs1"
    and "DecodeCRs2p (ucast (CA op rs1 rs2)) = rs2"
    and "(ucast (CA op rs1 rs2) :: u32) AND 0xE003 = op AND 0xE003"
    and "(ucast (CA op rs1 rs2) :: u32) AND 0xEC03 = op AND 0xEC03"
    and "(ucast (CA op rs1 rs2) :: u32) AND 0xFC63 = op"
    and "IsCInstruction (CA op rs1 rs2) \<longleftrightarrow> op AND 3 \<noteq> 3"
proof -
  note [simp] = and_mask_bits [OF assms(1)] IsCRp_bits(2) [OF assms(2)] IsCRp_bits(3) [OF assms(3)]
  note unf = CA_def cfield_defs mask_simps low_bits_plus_8 
  show "DecodeCRs1p (ucast (CA op rs1 rs2)) = rs1"
    unfolding unf by (rule word5_eqI; simp add: bit_eval del: bit_del)
  show "DecodeCRs2p (ucast (CA op rs1 rs2)) = rs2"
    unfolding unf by (rule word5_eqI; simp add: bit_eval del: bit_del)
  show "(ucast (CA op rs1 rs2) :: u32) AND 0xE003 = op AND 0xE003"
    unfolding unf by (rule word32_eqI, rule take_bit_eqI_32; simp add: bit_eval del: bit_del)
  show "(ucast (CA op rs1 rs2) :: u32) AND 0xEC03 = op AND 0xEC03"
    unfolding unf by (rule word32_eqI, rule take_bit_eqI_32; simp add: bit_eval del: bit_del)
  show "(ucast (CA op rs1 rs2) :: u32) AND 0xFC63 = op"
    unfolding unf by (rule word32_eqI, rule take_bit_eqI_32; simp add: bit_eval del: bit_del)
  show "IsCInstruction (CA op rs1 rs2) \<longleftrightarrow> op AND 3 \<noteq> 3"
    unfolding IsCInstruction_def and_3_eq_3_iff unfolding unf by (simp add: bit_eval del: bit_del)
qed

lemma dec_CR [dec_simps]:
  assumes "op AND 0xF003 = op"
  shows "DecodeCRd (ucast (CR op rd rs2)) = rd"
    and "DecodeCRs2 (ucast (CR op rd rs2)) = rs2"
    and "(ucast (CR op rd rs2) :: u32) AND 0xE003 = op AND 0xE003"
    and "(ucast (CR op rd rs2) :: u32) AND 0x1000 = op AND 0x1000"
    and "IsCInstruction (CR op rd rs2) \<longleftrightarrow> op AND 3 \<noteq> 3"
proof -
  note [simp] = and_mask_bits [OF assms(1)]
  note unf = CR_def cfield_defs mask_simps low_bits_plus_8 
  show "DecodeCRd (ucast (CR op rd rs2)) = rd"
    unfolding unf by (rule word5_eqI; simp add: bit_eval del: bit_del)
  show "DecodeCRs2 (ucast (CR op rd rs2)) = rs2"
    unfolding unf by (rule word5_eqI; simp add: bit_eval del: bit_del)
  show "(ucast (CR op rd rs2) :: u32) AND 0xE003 = op AND 0xE003"
    unfolding unf by (rule word32_eqI, rule take_bit_eqI_32; simp add: bit_eval del: bit_del)
  show "(ucast (CR op rd rs2) :: u32) AND 0x1000 = op AND 0x1000"
    unfolding unf by (rule word32_eqI, rule take_bit_eqI_32; simp add: bit_eval del: bit_del)
  show "IsCInstruction (CR op rd rs2) \<longleftrightarrow> op AND 3 \<noteq> 3"
    unfolding IsCInstruction_def and_3_eq_3_iff unfolding unf by (simp add: bit_eval del: bit_del)
qed

subsection \<open>Instructions as bytes\<close>

definition bytes16 :: "u16 \<Rightarrow> u8 list" where
  "bytes16 e = [ucast e, ucast (drop_bit 8 e)]"

definition bytes32 :: "u32 \<Rightarrow> u8 list" where
  "bytes32 e = [ucast e, ucast (drop_bit 8 e), ucast (drop_bit 16 e), ucast (drop_bit 24 e)]"

lemma length_bytes [simp]: "length (bytes16 e) = 2" "length (bytes32 w) = 4"
  by (simp_all add: bytes16_def bytes32_def)

end
