(* ===== verification/Riscv_Sim_State.thy ===== *)
theory Riscv_Sim_State
  imports Riscv_CEncoding
begin

text \<open>
  State of the RISC-V simulator (\<open>runtime/vm/simulator_riscv.h\<close>): register
  files, program counter, atomic reservation, stack bounds, the random number
  generator of \<open>runtime/vm/random.cc\<close>, and the byte-addressed host memory that
  simulated code reads and writes.  A fatal error of the C++ code
  (\<open>FATAL\<close>, \<open>UNIMPLEMENTED\<close>, \<open>UNREACHABLE\<close>) is a value of \<open>sim_error\<close>.  The
  memory checks of a \<open>DEBUG\<close> build are part of the model.  Field names drop the
  trailing underscore of the source.
\<close>

unbundle bit_operations_syntax

subsection \<open>Byte-addressed memory\<close>

type_synonym mem = "u64 \<Rightarrow> u8"

text \<open>Little-endian loads and stores of \<open>n\<close> bytes (\<open>*reinterpret_cast<type*>(addr)\<close>).\<close>

fun load :: "nat \<Rightarrow> mem \<Rightarrow> u64 \<Rightarrow> u64" where
  "load 0 m a = 0"
| "load (Suc n) m a = ucast (m a) OR push_bit 8 (load n m (a + 1))"

fun store :: "nat \<Rightarrow> u64 \<Rightarrow> u64 \<Rightarrow> mem \<Rightarrow> mem" where
  "store 0 a v m = m"
| "store (Suc n) a v m = (store n (a + 1) (drop_bit 8 v) m)(a := ucast v)"

subsection \<open>State\<close>

record sim =
  pc :: u64
  xregs :: "Register \<Rightarrow> u64"
  instret :: u64
  reserved_address :: u64
  reserved_value :: u64
  fregs :: "FRegister \<Rightarrow> u64"
  fcsr :: u32
  stack_limit :: u64
  overflow_stack_limit :: u64
  stack_base :: u64
  random :: u64
  memory :: mem

datatype sim_error =
    IllegalInstruction u32
  | EncounteredEBREAK
  | OutOfBoundsStackAccess
  | BadMemoryAccess
  | MisalignedAtomic
  | StackMisaligned
  | UnknownCSR u32
  | Unimplemented
  | Unreachable
  | InvalidRoundingMode
  | StackUnbalanced
  | NotPreserved nat
  | FNotPreserved nat
  | AssertFailed
  | UndefinedBehavior

definition get_xreg :: "sim \<Rightarrow> Register \<Rightarrow> u64" where
  "get_xreg s rs = xregs s rs"

definition set_xreg :: "Register \<Rightarrow> u64 \<Rightarrow> sim \<Rightarrow> sim" where
  "set_xreg rd v s = (if rd \<noteq> ZR then s\<lparr>xregs := (xregs s)(rd := v)\<rparr> else s)"

text \<open>Floating-point registers hold bit patterns; a float is NaN-boxed.\<close>

definition get_fregd :: "sim \<Rightarrow> FRegister \<Rightarrow> u64" where
  "get_fregd s rs = fregs s rs"

definition set_fregd :: "FRegister \<Rightarrow> u64 \<Rightarrow> sim \<Rightarrow> sim" where
  "set_fregd rd v s = s\<lparr>fregs := (fregs s)(rd := v)\<rparr>"

abbreviation (input) kNaNBox :: u64 where "kNaNBox \<equiv> 0xFFFFFFFF00000000"

definition get_fregs :: "sim \<Rightarrow> FRegister \<Rightarrow> u32" where
  "get_fregs s rs =
     (let bits64 = fregs s rs
      in if bits64 AND kNaNBox \<noteq> kNaNBox then 0x7fc00000 else ucast bits64)"

definition set_fregs :: "FRegister \<Rightarrow> u32 \<Rightarrow> sim \<Rightarrow> sim" where
  "set_fregs rd v s =
     (let bits64 = ucast v OR kNaNBox in s\<lparr>fregs := (fregs s)(rd := bits64)\<rparr>)"

abbreviation (input) kBadLR :: u64 where "kBadLR \<equiv> - 1"
abbreviation (input) kEndSimulatingPC :: u64 where "kEndSimulatingPC \<equiv> - 2"

definition pc_add :: "u64 \<Rightarrow> sim \<Rightarrow> sim" where
  "pc_add n s = s\<lparr>pc := pc s + n\<rparr>"

subsection \<open>Random numbers\<close>

definition Random_NextState :: "u64 \<Rightarrow> u64" where
  "Random_NextState old_state =
     (let state_lo = old_state AND 0xffffffff;
          state_hi = drop_bit 32 old_state AND 0xffffffff
      in 0xffffda61 * state_lo + state_hi)"

definition Random_NextUInt32 :: "u64 \<Rightarrow> u32 \<times> u64" where
  "Random_NextUInt32 st =
     (let new_state = Random_NextState st in (ucast (new_state AND 0xffffffff), new_state))"

definition Random_NextUInt64 :: "u64 \<Rightarrow> u64 \<times> u64" where
  "Random_NextUInt64 st =
     (let (hi, st1) = Random_NextUInt32 st;
          (lo, st2) = Random_NextUInt32 st1
      in (push_bit 32 (ucast hi) OR ucast lo, st2))"

definition Random_Initialize :: "u64 \<Rightarrow> u64 option" where
  "Random_Initialize seed =
     (if seed = 0 then None
      else Some (Random_NextState (Random_NextState (Random_NextState (Random_NextState seed)))))"

subsection \<open>Memory accesses of simulated code\<close>

abbreviation (input) kPageSize :: u64 where "kPageSize \<equiv> 16 * 1024"

definition CheckAccess :: "nat \<Rightarrow> u64 \<Rightarrow> Register \<Rightarrow> sim \<Rightarrow> sim_error option" where
  "CheckAccess sz addr base s =
     (if base = SP \<or> base = FP then
        (if addr + of_nat sz > stack_base s \<or> addr < get_xreg s SP
         then Some OutOfBoundsStackAccess else None)
      else
        (if addr < kPageSize \<or> addr + of_nat sz \<ge> NOT kPageSize
         then Some BadMemoryAccess else None))"

definition MemoryRead :: "nat \<Rightarrow> u64 \<Rightarrow> Register \<Rightarrow> sim \<Rightarrow> sim_error + u64" where
  "MemoryRead sz addr base s =
     (case CheckAccess sz addr base s of
        Some e \<Rightarrow> Inl e
      | None \<Rightarrow> Inr (load sz (memory s) addr))"

definition MemoryWrite :: "nat \<Rightarrow> u64 \<Rightarrow> u64 \<Rightarrow> Register \<Rightarrow> sim \<Rightarrow> sim_error + sim" where
  "MemoryWrite sz addr v base s =
     (case CheckAccess sz addr base s of
        Some e \<Rightarrow> Inl e
      | None \<Rightarrow> Inr (s\<lparr>memory := store sz addr v (memory s)\<rparr>))"

subsection \<open>Control and status registers\<close>

definition CSRRead :: "u32 \<Rightarrow> sim \<Rightarrow> sim_error + u64" where
  "CSRRead csr s =
     (if csr = 0x003 then Inr (ucast (fcsr s))
      else if csr = 0xC00 then Inr (instret s div 2)
      else if csr = 0xC01 then Inr 0
      else if csr = 0xC02 then Inr (instret s)
      else Inl (UnknownCSR csr))"

definition CSRWrite :: "u32 \<Rightarrow> u64 \<Rightarrow> sim \<Rightarrow> sim_error + sim" where
  "CSRWrite csr v s = Inl Unimplemented"

definition CSRSet :: "u32 \<Rightarrow> u64 \<Rightarrow> sim \<Rightarrow> sim_error + sim" where
  "CSRSet csr v s = Inl Unimplemented"

definition CSRClear :: "u32 \<Rightarrow> u64 \<Rightarrow> sim \<Rightarrow> sim_error + sim" where
  "CSRClear csr v s = Inl Unimplemented"

declare pc_add_def [interp_defs] MemoryRead_def [interp_defs] MemoryWrite_def [interp_defs]

subsection \<open>Register laws\<close>

lemma get_set_xreg [simp]:
  "get_xreg (set_xreg rd v s) rs = (if rs = rd \<and> rd \<noteq> ZR then v else get_xreg s rs)"
  by (simp add: get_xreg_def set_xreg_def)

lemma set_xreg_fields [simp]:
  "pc (set_xreg rd v s) = pc s" "instret (set_xreg rd v s) = instret s"
  "memory (set_xreg rd v s) = memory s" "fregs (set_xreg rd v s) = fregs s"
  "stack_base (set_xreg rd v s) = stack_base s" "stack_limit (set_xreg rd v s) = stack_limit s"
  "reserved_address (set_xreg rd v s) = reserved_address s"
  "reserved_value (set_xreg rd v s) = reserved_value s" "fcsr (set_xreg rd v s) = fcsr s"
  by (simp_all add: set_xreg_def)

lemma get_xreg_update [simp]:
  "get_xreg (s\<lparr>pc := x\<rparr>) r = get_xreg s r" "get_xreg (s\<lparr>instret := x\<rparr>) r = get_xreg s r"
  "get_xreg (s\<lparr>memory := m\<rparr>) r = get_xreg s r" "get_xreg (s\<lparr>fregs := f\<rparr>) r = get_xreg s r"
  by (simp_all add: get_xreg_def)

lemma set_xreg_update:
  "set_xreg rd v (s\<lparr>pc := x\<rparr>) = (set_xreg rd v s)\<lparr>pc := x\<rparr>"
  "set_xreg rd v (s\<lparr>instret := y\<rparr>) = (set_xreg rd v s)\<lparr>instret := y\<rparr>"
  by (simp_all add: set_xreg_def)

lemma set_xreg_ZR [simp]: "set_xreg 0 v s = s"
  by (simp add: set_xreg_def)

text \<open>The zero register: an invariant of every operation that goes through \<open>set_xreg\<close>.\<close>

definition zero_ok :: "sim \<Rightarrow> bool" where
  "zero_ok s \<longleftrightarrow> get_xreg s ZR = 0"

lemma zero_ok_set_xreg [simp]: "zero_ok (set_xreg rd v s) \<longleftrightarrow> zero_ok s"
  by (simp add: zero_ok_def)

lemma zero_ok_update [simp]:
  "zero_ok (s\<lparr>pc := x\<rparr>) = zero_ok s" "zero_ok (s\<lparr>instret := y\<rparr>) = zero_ok s"
  "zero_ok (s\<lparr>memory := m\<rparr>) = zero_ok s" "zero_ok (s\<lparr>fregs := f\<rparr>) = zero_ok s"
  "zero_ok (s\<lparr>reserved_address := x\<rparr>) = zero_ok s" "zero_ok (s\<lparr>reserved_value := y\<rparr>) = zero_ok s"
  by (simp_all add: zero_ok_def get_xreg_def)

lemma get_set_fregs:
  "get_fregs (set_fregs rd v s) rs = (if rs = rd then v else get_fregs s rs)"
proof -
  have box: "(ucast v OR kNaNBox) AND kNaNBox = kNaNBox"
    by (rule bit_word_eqI) (simp add: bit_simps)
  have low: "ucast (ucast v OR kNaNBox :: u64) = v"
  proof (rule bit_word_eqI)
    fix n assume "n < LENGTH(32)"
    moreover have "\<not> bit (0xFFFFFFFF00000000 :: u64) n" if "n < 32"
    proof -
      have "(0xFFFFFFFF00000000 :: u64) = push_bit 32 (mask 32)" by (simp add: mask_eq_exp_minus_1)
      then show ?thesis using that by (simp only: bit_push_bit_iff) simp
    qed
    ultimately show "bit (ucast (ucast v OR kNaNBox :: u64) :: u32) n = bit v n"
      by (simp add: bit_simps)
  qed
  show ?thesis
    by (simp add: get_fregs_def set_fregs_def box low)
qed

subsection \<open>Memory laws\<close>

lemma store_other:
  assumes "\<And>i. i < n \<Longrightarrow> b \<noteq> a + of_nat i"
  shows "store n a v m b = m b"
  using assms
proof (induction n arbitrary: a v)
  case (Suc n)
  have "b \<noteq> a" using Suc.prems [of 0] by simp
  moreover have "store n (a + 1) (drop_bit 8 v) m b = m b"
  proof (rule Suc.IH)
    show "b \<noteq> a + 1 + of_nat i" if "i < n" for i
      using Suc.prems [of "Suc i"] that by (simp add: algebra_simps)
  qed
  ultimately show ?case by simp
qed simp

lemma load_cong:
  assumes "\<And>i. i < n \<Longrightarrow> m (a + of_nat i) = m' (a + of_nat i)"
  shows "load n m a = load n m' a"
  using assms
proof (induction n arbitrary: a)
  case (Suc n)
  have "load n m (a + 1) = load n m' (a + 1)"
    using Suc.prems [of "Suc i" for i] by (intro Suc.IH) (simp add: algebra_simps)
  then show ?case using Suc.prems [of 0] by simp
qed simp

lemma of_nat_Suc_neq_0_u64: "i < 2 ^ 63 \<Longrightarrow> (1 :: u64) + of_nat i \<noteq> 0"
proof
  assume "i < 2 ^ 63" "(1 :: u64) + of_nat i = 0"
  then have "(of_nat (Suc i) :: u64) = 0" by simp
  then have "2 ^ 64 dvd Suc i" by (simp only: word_of_nat_eq_0_iff) simp
  then show False using \<open>i < 2 ^ 63\<close> by (auto dest: dvd_imp_le)
qed

lemma load_store:
  assumes "n \<le> 8"
  shows "load n (store n a v m) a = take_bit (8 * n) v"
  using assms
proof (induction n arbitrary: a v)
  case (Suc n)
  have "load n ((store n (a + 1) (drop_bit 8 v) m)(a := ucast v)) (a + 1)
      = load n (store n (a + 1) (drop_bit 8 v) m) (a + 1)"
  proof (rule load_cong)
    fix i assume "i < n"
    then have "(1 :: u64) + of_nat i \<noteq> 0"
      using Suc.prems by (intro of_nat_Suc_neq_0_u64) simp
    then have "a + 1 + of_nat i \<noteq> a" by (simp add: add.assoc)
    then show "((store n (a + 1) (drop_bit 8 v) m)(a := ucast v)) (a + 1 + of_nat i)
        = store n (a + 1) (drop_bit 8 v) m (a + 1 + of_nat i)" by simp
  qed
  also have "\<dots> = take_bit (8 * n) (drop_bit 8 v)"
    using Suc by simp
  finally have *: "load n ((store n (a + 1) (drop_bit 8 v) m)(a := ucast v)) (a + 1)
      = take_bit (8 * n) (drop_bit 8 v)" .
  show ?case
    unfolding store.simps load.simps * fun_upd_same
    by (rule bit_word_eqI) (auto simp: bit_simps)
qed simp

text \<open>
  The check of an access through a register other than \<open>SP\<close> and \<open>FP\<close>, over the
  integers: the end of the access is computed modulo $2^{64}$.
\<close>

lemma CheckAccess_other:
  assumes "base \<noteq> SP" and "base \<noteq> FP" and "n \<le> 8"
  shows "CheckAccess n addr base s =
    (if uint addr < 16384 \<or> 2 ^ 64 - 16385 \<le> uint addr + int n \<and> uint addr + int n < 2 ^ 64
     then Some BadMemoryAccess else None)"
proof -
  have e: "uint (addr + of_nat n) = (uint addr + int n) mod 2 ^ 64"
    using assms(3) by (simp add: uint_word_ariths unsigned_of_nat take_bit_nat_eq_self)
  have "uint addr < 2 ^ 64" using uint_range_size [of addr] by (simp add: word_size)
  then have "(uint addr + int n) mod 2 ^ 64 = (if uint addr + int n < 2 ^ 64 then uint addr + int n else uint addr + int n - 2 ^ 64)"
    using assms(3) mod_pos_pos_trivial [of "uint addr + int n - 2 ^ 64" "2 ^ 64 :: int"] by simp
  moreover have "uint (NOT (16 * 1024) :: u64) = 2 ^ 64 - 16385" by code_simp
  ultimately show ?thesis
    using assms e \<open>uint addr < 2 ^ 64\<close> by (auto simp: CheckAccess_def word_less_def word_le_def)
qed

end
