(* ===== verification/Riscv_Sim_Int.thy ===== *)
theory Riscv_Sim_Int
  imports Riscv_Sim_State "HOL-Library.Signed_Division"
begin

text \<open>
  Integer instructions of \<open>runtime/vm/simulator_riscv.cc\<close>: one definition per
  \<open>Interpret...\<close> function and per arithmetic helper, followed by what the helpers
  compute (the high halves of the products, truncated division).

  A \<open>switch\<close> of the source is a chain of tests whose last branch is the
  \<open>IllegalInstruction\<close> of the \<open>default\<close> case.  Atomic read-modify-write
  instructions act on the memory of the single simulated thread, so the
  compare-exchange loops of \<open>InterpretAMOMIN\<close> and \<open>InterpretAMOMAX\<close> succeed with
  the value first read.  Shifts of a signed value are arithmetic; signed
  arithmetic wraps, but division is undefined where the language leaves it so.
\<close>

unbundle bit_operations_syntax

text \<open>\<open>set_xreg(instr.rd(), v); pc_ += instr.length();\<close>\<close>

definition retire_rd :: "Instr \<Rightarrow> u64 \<Rightarrow> sim \<Rightarrow> sim_error + sim" where
  "retire_rd instr v s = Inr (pc_add 4 (set_xreg (DecodeRd instr) v s))"

subsection \<open>Upper immediates and jumps\<close>

definition InterpretLUI :: "Instr \<Rightarrow> sim \<Rightarrow> sim_error + sim" where
  "InterpretLUI instr s = retire_rd instr (sign_extend64 (DecodeUTypeImm instr)) s"

definition InterpretAUIPC :: "Instr \<Rightarrow> sim \<Rightarrow> sim_error + sim" where
  "InterpretAUIPC instr s = retire_rd instr (pc s + sign_extend64 (DecodeUTypeImm instr)) s"

definition InterpretJAL :: "Instr \<Rightarrow> sim \<Rightarrow> sim_error + sim" where
  "InterpretJAL instr s =
     Inr (pc_add (sign_extend64 (DecodeJTypeImm instr)) (set_xreg (DecodeRd instr) (pc s + 4) s))"

definition InterpretJALR :: "Instr \<Rightarrow> sim \<Rightarrow> sim_error + sim" where
  "InterpretJALR instr s =
     (let base = get_xreg s (DecodeRs1 instr);
          offset = DecodeITypeImm instr
      in Inr ((set_xreg (DecodeRd instr) (pc s + 4) s)\<lparr>pc := base + offset\<rparr>))"

definition InterpretBRANCH :: "Instr \<Rightarrow> sim \<Rightarrow> sim_error + sim" where
  "InterpretBRANCH instr s =
     (let a = get_xreg s (DecodeRs1 instr);
          b = get_xreg s (DecodeRs2 instr);
          funct3 = DecodeFunct3 instr;
          go = (\<lambda>taken. Inr (pc_add (if taken then DecodeBTypeImm instr else 4) s))
      in if funct3 = f3_BEQ then go (a = b)
         else if funct3 = f3_BNE then go (a \<noteq> b)
         else if funct3 = f3_BLT then go (a <s b)
         else if funct3 = f3_BGE then go (b \<le>s a)
         else if funct3 = f3_BLTU then go (a < b)
         else if funct3 = f3_BGEU then go (a \<ge> b)
         else Inl (IllegalInstruction instr))"

subsection \<open>Loads and stores\<close>

definition InterpretLOAD :: "Instr \<Rightarrow> sim \<Rightarrow> sim_error + sim" where
  "InterpretLOAD instr s =
     (let rs1 = DecodeRs1 instr;
          addr = get_xreg s rs1 + DecodeITypeImm instr;
          funct3 = DecodeFunct3 instr;
          ld = (\<lambda>n ext. bindE (MemoryRead n addr rs1 s) (\<lambda>v. retire_rd instr (ext v) s))
      in if funct3 = f3_LB then ld 1 (\<lambda>v. scast (ucast v :: u8))
         else if funct3 = f3_LH then ld 2 (\<lambda>v. scast (ucast v :: u16))
         else if funct3 = f3_LW then ld 4 (\<lambda>v. scast (ucast v :: u32))
         else if funct3 = f3_LBU then ld 1 (\<lambda>v. v)
         else if funct3 = f3_LHU then ld 2 (\<lambda>v. v)
         else if funct3 = f3_LWU then ld 4 (\<lambda>v. v)
         else if funct3 = f3_LD then ld 8 (\<lambda>v. v)
         else Inl (IllegalInstruction instr))"

definition InterpretLOADFP :: "Instr \<Rightarrow> sim \<Rightarrow> sim_error + sim" where
  "InterpretLOADFP instr s =
     (let rs1 = DecodeRs1 instr;
          addr = get_xreg s rs1 + DecodeITypeImm instr;
          funct3 = DecodeFunct3 instr
      in if funct3 = f3_S then
           bindE (MemoryRead 4 addr rs1 s)
             (\<lambda>v. Inr (pc_add 4 (set_fregs (DecodeFRd instr) (ucast v) s)))
         else if funct3 = f3_D then
           bindE (MemoryRead 8 addr rs1 s)
             (\<lambda>v. Inr (pc_add 4 (set_fregd (DecodeFRd instr) v s)))
         else Inl (IllegalInstruction instr))"

definition InterpretSTORE :: "Instr \<Rightarrow> sim \<Rightarrow> sim_error + sim" where
  "InterpretSTORE instr s =
     (let rs1 = DecodeRs1 instr;
          addr = get_xreg s rs1 + DecodeSTypeImm instr;
          v = get_xreg s (DecodeRs2 instr);
          funct3 = DecodeFunct3 instr;
          st = (\<lambda>n. bindE (MemoryWrite n addr v rs1 s) (\<lambda>s'. Inr (pc_add 4 s')))
      in if funct3 = f3_SB then st 1
         else if funct3 = f3_SH then st 2
         else if funct3 = f3_SW then st 4
         else if funct3 = f3_SD then st 8
         else Inl (IllegalInstruction instr))"

definition InterpretSTOREFP :: "Instr \<Rightarrow> sim \<Rightarrow> sim_error + sim" where
  "InterpretSTOREFP instr s =
     (let rs1 = DecodeRs1 instr;
          addr = get_xreg s rs1 + DecodeSTypeImm instr;
          funct3 = DecodeFunct3 instr
      in if funct3 = f3_S then
           bindE (MemoryWrite 4 addr (ucast (get_fregs s (DecodeFRs2 instr))) rs1 s)
             (\<lambda>s'. Inr (pc_add 4 s'))
         else if funct3 = f3_D then
           bindE (MemoryWrite 8 addr (get_fregd s (DecodeFRs2 instr)) rs1 s)
             (\<lambda>s'. Inr (pc_add 4 s'))
         else Inl (IllegalInstruction instr))"

subsection \<open>Immediate operations\<close>

definition InterpretOPIMM :: "Instr \<Rightarrow> sim \<Rightarrow> sim_error + sim" where
  "InterpretOPIMM instr s =
     (let a = get_xreg s (DecodeRs1 instr);
          imm = DecodeITypeImm instr;
          shamt = unat (DecodeShamt instr);
          funct3 = DecodeFunct3 instr
      in if funct3 = f3_ADDI then retire_rd instr (a + imm) s
         else if funct3 = f3_SLTI then retire_rd instr (if a <s imm then 1 else 0) s
         else if funct3 = f3_SLTIU then retire_rd instr (if a < imm then 1 else 0) s
         else if funct3 = f3_XORI then retire_rd instr (a XOR imm) s
         else if funct3 = f3_ORI then retire_rd instr (a OR imm) s
         else if funct3 = f3_ANDI then retire_rd instr (a AND imm) s
         else if funct3 = f3_SLLI then retire_rd instr (push_bit shamt a) s
         else if funct3 = f3_SRI then
           (if DecodeFunct7 instr AND 0b1111110 = f7_SRA
            then retire_rd instr (signed_drop_bit shamt a) s
            else retire_rd instr (drop_bit shamt a) s)
         else Inl (IllegalInstruction instr))"

definition InterpretOPIMM32 :: "Instr \<Rightarrow> sim \<Rightarrow> sim_error + sim" where
  "InterpretOPIMM32 instr s =
     (let a = (ucast (get_xreg s (DecodeRs1 instr)) :: u32);
          funct3 = DecodeFunct3 instr;
          shamt = unat (DecodeShamt instr)
      in if funct3 = f3_ADDI then
           retire_rd instr (sign_extend32 (a + ucast (DecodeITypeImm instr))) s
         else if funct3 = f3_SLLI then retire_rd instr (sign_extend32 (push_bit shamt a)) s
         else if funct3 = f3_SRI then
           (if DecodeFunct7 instr = f7_SRA
            then retire_rd instr (sign_extend32 (signed_drop_bit shamt a)) s
            else retire_rd instr (sign_extend32 (drop_bit shamt a)) s)
         else Inl (IllegalInstruction instr))"

subsection \<open>Multiplication and division helpers\<close>

definition sim_mul :: "u64 \<Rightarrow> u64 \<Rightarrow> u64" where
  "sim_mul a b = a * b"

abbreviation (input) kLoMask :: u64 where "kLoMask \<equiv> push_bit 32 1 - 1"

definition sim_mulh :: "u64 \<Rightarrow> u64 \<Rightarrow> u64" where
  "sim_mulh a b =
     (let a_lo = a AND kLoMask; a_hi = signed_drop_bit 32 a;
          b_lo = b AND kLoMask; b_hi = signed_drop_bit 32 b;
          x = a_lo * b_lo; y = a_hi * b_lo; z = a_lo * b_hi; w = a_hi * b_hi;
          r0 = drop_bit 32 x + y;
          r1 = (r0 AND kLoMask) + z
      in w + signed_drop_bit 32 r0 + signed_drop_bit 32 r1)"

definition sim_mulhu :: "u64 \<Rightarrow> u64 \<Rightarrow> u64" where
  "sim_mulhu a b =
     (let a_lo = a AND kLoMask; a_hi = drop_bit 32 a;
          b_lo = b AND kLoMask; b_hi = drop_bit 32 b;
          x = a_lo * b_lo; y = a_hi * b_lo; z = a_lo * b_hi; w = a_hi * b_hi;
          r0 = drop_bit 32 x + y;
          r1 = (r0 AND kLoMask) + z
      in w + drop_bit 32 r0 + drop_bit 32 r1)"

definition sim_mulhsu :: "u64 \<Rightarrow> u64 \<Rightarrow> u64" where
  "sim_mulhsu a b =
     (let a_lo = a AND kLoMask; a_hi = signed_drop_bit 32 a;
          b_lo = b AND kLoMask; b_hi = drop_bit 32 b;
          x = a_lo * b_lo; y = a_hi * b_lo; z = a_lo * b_hi; w = a_hi * b_hi;
          r0 = drop_bit 32 x + y;
          r1 = (r0 AND kLoMask) + z
      in w + signed_drop_bit 32 r0 + drop_bit 32 r1)"

text \<open>
  The operators \<open>/\<close> and \<open>%\<close> of the language on words of any width: truncating on
  signed operands, and undefined (\<open>None\<close>) for a zero divisor and for the quotient
  \<open>- (MIN)\<close>, which is not representable.
\<close>

definition div_overflows :: "'a::len word \<Rightarrow> 'a word \<Rightarrow> bool" where
  "div_overflows a b \<longleftrightarrow> b = - 1 \<and> a = push_bit (LENGTH('a) - 1) 1"

definition signed_quotient :: "'a::len word \<Rightarrow> 'a word \<Rightarrow> 'a word option" where
  "signed_quotient a b = (if b = 0 \<or> div_overflows a b then None else Some (word_of_int (sint a sdiv sint b)))"

definition signed_remainder :: "'a::len word \<Rightarrow> 'a word \<Rightarrow> 'a word option" where
  "signed_remainder a b = (if b = 0 \<or> div_overflows a b then None else Some (word_of_int (sint a smod sint b)))"

definition unsigned_quotient :: "'a::len word \<Rightarrow> 'a word \<Rightarrow> 'a word option" where
  "unsigned_quotient a b = (if b = 0 then None else Some (a div b))"

definition unsigned_remainder :: "'a::len word \<Rightarrow> 'a word \<Rightarrow> 'a word option" where
  "unsigned_remainder a b = (if b = 0 then None else Some (a mod b))"

abbreviation (input) kMinIntX :: u64 where "kMinIntX \<equiv> push_bit 63 1"
abbreviation (input) kMinInt32 :: u32 where "kMinInt32 \<equiv> push_bit 31 1"

definition sim_div :: "u64 \<Rightarrow> u64 \<Rightarrow> u64 option" where
  "sim_div a b =
     (if b = 0 then Some (- 1) else if b = - 1 \<and> a = kMinIntX then Some kMinIntX else signed_quotient a b)"

definition sim_divu :: "u64 \<Rightarrow> u64 \<Rightarrow> u64 option" where
  "sim_divu a b = (if b = 0 then Some (- 1) else unsigned_quotient a b)"

definition sim_rem :: "u64 \<Rightarrow> u64 \<Rightarrow> u64 option" where
  "sim_rem a b =
     (if b = 0 then Some a else if b = - 1 \<and> a = kMinIntX then Some 0 else signed_remainder a b)"

definition sim_remu :: "u64 \<Rightarrow> u64 \<Rightarrow> u64 option" where
  "sim_remu a b = (if b = 0 then Some a else unsigned_remainder a b)"

definition sim_mulw :: "u32 \<Rightarrow> u32 \<Rightarrow> u32" where
  "sim_mulw a b = a * b"

definition sim_divw :: "u32 \<Rightarrow> u32 \<Rightarrow> u32 option" where
  "sim_divw a b =
     (if b = 0 then Some (- 1) else if b = - 1 \<and> a = kMinInt32 then Some kMinInt32 else signed_quotient a b)"

definition sim_divuw :: "u32 \<Rightarrow> u32 \<Rightarrow> u32 option" where
  "sim_divuw a b = (if b = 0 then Some (- 1) else unsigned_quotient a b)"

definition sim_remw :: "u32 \<Rightarrow> u32 \<Rightarrow> u32 option" where
  "sim_remw a b =
     (if b = 0 then Some a else if b = - 1 \<and> a = kMinInt32 then Some 0 else signed_remainder a b)"

definition sim_remuw :: "u32 \<Rightarrow> u32 \<Rightarrow> u32 option" where
  "sim_remuw a b = (if b = 0 then Some a else unsigned_remainder a b)"

text \<open>\<open>set_xreg(instr.rd(), v)\<close> where the computation of \<open>v\<close> may be undefined.\<close>

definition retire_defined :: "Instr \<Rightarrow> u64 option \<Rightarrow> sim \<Rightarrow> sim_error + sim" where
  "retire_defined instr v s = (case v of None \<Rightarrow> Inl UndefinedBehavior | Some v \<Rightarrow> retire_rd instr v s)"

subsection \<open>Register operations\<close>

definition InterpretOP_0 :: "Instr \<Rightarrow> sim \<Rightarrow> sim_error + sim" where
  "InterpretOP_0 instr s =
     (let a = get_xreg s (DecodeRs1 instr); b = get_xreg s (DecodeRs2 instr);
          shamt = unat (b AND (64 - 1)); funct3 = DecodeFunct3 instr
      in if funct3 = f3_ADD then retire_rd instr (a + b) s
         else if funct3 = f3_SLL then retire_rd instr (push_bit shamt a) s
         else if funct3 = f3_SLT then retire_rd instr (if a <s b then 1 else 0) s
         else if funct3 = f3_SLTU then retire_rd instr (if a < b then 1 else 0) s
         else if funct3 = f3_XOR then retire_rd instr (a XOR b) s
         else if funct3 = f3_SR then retire_rd instr (drop_bit shamt a) s
         else if funct3 = f3_OR then retire_rd instr (a OR b) s
         else if funct3 = f3_AND then retire_rd instr (a AND b) s
         else Inl (IllegalInstruction instr))"

definition InterpretOP_MULDIV :: "Instr \<Rightarrow> sim \<Rightarrow> sim_error + sim" where
  "InterpretOP_MULDIV instr s =
     (let a = get_xreg s (DecodeRs1 instr); b = get_xreg s (DecodeRs2 instr);
          funct3 = DecodeFunct3 instr
      in if funct3 = f3_MUL then retire_rd instr (sim_mul a b) s
         else if funct3 = f3_MULH then retire_rd instr (sim_mulh a b) s
         else if funct3 = f3_MULHSU then retire_rd instr (sim_mulhsu a b) s
         else if funct3 = f3_MULHU then retire_rd instr (sim_mulhu a b) s
         else if funct3 = f3_DIV then retire_defined instr (sim_div a b) s
         else if funct3 = f3_DIVU then retire_defined instr (sim_divu a b) s
         else if funct3 = f3_REM then retire_defined instr (sim_rem a b) s
         else if funct3 = f3_REMU then retire_defined instr (sim_remu a b) s
         else Inl (IllegalInstruction instr))"

definition InterpretOP_SUB :: "Instr \<Rightarrow> sim \<Rightarrow> sim_error + sim" where
  "InterpretOP_SUB instr s =
     (let a = get_xreg s (DecodeRs1 instr); b = get_xreg s (DecodeRs2 instr);
          shamt = unat (b AND (64 - 1)); funct3 = DecodeFunct3 instr
      in if funct3 = f3_ADD then retire_rd instr (a - b) s
         else if funct3 = f3_SR then retire_rd instr (signed_drop_bit shamt a) s
         else Inl (IllegalInstruction instr))"

definition InterpretOP :: "Instr \<Rightarrow> sim \<Rightarrow> sim_error + sim" where
  "InterpretOP instr s =
     (let funct7 = DecodeFunct7 instr
      in if funct7 = 0 then InterpretOP_0 instr s
         else if funct7 = f7_SUB then InterpretOP_SUB instr s
         else if funct7 = f7_MULDIV then InterpretOP_MULDIV instr s
         else Inl (IllegalInstruction instr))"

definition InterpretOP32_0 :: "Instr \<Rightarrow> sim \<Rightarrow> sim_error + sim" where
  "InterpretOP32_0 instr s =
     (let a = (ucast (get_xreg s (DecodeRs1 instr)) :: u32);
          rs2 = get_xreg s (DecodeRs2 instr);
          b = unat (rs2 AND (32 - 1)); funct3 = DecodeFunct3 instr
      in if funct3 = f3_ADD then retire_rd instr (sign_extend32 (a + ucast rs2)) s
         else if funct3 = f3_SLL then retire_rd instr (sign_extend32 (push_bit b a)) s
         else if funct3 = f3_SR then retire_rd instr (sign_extend32 (drop_bit b a)) s
         else Inl (IllegalInstruction instr))"

definition InterpretOP32_SUB :: "Instr \<Rightarrow> sim \<Rightarrow> sim_error + sim" where
  "InterpretOP32_SUB instr s =
     (let a = (ucast (get_xreg s (DecodeRs1 instr)) :: u32);
          rs2 = get_xreg s (DecodeRs2 instr);
          b = unat (rs2 AND (32 - 1)); funct3 = DecodeFunct3 instr
      in if funct3 = f3_ADD then retire_rd instr (sign_extend32 (a - ucast rs2)) s
         else if funct3 = f3_SR then retire_rd instr (sign_extend32 (signed_drop_bit b a)) s
         else Inl (IllegalInstruction instr))"

definition InterpretOP32_MULDIV :: "Instr \<Rightarrow> sim \<Rightarrow> sim_error + sim" where
  "InterpretOP32_MULDIV instr s =
     (let a = (ucast (get_xreg s (DecodeRs1 instr)) :: u32);
          b = (ucast (get_xreg s (DecodeRs2 instr)) :: u32);
          funct3 = DecodeFunct3 instr
      in if funct3 = f3_MULW then retire_rd instr (sign_extend32 (sim_mulw a b)) s
         else if funct3 = f3_DIVW then retire_defined instr (map_option sign_extend32 (sim_divw a b)) s
         else if funct3 = f3_DIVUW then retire_defined instr (map_option sign_extend32 (sim_divuw a b)) s
         else if funct3 = f3_REMW then retire_defined instr (map_option sign_extend32 (sim_remw a b)) s
         else if funct3 = f3_REMUW then retire_defined instr (map_option sign_extend32 (sim_remuw a b)) s
         else Inl (IllegalInstruction instr))"

definition InterpretOP32 :: "Instr \<Rightarrow> sim \<Rightarrow> sim_error + sim" where
  "InterpretOP32 instr s =
     (let funct7 = DecodeFunct7 instr
      in if funct7 = 0 then InterpretOP32_0 instr s
         else if funct7 = f7_SUB then InterpretOP32_SUB instr s
         else if funct7 = f7_MULDIV then InterpretOP32_MULDIV instr s
         else Inl (IllegalInstruction instr))"

definition InterpretMISCMEM :: "Instr \<Rightarrow> sim \<Rightarrow> sim_error + sim" where
  "InterpretMISCMEM instr s =
     (let funct3 = DecodeFunct3 instr
      in if funct3 = f3_FENCE \<or> funct3 = f3_FENCEI then Inr (pc_add 4 s)
         else Inl (IllegalInstruction instr))"

subsection \<open>Atomic memory operations\<close>

text \<open>
  The templates are instantiated at \<open>int32_t\<close>, \<open>uint32_t\<close> (4 bytes) and
  \<open>int64_t\<close>, \<open>uint64_t\<close> (8 bytes); \<open>n\<close> is \<open>sizeof(type)\<close>.
\<close>

definition amo_sign_extend :: "nat \<Rightarrow> u64 \<Rightarrow> u64" where
  "amo_sign_extend n v = (if n = 4 then sign_extend32 (ucast v) else sign_extend64 v)"

definition InterpretLR :: "nat \<Rightarrow> Instr \<Rightarrow> sim \<Rightarrow> sim_error + sim" where
  "InterpretLR n instr s =
     (let addr = get_xreg s (DecodeRs1 instr)
      in if addr AND (of_nat n - 1) \<noteq> 0 then Inl MisalignedAtomic
         else let v = amo_sign_extend n (load n (memory s) addr)
              in Inr (set_xreg (DecodeRd instr) v
                        (s\<lparr>reserved_address := addr, reserved_value := v\<rparr>)))"

definition InterpretSC :: "nat \<Rightarrow> Instr \<Rightarrow> sim \<Rightarrow> sim_error + sim" where
  "InterpretSC n instr s =
     (let addr = get_xreg s (DecodeRs1 instr)
      in if addr AND (of_nat n - 1) \<noteq> 0 then Inl MisalignedAtomic
         else if addr \<noteq> reserved_address s then Inr (set_xreg (DecodeRd instr) 1 s)
         else let expected = take_bit (8 * n) (reserved_value s);
                  desired = get_xreg s (DecodeRs2 instr)
              in if load n (memory s) addr = expected
                 then Inr (set_xreg (DecodeRd instr) 0
                             (s\<lparr>memory := store n addr desired (memory s)\<rparr>))
                 else Inr (set_xreg (DecodeRd instr) 1 s))"

definition AMO_rmw :: "nat \<Rightarrow> (u64 \<Rightarrow> u64 \<Rightarrow> u64) \<Rightarrow> Instr \<Rightarrow> sim \<Rightarrow> sim_error + sim" where
  "AMO_rmw n f instr s =
     (let addr = get_xreg s (DecodeRs1 instr)
      in if addr AND (of_nat n - 1) \<noteq> 0 then Inl MisalignedAtomic
         else let result = load n (memory s) addr;
                  arg = get_xreg s (DecodeRs2 instr)
              in Inr (set_xreg (DecodeRd instr) (amo_sign_extend n result)
                        (s\<lparr>memory := store n addr (f result arg) (memory s)\<rparr>)))"

definition InterpretAMOSWAP :: "nat \<Rightarrow> Instr \<Rightarrow> sim \<Rightarrow> sim_error + sim" where
  "InterpretAMOSWAP n = AMO_rmw n (\<lambda>_ desired. desired)"

definition InterpretAMOADD :: "nat \<Rightarrow> Instr \<Rightarrow> sim \<Rightarrow> sim_error + sim" where
  "InterpretAMOADD n = AMO_rmw n (\<lambda>x arg. x + arg)"

definition InterpretAMOXOR :: "nat \<Rightarrow> Instr \<Rightarrow> sim \<Rightarrow> sim_error + sim" where
  "InterpretAMOXOR n = AMO_rmw n (\<lambda>x arg. x XOR arg)"

definition InterpretAMOAND :: "nat \<Rightarrow> Instr \<Rightarrow> sim \<Rightarrow> sim_error + sim" where
  "InterpretAMOAND n = AMO_rmw n (\<lambda>x arg. x AND arg)"

definition InterpretAMOOR :: "nat \<Rightarrow> Instr \<Rightarrow> sim \<Rightarrow> sim_error + sim" where
  "InterpretAMOOR n = AMO_rmw n (\<lambda>x arg. x OR arg)"

text \<open>Comparison at the template type.\<close>

definition amo_less :: "bool \<Rightarrow> nat \<Rightarrow> u64 \<Rightarrow> u64 \<Rightarrow> bool" where
  "amo_less is_signed n x y =
     (if is_signed then amo_sign_extend n x <s amo_sign_extend n y
      else take_bit (8 * n) x < take_bit (8 * n) y)"

definition InterpretAMOMIN :: "bool \<Rightarrow> nat \<Rightarrow> Instr \<Rightarrow> sim \<Rightarrow> sim_error + sim" where
  "InterpretAMOMIN is_signed n =
     AMO_rmw n (\<lambda>expected compare. if amo_less is_signed n expected compare then expected else compare)"

definition InterpretAMOMAX :: "bool \<Rightarrow> nat \<Rightarrow> Instr \<Rightarrow> sim \<Rightarrow> sim_error + sim" where
  "InterpretAMOMAX is_signed n =
     AMO_rmw n (\<lambda>expected compare. if amo_less is_signed n compare expected then expected else compare)"

definition InterpretAMOn :: "nat \<Rightarrow> Instr \<Rightarrow> sim \<Rightarrow> sim_error + sim" where
  "InterpretAMOn n instr s =
     (let funct5 = DecodeFunct5 instr
      in bindE
        (if funct5 = f5_LR then InterpretLR n instr s
         else if funct5 = f5_SC then InterpretSC n instr s
         else if funct5 = f5_AMOSWAP then InterpretAMOSWAP n instr s
         else if funct5 = f5_AMOADD then InterpretAMOADD n instr s
         else if funct5 = f5_AMOXOR then InterpretAMOXOR n instr s
         else if funct5 = f5_AMOAND then InterpretAMOAND n instr s
         else if funct5 = f5_AMOOR then InterpretAMOOR n instr s
         else if funct5 = f5_AMOMIN then InterpretAMOMIN True n instr s
         else if funct5 = f5_AMOMAX then InterpretAMOMAX True n instr s
         else if funct5 = f5_AMOMINU then InterpretAMOMIN False n instr s
         else if funct5 = f5_AMOMAXU then InterpretAMOMAX False n instr s
         else Inl (IllegalInstruction instr))
        (\<lambda>s'. Inr (pc_add 4 s')))"

definition InterpretAMO32 :: "Instr \<Rightarrow> sim \<Rightarrow> sim_error + sim" where
  "InterpretAMO32 = InterpretAMOn 4"

definition InterpretAMO64 :: "Instr \<Rightarrow> sim \<Rightarrow> sim_error + sim" where
  "InterpretAMO64 = InterpretAMOn 8"

definition InterpretAMO :: "Instr \<Rightarrow> sim \<Rightarrow> sim_error + sim" where
  "InterpretAMO instr s =
     (let funct3 = DecodeFunct3 instr
      in if funct3 = f3_WIDTH32 then InterpretAMO32 instr s
         else if funct3 = f3_WIDTH64 then InterpretAMO64 instr s
         else Inl (IllegalInstruction instr))"

declare retire_rd_def [interp_defs] InterpretLUI_def [interp_defs] InterpretAUIPC_def [interp_defs]
  InterpretJAL_def [interp_defs] InterpretJALR_def [interp_defs] InterpretBRANCH_def [interp_defs]
  InterpretLOAD_def [interp_defs] InterpretLOADFP_def [interp_defs] InterpretSTORE_def [interp_defs]
  InterpretSTOREFP_def [interp_defs] InterpretOPIMM_def [interp_defs] InterpretOPIMM32_def [interp_defs]
  InterpretOP_def [interp_defs] InterpretOP_0_def [interp_defs] InterpretOP_SUB_def [interp_defs]
  InterpretOP_MULDIV_def [interp_defs] InterpretOP32_def [interp_defs] InterpretOP32_0_def [interp_defs]
  InterpretOP32_SUB_def [interp_defs] InterpretOP32_MULDIV_def [interp_defs]
  InterpretMISCMEM_def [interp_defs] InterpretAMO_def [interp_defs] InterpretAMO32_def [interp_defs]
  InterpretAMO64_def [interp_defs] InterpretAMOn_def [interp_defs] InterpretLR_def [interp_defs]
  InterpretSC_def [interp_defs] AMO_rmw_def [interp_defs] InterpretAMOSWAP_def [interp_defs]
  InterpretAMOADD_def [interp_defs] InterpretAMOXOR_def [interp_defs] InterpretAMOAND_def [interp_defs]
  InterpretAMOOR_def [interp_defs] InterpretAMOMIN_def [interp_defs] InterpretAMOMAX_def [interp_defs]

subsection \<open>High halves of products\<close>

text \<open>Schoolbook multiplication in base \<open>K\<close>, whatever the signs of the high digits.\<close>

lemma int_mul_high:
  fixes ah al bh bl K :: int
  assumes "0 < K"
  shows "((ah * K + al) * (bh * K + bl)) div (K * K) =
    ah * bh + (al * bl div K + ah * bl) div K + ((al * bl div K + ah * bl) mod K + al * bh) div K"
proof -
  let ?r0 = "al * bl div K + ah * bl"
  have "((ah * K + al) * (bh * K + bl)) div (K * K) =
      ((al * bl + (ah * bl + al * bh) * K) + (ah * bh) * (K * K)) div (K * K)"
    by (simp add: algebra_simps)
  also have "\<dots> = (al * bl + (ah * bl + al * bh) * K) div (K * K) + ah * bh"
    using assms by (subst div_mult_self1) (auto simp: add.commute)
  also have "(al * bl + (ah * bl + al * bh) * K) div (K * K) =
      (al * bl + (ah * bl + al * bh) * K) div K div K"
    using assms by (simp add: zdiv_zmult2_eq)
  also have "(al * bl + (ah * bl + al * bh) * K) div K = ?r0 + al * bh"
    using assms by (subst div_mult_self1) auto
  also have "?r0 + al * bh = (?r0 mod K + al * bh) + (?r0 div K) * K"
    by (simp add: algebra_simps)
  also have "\<dots> div K = (?r0 mod K + al * bh) div K + ?r0 div K"
    using assms by (subst div_mult_self1) (auto simp: add.commute)
  finally show ?thesis by simp
qed

lemma kLoMask_word_of_int:
  "(word_of_int k :: u64) AND kLoMask = word_of_int (k mod 4294967296)"
proof -
  have "(kLoMask :: u64) = mask 32" by (simp add: mask_eq_exp_minus_1)
  then have "(word_of_int k :: u64) AND kLoMask = take_bit 32 (word_of_int k)"
    by (simp only: take_bit_eq_mask)
  also have "\<dots> = word_of_int (take_bit 32 k)" by (rule take_bit_of_int)
  finally show ?thesis by (simp add: take_bit_eq_mod)
qed

lemma drop_bit_word_of_int:
  assumes "0 \<le> k" and "k < 18446744073709551616"
  shows "drop_bit 32 (word_of_int k :: u64) = word_of_int (k div 4294967296)"
proof -
  have "uint (word_of_int k :: u64) = k"
    using assms by (simp add: uint_word_of_int_eq take_bit_int_eq_self)
  then have "uint (drop_bit 32 (word_of_int k :: u64)) = k div 4294967296"
    using assms by (simp only: unsigned_drop_bit_eq) (simp add: drop_bit_eq_div take_bit_int_eq_self)
  then have "word_of_int (uint (drop_bit 32 (word_of_int k :: u64))) = (word_of_int (k div 4294967296) :: u64)"
    by (rule arg_cong)
  then show ?thesis by (simp only: word_of_int_uint)
qed

lemma signed_drop_bit_word_of_int:
  assumes "- 9223372036854775808 \<le> k" and "k < 9223372036854775808"
  shows "signed_drop_bit 32 (word_of_int k :: u64) = word_of_int (k div 4294967296)"
proof -
  have "sint (word_of_int k :: u64) = k"
    using assms by (intro sint_word_of_int_fits) simp_all
  then have "sint (signed_drop_bit 32 (word_of_int k :: u64)) = k div 4294967296"
    by (simp add: sint_signed_drop_bit_eq drop_bit_eq_div)
  then have "word_of_int (sint (signed_drop_bit 32 (word_of_int k :: u64))) = (word_of_int (k div 4294967296) :: u64)"
    by (rule arg_cong)
  then show ?thesis by simp
qed

text \<open>Bounds of the partial products.\<close>

lemma mul_bounds_signed:
  fixes h l :: int
  assumes "- 2147483648 \<le> h" and "h < 2147483648" and "0 \<le> l" and "l < 4294967296"
  shows "- 9223372036854775808 + 2147483648 \<le> h * l" and "h * l \<le> 9223372036854775808 - 4294967296"
proof -
  have "- 2147483648 * l \<le> h * l" using assms by (intro mult_right_mono) auto
  then show "- 9223372036854775808 + 2147483648 \<le> h * l" using assms by linarith
  have "h * l \<le> 2147483647 * l" using assms by (intro mult_right_mono) auto
  then show "h * l \<le> 9223372036854775808 - 4294967296" using assms by linarith
qed

lemma mul_bounds_unsigned:
  fixes h l :: int
  assumes "0 \<le> h" and "h < 4294967296" and "0 \<le> l" and "l < 4294967296"
  shows "0 \<le> h * l" and "h * l \<le> 18446744073709551616 - 8589934592 + 1"
proof -
  show "0 \<le> h * l" using assms by simp
  have "h * l \<le> 4294967295 * l" using assms by (intro mult_right_mono) auto
  then show "h * l \<le> 18446744073709551616 - 8589934592 + 1" using assms by linarith
qed

lemma int_div_lower:
  fixes x K :: int
  assumes "0 < K" and "lo * K \<le> x"
  shows "lo \<le> x div K"
  using zdiv_mono1 [OF assms(2,1)] assms(1) by simp

lemma int_div_upper:
  fixes x K :: int
  assumes "0 < K" and "x < hi * K"
  shows "x div K < hi"
proof -
  have "x div K * K \<le> x" using assms(1) by (simp add: minus_mod_eq_div_mult [symmetric])
  then have "x div K * K < hi * K" using assms(2) by simp
  then show ?thesis using assms(1) by simp
qed

text \<open>A word as low and high digit in base \<open>4294967296\<close>.\<close>

lemma u64_digits:
  fixes a :: u64
  shows "a AND kLoMask = word_of_int (sint a mod 4294967296)" and "a AND kLoMask = word_of_int (uint a mod 4294967296)"
    and "signed_drop_bit 32 a = word_of_int (sint a div 4294967296)"
    and "drop_bit 32 a = word_of_int (uint a div 4294967296)"
    and "- 2147483648 \<le> sint a div 4294967296" and "sint a div 4294967296 < 2147483648"
    and "0 \<le> uint a div 4294967296" and "uint a div 4294967296 < 4294967296"
proof -
  have s: "- 9223372036854775808 \<le> sint a" "sint a < 9223372036854775808"
    using sint_greater_eq [of a] sint_less [of a] by simp_all
  have u: "0 \<le> uint a" "uint a < 18446744073709551616"
    using unsigned_less [of a, where 'a = int] by simp_all
  show "a AND kLoMask = word_of_int (sint a mod 4294967296)" using kLoMask_word_of_int [of "sint a"] by (simp only: of_int_sint word_of_int_uint scast_id)
  show "a AND kLoMask = word_of_int (uint a mod 4294967296)" using kLoMask_word_of_int [of "uint a"] by (simp only: of_int_sint word_of_int_uint scast_id)
  show "signed_drop_bit 32 a = word_of_int (sint a div 4294967296)"
    using signed_drop_bit_word_of_int [OF s] by (simp only: of_int_sint scast_id)
  show "drop_bit 32 a = word_of_int (uint a div 4294967296)"
    using drop_bit_word_of_int [OF u] by (simp only: word_of_int_uint)
  show "- 2147483648 \<le> sint a div 4294967296" "sint a div 4294967296 < 2147483648"
    by (rule int_div_lower int_div_upper; use s in linarith)+
  show "0 \<le> uint a div 4294967296" "uint a div 4294967296 < 4294967296"
    by (rule int_div_lower int_div_upper; use u in linarith)+
qed

lemma int_digits: "(k :: int) div 4294967296 * 4294967296 + k mod 4294967296 = k"
  by simp

lemma digit_square: "(4294967296 :: int) * 4294967296 = 2 ^ 64"
  by simp

lemma sim_mulh_eq: "sim_mulh a b = word_of_int ((sint a * sint b) div 2 ^ 64)"
proof -
  define al ah bl bh where d: "al = sint a mod 4294967296" "ah = sint a div 4294967296"
    "bl = sint b mod 4294967296" "bh = sint b div 4294967296"
  have l: "0 \<le> al" "al < 4294967296" "0 \<le> bl" "bl < 4294967296" by (simp_all add: d)
  have h: "- 2147483648 \<le> ah" "ah < 2147483648" "- 2147483648 \<le> bh" "bh < 2147483648"
    unfolding d by (rule u64_digits)+
  let ?r0 = "al * bl div 4294967296 + ah * bl"
  have x: "0 \<le> al * bl" "al * bl < 18446744073709551616" using mul_bounds_unsigned [OF l] by linarith+
  have xd: "0 \<le> al * bl div 4294967296" "al * bl div 4294967296 < 4294967296" 
    by (rule int_div_lower int_div_upper; use x in linarith)+
  have r0: "- 9223372036854775808 \<le> ?r0" "?r0 < 9223372036854775808"
    using mul_bounds_signed [OF h(1,2) l(3,4)] xd by linarith+
  have m: "0 \<le> ?r0 mod 4294967296" "?r0 mod 4294967296 < 4294967296" by simp_all
  have r1: "- 9223372036854775808 \<le> ?r0 mod 4294967296 + al * bh" "?r0 mod 4294967296 + al * bh < 9223372036854775808"
    using mul_bounds_signed [OF h(3,4) l(1,2)] m mult.commute [of al bh] by linarith+
  have "sim_mulh a b = word_of_int (ah * bh + ?r0 div 4294967296 + (?r0 mod 4294967296 + al * bh) div 4294967296)"
    unfolding sim_mulh_def Let_def u64_digits(1) [of a] u64_digits(3) [of a]
      u64_digits(1) [of b] u64_digits(3) [of b] d [symmetric]
    by (simp only: of_int_mult [symmetric] of_int_add [symmetric] drop_bit_word_of_int [OF x]
        kLoMask_word_of_int signed_drop_bit_word_of_int [OF r0] signed_drop_bit_word_of_int [OF r1])
  also have "\<dots> = word_of_int ((ah * 4294967296 + al) * (bh * 4294967296 + bl) div (4294967296 * 4294967296))"
    by (simp only: int_mul_high zero_less_numeral)
  also have "ah * 4294967296 + al = sint a"
    unfolding d by (rule int_digits)
  also have "bh * 4294967296 + bl = sint b"
    unfolding d by (rule int_digits)
  finally show ?thesis by (simp only: digit_square)
qed

lemma sim_mulhu_eq: "sim_mulhu a b = word_of_int ((uint a * uint b) div 2 ^ 64)"
proof -
  define al ah bl bh where d: "al = uint a mod 4294967296" "ah = uint a div 4294967296"
    "bl = uint b mod 4294967296" "bh = uint b div 4294967296"
  have l: "0 \<le> al" "al < 4294967296" "0 \<le> bl" "bl < 4294967296" by (simp_all add: d)
  have h: "0 \<le> ah" "ah < 4294967296" "0 \<le> bh" "bh < 4294967296"
    unfolding d by (rule u64_digits)+
  let ?r0 = "al * bl div 4294967296 + ah * bl"
  have x: "0 \<le> al * bl" "al * bl < 18446744073709551616" using mul_bounds_unsigned [OF l] by linarith+
  have xd: "0 \<le> al * bl div 4294967296" "al * bl div 4294967296 < 4294967296" 
    by (rule int_div_lower int_div_upper; use x in linarith)+
  have r0: "0 \<le> ?r0" "?r0 < 18446744073709551616"
    using mul_bounds_unsigned [OF h(1,2) l(3,4)] xd by linarith+
  have m: "0 \<le> ?r0 mod 4294967296" "?r0 mod 4294967296 < 4294967296" by simp_all
  have r1: "0 \<le> ?r0 mod 4294967296 + al * bh" "?r0 mod 4294967296 + al * bh < 18446744073709551616"
    using mul_bounds_unsigned [OF h(3,4) l(1,2)] m mult.commute [of al bh] by linarith+
  have "sim_mulhu a b = word_of_int (ah * bh + ?r0 div 4294967296 + (?r0 mod 4294967296 + al * bh) div 4294967296)"
    unfolding sim_mulhu_def Let_def u64_digits(2) [of a] u64_digits(4) [of a]
      u64_digits(2) [of b] u64_digits(4) [of b] d [symmetric]
    by (simp only: of_int_mult [symmetric] of_int_add [symmetric] drop_bit_word_of_int [OF x]
        kLoMask_word_of_int drop_bit_word_of_int [OF r0] drop_bit_word_of_int [OF r1])
  also have "\<dots> = word_of_int ((ah * 4294967296 + al) * (bh * 4294967296 + bl) div (4294967296 * 4294967296))"
    by (simp only: int_mul_high zero_less_numeral)
  also have "ah * 4294967296 + al = uint a"
    unfolding d by (rule int_digits)
  also have "bh * 4294967296 + bl = uint b"
    unfolding d by (rule int_digits)
  finally show ?thesis by (simp only: digit_square)
qed

lemma sim_mulhsu_eq: "sim_mulhsu a b = word_of_int ((sint a * uint b) div 2 ^ 64)"
proof -
  define al ah bl bh where d: "al = sint a mod 4294967296" "ah = sint a div 4294967296"
    "bl = uint b mod 4294967296" "bh = uint b div 4294967296"
  have l: "0 \<le> al" "al < 4294967296" "0 \<le> bl" "bl < 4294967296" by (simp_all add: d)
  have h: "- 2147483648 \<le> ah" "ah < 2147483648" "0 \<le> bh" "bh < 4294967296"
    unfolding d by (rule u64_digits)+
  let ?r0 = "al * bl div 4294967296 + ah * bl"
  have x: "0 \<le> al * bl" "al * bl < 18446744073709551616" using mul_bounds_unsigned [OF l] by linarith+
  have xd: "0 \<le> al * bl div 4294967296" "al * bl div 4294967296 < 4294967296" 
    by (rule int_div_lower int_div_upper; use x in linarith)+
  have r0: "- 9223372036854775808 \<le> ?r0" "?r0 < 9223372036854775808"
    using mul_bounds_signed [OF h(1,2) l(3,4)] xd by linarith+
  have m: "0 \<le> ?r0 mod 4294967296" "?r0 mod 4294967296 < 4294967296" by simp_all
  have r1: "0 \<le> ?r0 mod 4294967296 + al * bh" "?r0 mod 4294967296 + al * bh < 18446744073709551616"
    using mul_bounds_unsigned [OF h(3,4) l(1,2)] m mult.commute [of al bh] by linarith+
  have "sim_mulhsu a b = word_of_int (ah * bh + ?r0 div 4294967296 + (?r0 mod 4294967296 + al * bh) div 4294967296)"
    unfolding sim_mulhsu_def Let_def u64_digits(1) [of a] u64_digits(3) [of a]
      u64_digits(2) [of b] u64_digits(4) [of b] d [symmetric]
    by (simp only: of_int_mult [symmetric] of_int_add [symmetric] drop_bit_word_of_int [OF x]
        kLoMask_word_of_int signed_drop_bit_word_of_int [OF r0] drop_bit_word_of_int [OF r1])
  also have "\<dots> = word_of_int ((ah * 4294967296 + al) * (bh * 4294967296 + bl) div (4294967296 * 4294967296))"
    by (simp only: int_mul_high zero_less_numeral)
  also have "ah * 4294967296 + al = sint a"
    unfolding d by (rule int_digits)
  also have "bh * 4294967296 + bl = uint b"
    unfolding d by (rule int_digits)
  finally show ?thesis by (simp only: digit_square)
qed

text \<open>The high word of a product of 64-bit numbers is in range.\<close>

lemma high_word_range:
  fixes x y :: int
  assumes "\<bar>x\<bar> \<le> a" and "\<bar>y\<bar> \<le> b" and "a * b < c * 2 ^ 64"
  shows "- c \<le> (x * y) div 2 ^ 64" and "(x * y) div 2 ^ 64 < c"
proof -
  have "\<bar>x * y\<bar> \<le> a * b" unfolding abs_mult using assms by (intro mult_mono) auto
  then have "- c * 2 ^ 64 \<le> x * y" "x * y < c * 2 ^ 64" using assms(3) by linarith+
  then show "- c \<le> (x * y) div 2 ^ 64" "(x * y) div 2 ^ 64 < c"
    by (auto intro: int_div_lower int_div_upper)
qed

lemma abs_sint_u64: "\<bar>sint (x :: u64)\<bar> \<le> 2 ^ 63"
  using sint_range_size [of x] by (simp add: word_size abs_le_iff)

lemma sint_sim_mulh: "sint (sim_mulh x y) = (sint x * sint y) div 2 ^ 64"
  using high_word_range [OF abs_sint_u64 [of x] abs_sint_u64 [of y], of "2 ^ 63"]
  unfolding sim_mulh_eq by (intro sint_word_of_int_fits) simp_all

lemma sint_sim_mulhsu: "sint (sim_mulhsu x y) = (sint x * uint y) div 2 ^ 64"
proof -
  have "\<bar>uint y\<bar> \<le> 2 ^ 64 - 1" using uint_range_size [of y] by (simp add: word_size)
  from high_word_range [OF abs_sint_u64 [of x] this, of "2 ^ 63"]
  show ?thesis unfolding sim_mulhsu_eq by (intro sint_word_of_int_fits) simp_all
qed

lemma uint_sim_mulhu: "uint (sim_mulhu x y) = (uint x * uint y) div 2 ^ 64"
proof -
  have r: "\<bar>uint z\<bar> \<le> 2 ^ 64 - 1" for z :: u64 using uint_range_size [of z] by (simp add: word_size)
  have "0 \<le> (uint x * uint y) div 2 ^ 64" "(uint x * uint y) div 2 ^ 64 < 2 ^ 64"
    using high_word_range [OF r [of x] r [of y], of "2 ^ 64"] by (simp_all add: pos_imp_zdiv_nonneg_iff)
  then show ?thesis unfolding sim_mulhu_eq by (simp add: uint_word_of_int_eq take_bit_int_eq_self)
qed

subsection \<open>Division\<close>

text \<open>
  The contract of the RISC-V manual: the quotient is truncated and the remainder has the
  sign of the dividend, over the integers; division by zero and the quotient that is not
  representable have the results fixed by the manual.
\<close>

definition signed_division :: "int \<Rightarrow> int \<Rightarrow> int \<Rightarrow> int \<Rightarrow> int \<Rightarrow> bool" where
  "signed_division smallest x y q r \<longleftrightarrow>
     (if y = 0 then q = - 1 \<and> r = x
      else if x = smallest \<and> y = - 1 then q = smallest \<and> r = 0
      else x = q * y + r \<and> \<bar>r\<bar> < \<bar>y\<bar> \<and> (r = 0 \<or> sgn r = sgn x))"

definition unsigned_division :: "int \<Rightarrow> int \<Rightarrow> int \<Rightarrow> int \<Rightarrow> int \<Rightarrow> bool" where
  "unsigned_division largest x y q r \<longleftrightarrow>
     (if y = 0 then q = largest \<and> r = x else x = q * y + r \<and> 0 \<le> r \<and> r < y)"

lemma abs_smod_less: "b \<noteq> 0 \<Longrightarrow> \<bar>a smod b\<bar> < \<bar>b\<bar>" for a b :: int
  by (auto simp: signed_modulo_int_def sgn_if abs_mod_less)

lemma sgn_smod: "a smod b = 0 \<or> sgn (a smod b) = sgn a" for a b :: int
proof (cases "b = 0 \<or> \<bar>a\<bar> mod \<bar>b\<bar> = 0")
  case False
  then have "0 < \<bar>a\<bar> mod \<bar>b\<bar>" using pos_mod_sign [of "\<bar>b\<bar>" "\<bar>a\<bar>"] by linarith
  then show ?thesis by (simp add: signed_modulo_int_def sgn_mult)
qed (auto simp: signed_modulo_int_def sgn_mult)

lemma abs_sdiv_le: "\<bar>a sdiv b\<bar> \<le> \<bar>a\<bar>" for a b :: int
proof -
  have "\<bar>a\<bar> div \<bar>b\<bar> \<le> \<bar>a\<bar>" using zdiv_mono2 [of "\<bar>a\<bar>" 1 "\<bar>b\<bar>"] by (cases "b = 0") auto
  moreover have "0 \<le> \<bar>a\<bar> div \<bar>b\<bar>" by (cases "b = 0") (simp_all add: pos_imp_zdiv_nonneg_iff)
  ultimately show ?thesis
    by (cases "a = 0"; cases "b = 0") (simp_all add: signed_divide_int_def abs_mult abs_sgn_eq)
qed

lemma sint_smallest: "sint (push_bit (LENGTH('a) - 1) 1 :: 'a::len word) = - (2 ^ (LENGTH('a) - 1))"
proof -
  have "(push_bit (LENGTH('a) - 1) 1 :: 'a word) = word_of_int (- (2 ^ (LENGTH('a) - 1)))"
    unfolding minus_exp_eq_not_mask by (rule bit_word_eqI) (auto simp: bit_simps)
  then show ?thesis by (simp only:) (intro sint_word_of_int_fits, simp_all)
qed

lemma sint_eq_iff: "sint a = sint b \<longleftrightarrow> a = b" for a b :: "'a::len word"
  using signed_word_eqI [of a b] by auto

lemma div_overflows_iff:
  "div_overflows a b \<longleftrightarrow> sint a = - (2 ^ (LENGTH('a) - 1)) \<and> sint b = - 1" for a b :: "'a::len word"
  unfolding div_overflows_def sint_smallest [symmetric] using sint_eq_iff [of b "- 1"] sint_eq_iff [of a] by auto

lemma sint_word_sdiv:
  fixes a b :: "'a::len word"
  assumes "\<not> div_overflows a b"
  shows "sint (word_of_int (sint a sdiv sint b) :: 'a word) = sint a sdiv sint b"
proof (rule sint_word_of_int_fits)
  let ?m = "2 ^ (LENGTH('a) - 1) :: int"
  have a: "- ?m \<le> sint a" "sint a < ?m" using sint_range_size [of a] by (simp_all add: word_size)
  note le = abs_sdiv_le [of "sint a" "sint b"]
  show "- ?m \<le> sint a sdiv sint b" using a le by linarith
  show "sint a sdiv sint b < ?m"
  proof (rule ccontr)
    assume "\<not> sint a sdiv sint b < ?m"
    then have q: "sint a sdiv sint b = ?m" "sint a = - ?m" using a le by linarith+
    moreover have "0 < ?m" by simp
    ultimately have "sint a smod sint b = - ?m - ?m * sint b"
      using sdiv_mult_smod_eq [of "sint a" "sint b"] by (simp add: algebra_simps)
    moreover have "sint b \<noteq> 0" using q(1) \<open>0 < ?m\<close> by (auto simp: signed_divide_int_def)
    from abs_smod_less [OF this, of "sint a"] have "\<bar>sint a smod sint b\<bar> < \<bar>sint b\<bar>" .
    moreover have "- ?m - ?m * sint b = - (?m * (1 + sint b))" by (simp add: algebra_simps)
    ultimately have less: "?m * \<bar>1 + sint b\<bar> < \<bar>sint b\<bar>" by (simp only: abs_minus_cancel abs_mult) simp
    have "sint b \<noteq> - 1" using assms q(2) by (simp add: div_overflows_iff)
    moreover have "1 * \<bar>1 + sint b\<bar> \<le> ?m * \<bar>1 + sint b\<bar>" by (intro mult_right_mono) simp_all
    moreover from this have "\<bar>1 + sint b\<bar> < \<bar>sint b\<bar>" using less by simp
    ultimately have "sint b < - 1" using \<open>sint b \<noteq> 0\<close> by arith
    moreover have "?m * 1 \<le> ?m * \<bar>1 + sint b\<bar>" using \<open>sint b \<noteq> - 1\<close> by (intro mult_left_mono) simp_all
    then have "?m < \<bar>sint b\<bar>" using less by linarith
    moreover have "- ?m \<le> sint b" using sint_range_size [of b] by (simp add: word_size)
    ultimately show False by linarith
  qed
qed

lemma sint_word_smod:
  fixes a b :: "'a::len word"
  assumes "b \<noteq> 0"
  shows "sint (word_of_int (sint a smod sint b) :: 'a word) = sint a smod sint b"
proof (rule sint_word_of_int_fits)
  let ?m = "2 ^ (LENGTH('a) - 1) :: int"
  have "sint b \<noteq> 0" using assms sint_eq_iff [of b 0] by simp
  from abs_smod_less [OF this, of "sint a"] have "\<bar>sint a smod sint b\<bar> < \<bar>sint b\<bar>" .
  moreover have "- ?m \<le> sint b" "sint b < ?m" using sint_range_size [of b] by (simp_all add: word_size)
  ultimately show "- ?m \<le> sint a smod sint b" "sint a smod sint b < ?m" by linarith+
qed

text \<open>The guards of the source cover exactly the undefined cases of the operators.\<close>

lemma guarded_signed_division:
  fixes a b :: "'a::len word"
  shows "\<exists>q r. (if b = 0 then Some (- 1) else if div_overflows a b then Some a else signed_quotient a b) = Some q \<and>
    (if b = 0 then Some a else if div_overflows a b then Some 0 else signed_remainder a b) = Some r \<and>
    signed_division (- (2 ^ (LENGTH('a) - 1))) (sint a) (sint b) (sint q) (sint r)"
proof -
  have "sint b = 0 \<longleftrightarrow> b = 0" using sint_eq_iff [of b 0] by simp
  then show ?thesis
    using sdiv_mult_smod_eq [of "sint a" "sint b"] abs_smod_less [of "sint b" "sint a"] sgn_smod [of "sint a" "sint b"]
      sint_word_sdiv [of a b] sint_word_smod [of b a]
    by (auto simp: signed_division_def signed_quotient_def signed_remainder_def div_overflows_iff)
qed

lemma guarded_unsigned_division:
  fixes a b :: "'a::len word"
  shows "\<exists>q r. (if b = 0 then Some (- 1) else unsigned_quotient a b) = Some q \<and>
    (if b = 0 then Some a else unsigned_remainder a b) = Some r \<and>
    unsigned_division (2 ^ LENGTH('a) - 1) (uint a) (uint b) (uint q) (uint r)"
proof -
  have "uint b = 0 \<longleftrightarrow> b = 0" by (simp add: uint_0_iff)
  moreover from this have mod: "uint a mod uint b < uint b" if "b \<noteq> 0"
    using that uint_ge_0 [of b] by (intro pos_mod_bound) linarith
  ultimately show ?thesis
    using mod
    by (auto simp: unsigned_division_def unsigned_quotient_def unsigned_remainder_def uint_div_distrib uint_mod_distrib
        unsigned_minus_1_eq_mask mask_eq_exp_minus_1)
qed

lemma sim_division:
  "\<exists>q r. sim_div a b = Some q \<and> sim_rem a b = Some r \<and> signed_division (- (2 ^ 63)) (sint a) (sint b) (sint q) (sint r)"
  "\<exists>q r. sim_divu a b = Some q \<and> sim_remu a b = Some r \<and>
     unsigned_division (2 ^ 64 - 1) (uint a) (uint b) (uint q) (uint r)"
  "\<exists>q r. sim_divw c d = Some q \<and> sim_remw c d = Some r \<and>
     signed_division (- (2 ^ 31)) (sint c) (sint d) (sint q) (sint r)"
  "\<exists>q r. sim_divuw c d = Some q \<and> sim_remuw c d = Some r \<and>
     unsigned_division (2 ^ 32 - 1) (uint c) (uint d) (uint q) (uint r)"
proof -
  have "sim_div a b = (if b = 0 then Some (- 1) else if div_overflows a b then Some a else signed_quotient a b)"
    "sim_rem a b = (if b = 0 then Some a else if div_overflows a b then Some 0 else signed_remainder a b)"
    "sim_divw c d = (if d = 0 then Some (- 1) else if div_overflows c d then Some c else signed_quotient c d)"
    "sim_remw c d = (if d = 0 then Some c else if div_overflows c d then Some 0 else signed_remainder c d)"
    by (simp_all add: sim_div_def sim_rem_def sim_divw_def sim_remw_def div_overflows_def)
  with guarded_signed_division [of b a] guarded_signed_division [of d c]
    guarded_unsigned_division [of b a] guarded_unsigned_division [of d c]
  show "\<exists>q r. sim_div a b = Some q \<and> sim_rem a b = Some r \<and> signed_division (- (2 ^ 63)) (sint a) (sint b) (sint q) (sint r)"
    "\<exists>q r. sim_divu a b = Some q \<and> sim_remu a b = Some r \<and>
       unsigned_division (2 ^ 64 - 1) (uint a) (uint b) (uint q) (uint r)"
    "\<exists>q r. sim_divw c d = Some q \<and> sim_remw c d = Some r \<and>
       signed_division (- (2 ^ 31)) (sint c) (sint d) (sint q) (sint r)"
    "\<exists>q r. sim_divuw c d = Some q \<and> sim_remuw c d = Some r \<and>
       unsigned_division (2 ^ 32 - 1) (uint c) (uint d) (uint q) (uint r)"
    by (simp_all add: sim_divu_def sim_remu_def sim_divuw_def sim_remuw_def)
qed

lemma retire_division [simp]:
  "retire_defined instr (sim_div a b) s = retire_rd instr (the (sim_div a b)) s"
  "retire_defined instr (sim_rem a b) s = retire_rd instr (the (sim_rem a b)) s"
  "retire_defined instr (sim_divu a b) s = retire_rd instr (the (sim_divu a b)) s"
  "retire_defined instr (sim_remu a b) s = retire_rd instr (the (sim_remu a b)) s"
  using sim_division(1,2) [of a b] by (auto simp: retire_defined_def)

lemma retire_division_word [simp]:
  "retire_defined instr (map_option sign_extend32 (sim_divw c d)) s = retire_rd instr (sign_extend32 (the (sim_divw c d))) s"
  "retire_defined instr (map_option sign_extend32 (sim_remw c d)) s = retire_rd instr (sign_extend32 (the (sim_remw c d))) s"
  "retire_defined instr (map_option sign_extend32 (sim_divuw c d)) s = retire_rd instr (sign_extend32 (the (sim_divuw c d))) s"
  "retire_defined instr (map_option sign_extend32 (sim_remuw c d)) s = retire_rd instr (sign_extend32 (the (sim_remuw c d))) s"
  using sim_division(3,4) [of c d] by (auto simp: retire_defined_def)

end
