(* ===== verification/Riscv_Sim_FP.thy ===== *)
theory Riscv_Sim_FP
  imports Riscv_Sim_Int
begin

text \<open>
  Floating-point instructions of \<open>runtime/vm/simulator_riscv.cc\<close>.

  Registers hold bit patterns.  What the simulator does itself is modelled on
  the patterns: NaN boxing, sign injection, comparison, classification, the
  saturation tests of the conversions, rounding to even built from \<open>roundf\<close>, and
  moves between register files.  The arithmetic of the host (\<open>+\<close>, \<open>-\<close>, \<open>*\<close>,
  \<open>/\<close>, \<open>sqrt\<close>, \<open>fmod\<close>, the C rounding functions, \<open>fmin\<close>, \<open>fmax\<close> and the
  conversions between number types) is a parameter, the record \<open>fpu\<close>.
\<close>

unbundle bit_operations_syntax

record fpu =
  host_add_s :: "u32 \<Rightarrow> u32 \<Rightarrow> u32"
  host_sub_s :: "u32 \<Rightarrow> u32 \<Rightarrow> u32"
  host_mul_s :: "u32 \<Rightarrow> u32 \<Rightarrow> u32"
  host_div_s :: "u32 \<Rightarrow> u32 \<Rightarrow> u32"
  host_fmod_s :: "u32 \<Rightarrow> u32 \<Rightarrow> u32"
  host_fmin_s :: "u32 \<Rightarrow> u32 \<Rightarrow> u32"
  host_fmax_s :: "u32 \<Rightarrow> u32 \<Rightarrow> u32"
  host_sqrt_s :: "u32 \<Rightarrow> u32"
  host_round_s :: "u32 \<Rightarrow> u32"
  host_trunc_s :: "u32 \<Rightarrow> u32"
  host_floor_s :: "u32 \<Rightarrow> u32"
  host_ceil_s :: "u32 \<Rightarrow> u32"
  host_of_int_s :: "int \<Rightarrow> u32"
  host_to_int_s :: "u32 \<Rightarrow> int"
  host_add_d :: "u64 \<Rightarrow> u64 \<Rightarrow> u64"
  host_sub_d :: "u64 \<Rightarrow> u64 \<Rightarrow> u64"
  host_mul_d :: "u64 \<Rightarrow> u64 \<Rightarrow> u64"
  host_div_d :: "u64 \<Rightarrow> u64 \<Rightarrow> u64"
  host_fmod_d :: "u64 \<Rightarrow> u64 \<Rightarrow> u64"
  host_fmin_d :: "u64 \<Rightarrow> u64 \<Rightarrow> u64"
  host_fmax_d :: "u64 \<Rightarrow> u64 \<Rightarrow> u64"
  host_sqrt_d :: "u64 \<Rightarrow> u64"
  host_round_d :: "u64 \<Rightarrow> u64"
  host_trunc_d :: "u64 \<Rightarrow> u64"
  host_floor_d :: "u64 \<Rightarrow> u64"
  host_ceil_d :: "u64 \<Rightarrow> u64"
  host_of_int_d :: "int \<Rightarrow> u64"
  host_to_int_d :: "u64 \<Rightarrow> int"
  host_s_of_d :: "u64 \<Rightarrow> u32"
  host_d_of_s :: "u32 \<Rightarrow> u64"

subsection \<open>Bit patterns of binary floating-point numbers\<close>

text \<open>
  \<open>fp_key\<close> orders the non-NaN patterns as their values (both zeros are 0);
  a comparison with a NaN is false.
\<close>

definition fp_mag_s :: "u32 \<Rightarrow> u32" where
  "fp_mag_s v = take_bit 31 v"

definition fp_isnan_s :: "u32 \<Rightarrow> bool" where
  "fp_isnan_s v = (fp_mag_s v > 0x7F800000)"

definition fp_key_s :: "u32 \<Rightarrow> int" where
  "fp_key_s v = (if bit v 31 then - uint (fp_mag_s v) else uint (fp_mag_s v))"

definition fp_lt_s :: "u32 \<Rightarrow> u32 \<Rightarrow> bool" where
  "fp_lt_s v w = (\<not> fp_isnan_s v \<and> \<not> fp_isnan_s w \<and> fp_key_s v < fp_key_s w)"

definition fp_le_s :: "u32 \<Rightarrow> u32 \<Rightarrow> bool" where
  "fp_le_s v w = (\<not> fp_isnan_s v \<and> \<not> fp_isnan_s w \<and> fp_key_s v \<le> fp_key_s w)"

definition fp_eq_s :: "u32 \<Rightarrow> u32 \<Rightarrow> bool" where
  "fp_eq_s v w = (\<not> fp_isnan_s v \<and> \<not> fp_isnan_s w \<and> fp_key_s v = fp_key_s w)"

definition fp_neg_s :: "u32 \<Rightarrow> u32" where
  "fp_neg_s v = v XOR push_bit 31 1"

definition fp_mag_d :: "u64 \<Rightarrow> u64" where
  "fp_mag_d v = take_bit 63 v"

definition fp_isnan_d :: "u64 \<Rightarrow> bool" where
  "fp_isnan_d v = (fp_mag_d v > 0x7FF0000000000000)"

definition fp_key_d :: "u64 \<Rightarrow> int" where
  "fp_key_d v = (if bit v 63 then - uint (fp_mag_d v) else uint (fp_mag_d v))"

definition fp_lt_d :: "u64 \<Rightarrow> u64 \<Rightarrow> bool" where
  "fp_lt_d v w = (\<not> fp_isnan_d v \<and> \<not> fp_isnan_d w \<and> fp_key_d v < fp_key_d w)"

definition fp_le_d :: "u64 \<Rightarrow> u64 \<Rightarrow> bool" where
  "fp_le_d v w = (\<not> fp_isnan_d v \<and> \<not> fp_isnan_d w \<and> fp_key_d v \<le> fp_key_d w)"

definition fp_eq_d :: "u64 \<Rightarrow> u64 \<Rightarrow> bool" where
  "fp_eq_d v w = (\<not> fp_isnan_d v \<and> \<not> fp_isnan_d w \<and> fp_key_d v = fp_key_d w)"

definition fp_neg_d :: "u64 \<Rightarrow> u64" where
  "fp_neg_d v = v XOR push_bit 63 1"

subsection \<open>Fused multiply-add family\<close>

definition InterpretFMADD :: "fpu \<Rightarrow> Instr \<Rightarrow> sim \<Rightarrow> sim_error + sim" where
  "InterpretFMADD h instr s =
     (let funct2 = DecodeFunct2 instr
      in if funct2 = f2_S then
           (let rs1 = get_fregs s (DecodeFRs1 instr); rs2 = get_fregs s (DecodeFRs2 instr);
                rs3 = get_fregs s (DecodeFRs3 instr)
            in Inr (pc_add 4 (set_fregs (DecodeFRd instr) (host_add_s h (host_mul_s h rs1 rs2) rs3) s)))
         else if funct2 = f2_D then
           (let rs1 = get_fregd s (DecodeFRs1 instr); rs2 = get_fregd s (DecodeFRs2 instr);
                rs3 = get_fregd s (DecodeFRs3 instr)
            in Inr (pc_add 4 (set_fregd (DecodeFRd instr) (host_add_d h (host_mul_d h rs1 rs2) rs3) s)))
         else Inl (IllegalInstruction instr))"

definition InterpretFMSUB :: "fpu \<Rightarrow> Instr \<Rightarrow> sim \<Rightarrow> sim_error + sim" where
  "InterpretFMSUB h instr s =
     (let funct2 = DecodeFunct2 instr
      in if funct2 = f2_S then
           (let rs1 = get_fregs s (DecodeFRs1 instr); rs2 = get_fregs s (DecodeFRs2 instr);
                rs3 = get_fregs s (DecodeFRs3 instr)
            in Inr (pc_add 4 (set_fregs (DecodeFRd instr) (host_sub_s h (host_mul_s h rs1 rs2) rs3) s)))
         else if funct2 = f2_D then
           (let rs1 = get_fregd s (DecodeFRs1 instr); rs2 = get_fregd s (DecodeFRs2 instr);
                rs3 = get_fregd s (DecodeFRs3 instr)
            in Inr (pc_add 4 (set_fregd (DecodeFRd instr) (host_sub_d h (host_mul_d h rs1 rs2) rs3) s)))
         else Inl (IllegalInstruction instr))"

definition InterpretFNMSUB :: "fpu \<Rightarrow> Instr \<Rightarrow> sim \<Rightarrow> sim_error + sim" where
  "InterpretFNMSUB h instr s =
     (let funct2 = DecodeFunct2 instr
      in if funct2 = f2_S then
           (let rs1 = get_fregs s (DecodeFRs1 instr); rs2 = get_fregs s (DecodeFRs2 instr);
                rs3 = get_fregs s (DecodeFRs3 instr)
            in Inr (pc_add 4 (set_fregs (DecodeFRd instr) (host_add_s h (fp_neg_s (host_mul_s h rs1 rs2)) rs3) s)))
         else if funct2 = f2_D then
           (let rs1 = get_fregd s (DecodeFRs1 instr); rs2 = get_fregd s (DecodeFRs2 instr);
                rs3 = get_fregd s (DecodeFRs3 instr)
            in Inr (pc_add 4 (set_fregd (DecodeFRd instr) (host_add_d h (fp_neg_d (host_mul_d h rs1 rs2)) rs3) s)))
         else Inl (IllegalInstruction instr))"

definition InterpretFNMADD :: "fpu \<Rightarrow> Instr \<Rightarrow> sim \<Rightarrow> sim_error + sim" where
  "InterpretFNMADD h instr s =
     (let funct2 = DecodeFunct2 instr
      in if funct2 = f2_S then
           (let rs1 = get_fregs s (DecodeFRs1 instr); rs2 = get_fregs s (DecodeFRs2 instr);
                rs3 = get_fregs s (DecodeFRs3 instr)
            in Inr (pc_add 4 (set_fregs (DecodeFRd instr) (host_sub_s h (fp_neg_s (host_mul_s h rs1 rs2)) rs3) s)))
         else if funct2 = f2_D then
           (let rs1 = get_fregd s (DecodeFRs1 instr); rs2 = get_fregd s (DecodeFRs2 instr);
                rs3 = get_fregd s (DecodeFRs3 instr)
            in Inr (pc_add 4 (set_fregd (DecodeFRd instr) (host_sub_d h (fp_neg_d (host_mul_d h rs1 rs2)) rs3) s)))
         else Inl (IllegalInstruction instr))"

subsection \<open>Classification\<close>

definition is_quiet_s :: "u32 \<Rightarrow> bool" where
  "is_quiet_s v = (v AND push_bit 22 1 \<noteq> 0)"

definition fclass_s :: "u32 \<Rightarrow> u64" where
  "fclass_s v =
     (let sign = bit v 31; mag = fp_mag_s v
      in if mag = 0x7F800000 then (if sign then push_bit 0 1 else push_bit 7 1)
         else if mag > 0x7F800000 then (if is_quiet_s v then push_bit 9 1 else push_bit 8 1)
         else if mag = 0 then (if sign then push_bit 3 1 else push_bit 4 1)
         else if mag < 0x00800000 then (if sign then push_bit 2 1 else push_bit 5 1)
         else (if sign then push_bit 1 1 else push_bit 6 1))"

definition is_quiet_d :: "u64 \<Rightarrow> bool" where
  "is_quiet_d v = (v AND push_bit 51 1 \<noteq> 0)"

definition fclass_d :: "u64 \<Rightarrow> u64" where
  "fclass_d v =
     (let sign = bit v 63; mag = fp_mag_d v
      in if mag = 0x7FF0000000000000 then (if sign then push_bit 0 1 else push_bit 7 1)
         else if mag > 0x7FF0000000000000 then (if is_quiet_d v then push_bit 9 1 else push_bit 8 1)
         else if mag = 0 then (if sign then push_bit 3 1 else push_bit 4 1)
         else if mag < 0x0010000000000000 then (if sign then push_bit 2 1 else push_bit 5 1)
         else (if sign then push_bit 1 1 else push_bit 6 1))"

subsection \<open>Rounding and conversion to integers\<close>

definition roundevenf :: "fpu \<Rightarrow> u32 \<Rightarrow> sim_error + u32" where
  "roundevenf h x =
     (let rounded = host_round_s h x
      in if fp_eq_s (fp_mag_s (host_sub_s h x rounded)) 0x3F000000
            \<and> \<not> fp_eq_s (host_fmod_s h rounded 0x40000000) 0
         then let rounded' = (if fp_lt_s 0 rounded then host_sub_s h rounded 0x3F800000
                              else host_add_s h rounded 0x3F800000)
              in if fp_eq_s (host_fmod_s h rounded' 0x40000000) 0 then Inr rounded' else Inl AssertFailed
         else Inr rounded)"

definition Round_s :: "fpu \<Rightarrow> u32 \<Rightarrow> RoundingMode \<Rightarrow> sim_error + u32" where
  "Round_s h x rounding =
     (if rounding = rm_RNE then roundevenf h x
      else if rounding = rm_RTZ then Inr (host_trunc_s h x)
      else if rounding = rm_RDN then Inr (host_floor_s h x)
      else if rounding = rm_RUP then Inr (host_ceil_s h x)
      else if rounding = rm_RMM then Inr (host_round_s h x)
      else if rounding = rm_DYN then Inl Unimplemented
      else Inl InvalidRoundingMode)"

definition roundeven :: "fpu \<Rightarrow> u64 \<Rightarrow> sim_error + u64" where
  "roundeven h x =
     (let rounded = host_round_d h x
      in if fp_eq_d (fp_mag_d (host_sub_d h x rounded)) 0x3FE0000000000000
            \<and> \<not> fp_eq_d (host_fmod_d h rounded 0x4000000000000000) 0
         then let rounded' = (if fp_lt_d 0 rounded then host_sub_d h rounded 0x3FF0000000000000
                              else host_add_d h rounded 0x3FF0000000000000)
              in if fp_eq_d (host_fmod_d h rounded' 0x4000000000000000) 0 then Inr rounded' else Inl AssertFailed
         else Inr rounded)"

definition Round_d :: "fpu \<Rightarrow> u64 \<Rightarrow> RoundingMode \<Rightarrow> sim_error + u64" where
  "Round_d h x rounding =
     (if rounding = rm_RNE then roundeven h x
      else if rounding = rm_RTZ then Inr (host_trunc_d h x)
      else if rounding = rm_RDN then Inr (host_floor_d h x)
      else if rounding = rm_RUP then Inr (host_ceil_d h x)
      else if rounding = rm_RMM then Inr (host_round_d h x)
      else if rounding = rm_DYN then Inl Unimplemented
      else Inl InvalidRoundingMode)"

definition sim_fcvtws :: "fpu \<Rightarrow> u32 \<Rightarrow> RoundingMode \<Rightarrow> sim_error + u32" where
  "sim_fcvtws h x rounding =
     (if fp_lt_s x (host_of_int_s h (- (2 ^ 31))) then Inr (word_of_int (- (2 ^ 31)))
      else if fp_lt_s x (host_of_int_s h (2 ^ 31 - 1))
      then bindE (Round_s h x rounding) (\<lambda>r. Inr (word_of_int (host_to_int_s h r)))
      else Inr (word_of_int (2 ^ 31 - 1)))"

definition sim_fcvtwus :: "fpu \<Rightarrow> u32 \<Rightarrow> RoundingMode \<Rightarrow> sim_error + u32" where
  "sim_fcvtwus h x rounding =
     (if fp_lt_s x (host_of_int_s h (0)) then Inr (word_of_int (0))
      else if fp_lt_s x (host_of_int_s h (2 ^ 32 - 1))
      then bindE (Round_s h x rounding) (\<lambda>r. Inr (word_of_int (host_to_int_s h r)))
      else Inr (word_of_int (2 ^ 32 - 1)))"

definition sim_fcvtls :: "fpu \<Rightarrow> u32 \<Rightarrow> RoundingMode \<Rightarrow> sim_error + u64" where
  "sim_fcvtls h x rounding =
     (if fp_lt_s x (host_of_int_s h (- (2 ^ 63))) then Inr (word_of_int (- (2 ^ 63)))
      else if fp_lt_s x (host_of_int_s h (2 ^ 63 - 1))
      then bindE (Round_s h x rounding) (\<lambda>r. Inr (word_of_int (host_to_int_s h r)))
      else Inr (word_of_int (2 ^ 63 - 1)))"

definition sim_fcvtlus :: "fpu \<Rightarrow> u32 \<Rightarrow> RoundingMode \<Rightarrow> sim_error + u64" where
  "sim_fcvtlus h x rounding =
     (if fp_lt_s x (host_of_int_s h (0)) then Inr (word_of_int (0))
      else if fp_lt_s x (host_of_int_s h (2 ^ 64 - 1))
      then bindE (Round_s h x rounding) (\<lambda>r. Inr (word_of_int (host_to_int_s h r)))
      else Inr (word_of_int (2 ^ 64 - 1)))"

definition sim_fcvtwd :: "fpu \<Rightarrow> u64 \<Rightarrow> RoundingMode \<Rightarrow> sim_error + u32" where
  "sim_fcvtwd h x rounding =
     (if fp_lt_d x (host_of_int_d h (- (2 ^ 31))) then Inr (word_of_int (- (2 ^ 31)))
      else if fp_lt_d x (host_of_int_d h (2 ^ 31 - 1))
      then bindE (Round_d h x rounding) (\<lambda>r. Inr (word_of_int (host_to_int_d h r)))
      else Inr (word_of_int (2 ^ 31 - 1)))"

definition sim_fcvtwud :: "fpu \<Rightarrow> u64 \<Rightarrow> RoundingMode \<Rightarrow> sim_error + u32" where
  "sim_fcvtwud h x rounding =
     (if fp_lt_d x (host_of_int_d h (0)) then Inr (word_of_int (0))
      else if fp_lt_d x (host_of_int_d h (2 ^ 32 - 1))
      then bindE (Round_d h x rounding) (\<lambda>r. Inr (word_of_int (host_to_int_d h r)))
      else Inr (word_of_int (2 ^ 32 - 1)))"

definition sim_fcvtld :: "fpu \<Rightarrow> u64 \<Rightarrow> RoundingMode \<Rightarrow> sim_error + u64" where
  "sim_fcvtld h x rounding =
     (if fp_lt_d x (host_of_int_d h (- (2 ^ 63))) then Inr (word_of_int (- (2 ^ 63)))
      else if fp_lt_d x (host_of_int_d h (2 ^ 63 - 1))
      then bindE (Round_d h x rounding) (\<lambda>r. Inr (word_of_int (host_to_int_d h r)))
      else Inr (word_of_int (2 ^ 63 - 1)))"

definition sim_fcvtlud :: "fpu \<Rightarrow> u64 \<Rightarrow> RoundingMode \<Rightarrow> sim_error + u64" where
  "sim_fcvtlud h x rounding =
     (if fp_lt_d x (host_of_int_d h (0)) then Inr (word_of_int (0))
      else if fp_lt_d x (host_of_int_d h (2 ^ 64 - 1))
      then bindE (Round_d h x rounding) (\<lambda>r. Inr (word_of_int (host_to_int_d h r)))
      else Inr (word_of_int (2 ^ 64 - 1)))"

subsection \<open>Arithmetic, comparison, conversion and moves\<close>

text \<open>Results that go to a floating-point or to an integer register.\<close>

definition retire_fs :: "Instr \<Rightarrow> u32 \<Rightarrow> sim \<Rightarrow> sim_error + sim" where
  "retire_fs instr v s = Inr (pc_add 4 (set_fregs (DecodeFRd instr) v s))"

definition retire_fd :: "Instr \<Rightarrow> u64 \<Rightarrow> sim \<Rightarrow> sim_error + sim" where
  "retire_fd instr v s = Inr (pc_add 4 (set_fregd (DecodeFRd instr) v s))"

definition sgnj_s :: "Funct3 \<Rightarrow> u32 \<Rightarrow> u32 \<Rightarrow> u32 option" where
  "sgnj_s funct3 rs1 rs2 =
     (let kSignMask = push_bit 31 1
      in if funct3 = f3_J then Some ((rs1 AND NOT kSignMask) OR (rs2 AND kSignMask))
         else if funct3 = f3_JN then Some ((rs1 AND NOT kSignMask) OR (NOT rs2 AND kSignMask))
         else if funct3 = f3_JX then Some ((rs1 AND NOT kSignMask) OR ((rs1 XOR rs2) AND kSignMask))
         else None)"

definition sgnj_d :: "Funct3 \<Rightarrow> u64 \<Rightarrow> u64 \<Rightarrow> u64 option" where
  "sgnj_d funct3 rs1 rs2 =
     (let kSignMask = push_bit 63 1
      in if funct3 = f3_J then Some ((rs1 AND NOT kSignMask) OR (rs2 AND kSignMask))
         else if funct3 = f3_JN then Some ((rs1 AND NOT kSignMask) OR (NOT rs2 AND kSignMask))
         else if funct3 = f3_JX then Some ((rs1 AND NOT kSignMask) OR ((rs1 XOR rs2) AND kSignMask))
         else None)"

definition InterpretOPFP_s :: "fpu \<Rightarrow> Instr \<Rightarrow> sim \<Rightarrow> sim_error + sim" where
  "InterpretOPFP_s h instr s =
     (let funct7 = DecodeFunct7 instr; funct3 = DecodeFunct3 instr; rounding = DecodeRoundingMode instr;
          rs1 = get_fregs s (DecodeFRs1 instr); rs2 = get_fregs s (DecodeFRs2 instr);
          x1 = get_xreg s (DecodeRs1 instr); sel = (ucast (DecodeRs2 instr) :: u32);
          flag = (\<lambda>b. retire_rd instr (if b then 1 else 0) s)
      in if funct7 = f7_FADDS then retire_fs instr (host_add_s h rs1 rs2) s
         else if funct7 = f7_FSUBS then retire_fs instr (host_sub_s h rs1 rs2) s
         else if funct7 = f7_FMULS then retire_fs instr (host_mul_s h rs1 rs2) s
         else if funct7 = f7_FDIVS then retire_fs instr (host_div_s h rs1 rs2) s
         else if funct7 = f7_FSQRTS then retire_fs instr (host_sqrt_s h rs1) s
         else if funct7 = f7_FSGNJS then
           (case sgnj_s funct3 rs1 rs2 of
              Some result \<Rightarrow> retire_fs instr result s
            | None \<Rightarrow> Inl (IllegalInstruction instr))
         else if funct7 = f7_FMINMAXS then
           (if funct3 = f3_MIN then retire_fs instr (host_fmin_s h rs1 rs2) s
            else if funct3 = f3_MAX then retire_fs instr (host_fmax_s h rs1 rs2) s
            else Inl (IllegalInstruction instr))
         else if funct7 = f7_FCMPS then
           (if funct3 = f3_FEQ then flag (fp_eq_s rs1 rs2)
            else if funct3 = f3_FLT then flag (fp_lt_s rs1 rs2)
            else if funct3 = f3_FLE then flag (fp_le_s rs1 rs2)
            else Inl (IllegalInstruction instr))
         else if funct7 = f7_FCLASSS then
           (if funct3 = 1 then retire_rd instr (fclass_s rs1) s
            else if funct3 = 0 then retire_rd instr (sign_extend32 rs1) s
            else Inl (IllegalInstruction instr))
         else if funct7 = f7_FCVTintS then
           (if sel = fcvt_W then bindE (sim_fcvtws h rs1 rounding) (\<lambda>v. retire_rd instr (sign_extend32 v) s)
            else if sel = fcvt_WU then bindE (sim_fcvtwus h rs1 rounding) (\<lambda>v. retire_rd instr (sign_extend32 v) s)
            else if sel = fcvt_L then bindE (sim_fcvtls h rs1 rounding) (\<lambda>v. retire_rd instr (sign_extend64 v) s)
            else if sel = fcvt_LU then bindE (sim_fcvtlus h rs1 rounding) (\<lambda>v. retire_rd instr (sign_extend64 v) s)
            else Inl (IllegalInstruction instr))
         else if funct7 = f7_FCVTSint then
           (if sel = fcvt_W then retire_fs instr (host_of_int_s h (sint (ucast x1 :: u32))) s
            else if sel = fcvt_WU then retire_fs instr (host_of_int_s h (uint (ucast x1 :: u32))) s
            else if sel = fcvt_L then retire_fs instr (host_of_int_s h (sint x1)) s
            else if sel = fcvt_LU then retire_fs instr (host_of_int_s h (uint x1)) s
            else Inl (IllegalInstruction instr))
         else if funct7 = f7_FMVWX then retire_fs instr (ucast x1) s
         else Inl (IllegalInstruction instr))"

definition InterpretOPFP_d :: "fpu \<Rightarrow> Instr \<Rightarrow> sim \<Rightarrow> sim_error + sim" where
  "InterpretOPFP_d h instr s =
     (let funct7 = DecodeFunct7 instr; funct3 = DecodeFunct3 instr; rounding = DecodeRoundingMode instr;
          rs1 = get_fregd s (DecodeFRs1 instr); rs2 = get_fregd s (DecodeFRs2 instr);
          x1 = get_xreg s (DecodeRs1 instr); sel = (ucast (DecodeRs2 instr) :: u32);
          flag = (\<lambda>b. retire_rd instr (if b then 1 else 0) s)
      in if funct7 = f7_FADDD then retire_fd instr (host_add_d h rs1 rs2) s
         else if funct7 = f7_FSUBD then retire_fd instr (host_sub_d h rs1 rs2) s
         else if funct7 = f7_FMULD then retire_fd instr (host_mul_d h rs1 rs2) s
         else if funct7 = f7_FDIVD then retire_fd instr (host_div_d h rs1 rs2) s
         else if funct7 = f7_FSQRTD then retire_fd instr (host_sqrt_d h rs1) s
         else if funct7 = f7_FSGNJD then
           (case sgnj_d funct3 rs1 rs2 of
              Some result \<Rightarrow> retire_fd instr result s
            | None \<Rightarrow> Inl (IllegalInstruction instr))
         else if funct7 = f7_FMINMAXD then
           (if funct3 = f3_MIN then retire_fd instr (host_fmin_d h rs1 rs2) s
            else if funct3 = f3_MAX then retire_fd instr (host_fmax_d h rs1 rs2) s
            else Inl (IllegalInstruction instr))
         else if funct7 = f7_FCMPD then
           (if funct3 = f3_FEQ then flag (fp_eq_d rs1 rs2)
            else if funct3 = f3_FLT then flag (fp_lt_d rs1 rs2)
            else if funct3 = f3_FLE then flag (fp_le_d rs1 rs2)
            else Inl (IllegalInstruction instr))
         else if funct7 = f7_FCLASSD then
           (if funct3 = 1 then retire_rd instr (fclass_d rs1) s
            else if funct3 = 0 then retire_rd instr (rs1) s
            else Inl (IllegalInstruction instr))
         else if funct7 = f7_FCVTintD then
           (if sel = fcvt_W then bindE (sim_fcvtwd h rs1 rounding) (\<lambda>v. retire_rd instr (sign_extend32 v) s)
            else if sel = fcvt_WU then bindE (sim_fcvtwud h rs1 rounding) (\<lambda>v. retire_rd instr (sign_extend32 v) s)
            else if sel = fcvt_L then bindE (sim_fcvtld h rs1 rounding) (\<lambda>v. retire_rd instr (sign_extend64 v) s)
            else if sel = fcvt_LU then bindE (sim_fcvtlud h rs1 rounding) (\<lambda>v. retire_rd instr (sign_extend64 v) s)
            else Inl (IllegalInstruction instr))
         else if funct7 = f7_FCVTDint then
           (if sel = fcvt_W then retire_fd instr (host_of_int_d h (sint (ucast x1 :: u32))) s
            else if sel = fcvt_WU then retire_fd instr (host_of_int_d h (uint (ucast x1 :: u32))) s
            else if sel = fcvt_L then retire_fd instr (host_of_int_d h (sint x1)) s
            else if sel = fcvt_LU then retire_fd instr (host_of_int_d h (uint x1)) s
            else Inl (IllegalInstruction instr))
         else if funct7 = f7_FMVDX then retire_fd instr (x1) s
         else if funct7 = f7_FCVTS then
           (if sel = 1 then retire_fs instr (host_s_of_d h rs1) s else Inl (IllegalInstruction instr))
         else if funct7 = f7_FCVTD then
           (if sel = 0 then retire_fd instr (host_d_of_s h (get_fregs s (DecodeFRs1 instr))) s
            else Inl (IllegalInstruction instr))
         else Inl (IllegalInstruction instr))"

text \<open>
  The cases of \<open>InterpretOPFP\<close> for \<open>float\<close> and for \<open>double\<close> have distinct
  \<open>funct7\<close> values; the conversions between the two formats are with \<open>double\<close>.
\<close>

definition InterpretOPFP :: "fpu \<Rightarrow> Instr \<Rightarrow> sim \<Rightarrow> sim_error + sim" where
  "InterpretOPFP h instr s =
     (if DecodeFunct7 instr \<in> {f7_FADDS, f7_FSUBS, f7_FMULS, f7_FDIVS, f7_FSQRTS, f7_FSGNJS, f7_FMINMAXS,
                               f7_FCMPS, f7_FCLASSS, f7_FCVTintS, f7_FCVTSint, f7_FMVWX}
      then InterpretOPFP_s h instr s
      else InterpretOPFP_d h instr s)"

declare InterpretFMADD_def [interp_defs] InterpretFMSUB_def [interp_defs] InterpretFNMADD_def [interp_defs]
  InterpretFNMSUB_def [interp_defs] InterpretOPFP_def [interp_defs] InterpretOPFP_s_def [interp_defs]
  InterpretOPFP_d_def [interp_defs] retire_fs_def [interp_defs] retire_fd_def [interp_defs]

end
