(* ===== verification/Riscv_Simulator.thy ===== *)
theory Riscv_Simulator
  imports Riscv_Sim_FP
begin

text \<open>
  System instructions, the dispatch on opcodes, the compressed instructions, the
  execution loop and the call interface of \<open>runtime/vm/simulator_riscv.cc\<close>.

  The host functions that simulated code may call through an \<open>ECALL\<close> redirection
  are the parameter \<open>host\<close>: a function reached by its address acts on the whole
  state and either returns or leaves by a long jump (\<open>Simulator::JumpToFrame\<close>).
  The loop \<open>Simulator::Execute\<close> may run forever; it is a partial function whose
  value is \<open>None\<close> then.  Tracing output is not modelled.
\<close>

unbundle bit_operations_syntax

subsection \<open>Host functions\<close>

datatype 'a outcome = Returned 'a sim | Thrown sim

record host =
  host_fpu :: fpu
  host_runtime_call :: "u64 \<Rightarrow> u64 \<Rightarrow> sim \<Rightarrow> unit outcome"
  host_leaf_call :: "u64 \<Rightarrow> u64 list \<Rightarrow> sim \<Rightarrow> u64 outcome"
  host_leaf_float_call :: "u64 \<Rightarrow> u64 list \<Rightarrow> sim \<Rightarrow> u64 outcome"
  host_native_call :: "u64 \<Rightarrow> u64 \<Rightarrow> u64 \<Rightarrow> sim \<Rightarrow> unit outcome"

text \<open>Register lists are bit masks.\<close>

definition RegList :: "nat list \<Rightarrow> u32" where
  "RegList rs = foldr (\<lambda>r acc. push_bit r 1 OR acc) rs 0"

definition kAbiVolatileCpuRegs :: u32 where
  "kAbiVolatileCpuRegs = RegList [10, 11, 12, 13, 14, 15, 16, 17, 5, 6, 7, 28, 29, 30, 31]"

definition kAbiPreservedCpuRegs :: u32 where
  "kAbiPreservedCpuRegs = RegList [9, 18, 19, 20, 21, 22, 23, 24, 25, 26, 27]"

definition kAbiVolatileFpuRegs :: u32 where
  "kAbiVolatileFpuRegs =
     RegList [10, 11, 12, 13, 14, 15, 16, 17, 0, 1, 2, 3, 4, 5, 6, 7, 28, 29, 30, 31]"

definition randomize_xreg :: "nat \<Rightarrow> sim \<Rightarrow> sim" where
  "randomize_xreg i s =
     (let (v, st) = Random_NextUInt64 (random s)
      in s\<lparr>xregs := (xregs s)(of_nat i := v), random := st\<rparr>)"

definition clobber_registers :: "sim \<Rightarrow> sim" where
  "clobber_registers s =
     fold (\<lambda>i s. if kAbiVolatileFpuRegs AND push_bit i 1 \<noteq> 0
                 then s\<lparr>fregs := (fregs s)(of_nat i := kNaNBox)\<rparr> else s) [0..<32]
       (fold (\<lambda>i s. if kAbiVolatileCpuRegs AND push_bit i 1 \<noteq> 0
                    then randomize_xreg i s else s) [0..<32] s)"

definition ClobberVolatileRegisters :: "sim \<Rightarrow> sim" where
  "ClobberVolatileRegisters s =
     clobber_registers (s\<lparr>reserved_address := 0, reserved_value := 0\<rparr>)"

subsection \<open>Redirections\<close>

text \<open>
  The fields of a \<open>Redirection\<close> object in host memory, laid out for a 64-bit host:
  function at offset 0, kind at 8, argument count at 12, the \<open>ECALL\<close> instruction
  at 16.
\<close>

abbreviation (input) kRuntimeCall :: u64 where "kRuntimeCall \<equiv> 0"
abbreviation (input) kLeafRuntimeCall :: u64 where "kLeafRuntimeCall \<equiv> 1"
abbreviation (input) kLeafFloatRuntimeCall :: u64 where "kLeafFloatRuntimeCall \<equiv> 2"
abbreviation (input) kNativeCallWrapper :: u64 where "kNativeCallWrapper \<equiv> 3"

definition FromECallInstruction :: "u64 \<Rightarrow> u64" where
  "FromECallInstruction ecall_instruction = ecall_instruction - 16"

definition external_function :: "mem \<Rightarrow> u64 \<Rightarrow> u64" where
  "external_function m r = load 8 m r"

definition call_kind :: "mem \<Rightarrow> u64 \<Rightarrow> u64" where
  "call_kind m r = load 4 m (r + 8)"

definition argument_count :: "mem \<Rightarrow> u64 \<Rightarrow> u32" where
  "argument_count m r = ucast (load 4 m (r + 12))"

definition InterpretECALL :: "host \<Rightarrow> Instr \<Rightarrow> sim \<Rightarrow> sim_error + sim" where
  "InterpretECALL h instr s =
     (if DecodeRs1 instr \<noteq> ZR then Inr (pc_add 4 s)
      else if \<not> IsAligned (get_xreg s SP) 16 then Inl StackMisaligned
      else
        let saved_ra = get_xreg s RA;
            redirection = FromECallInstruction (pc s);
            external = external_function (memory s) redirection;
            kind = call_kind (memory s) redirection;
            args_ok = (0 \<le>s argument_count (memory s) redirection
                       \<and> argument_count (memory s) redirection \<le>s 8);
            return = (\<lambda>s'. Inr (s'\<lparr>pc := saved_ra\<rparr>))
        in if kind = kRuntimeCall then
             (case host_runtime_call h external (get_xreg s A0) s of
                Returned _ s' \<Rightarrow> return (ClobberVolatileRegisters s')
              | Thrown s' \<Rightarrow> Inr s')
           else if kind = kLeafRuntimeCall then
             (if \<not> args_ok then Inl AssertFailed
              else case host_leaf_call h external (map (get_xreg s) [A0, A1, A2, A3, A4, A5, A6, A7]) s of
                Returned res s' \<Rightarrow> return (set_xreg A0 res (ClobberVolatileRegisters s'))
              | Thrown s' \<Rightarrow> Inr s')
           else if kind = kLeafFloatRuntimeCall then
             (if \<not> args_ok then Inl AssertFailed
              else case host_leaf_float_call h external
                     (map (get_fregd s) [FA0, FA1, FA2, FA3, FA4, FA5, FA6, FA7]) s of
                Returned res s' \<Rightarrow> return (set_fregd FA0 res (ClobberVolatileRegisters s'))
              | Thrown s' \<Rightarrow> Inr s')
           else if kind = kNativeCallWrapper then
             (case host_native_call h external (get_xreg s A0) (get_xreg s A1) s of
                Returned _ s' \<Rightarrow> return (ClobberVolatileRegisters s')
              | Thrown s' \<Rightarrow> Inr s')
           else Inl Unreachable)"

definition InterpretEBREAK :: "u32 \<Rightarrow> sim \<Rightarrow> sim_error + sim" where
  "InterpretEBREAK instr s = Inl EncounteredEBREAK"

definition InterpretSYSTEM :: "host \<Rightarrow> Instr \<Rightarrow> sim \<Rightarrow> sim_error + sim" where
  "InterpretSYSTEM h instr s =
     (let funct3 = DecodeFunct3 instr; csr = Instr_csr instr;
          x1 = get_xreg s (DecodeRs1 instr); zimm = (ucast (Instr_zimm instr) :: u64);
          write = (\<lambda>v. if DecodeRd instr = ZR
                       then bindE (CSRWrite csr v s) (\<lambda>s'. Inr (pc_add 4 s'))
                       else bindE (CSRRead csr s) (\<lambda>result. bindE (CSRWrite csr v s) (retire_rd instr result)));
          modify = (\<lambda>f skip. bindE (CSRRead csr s)
                       (\<lambda>result. bindE (if skip then Inr s else f s) (retire_rd instr result)))
      in if funct3 = 0 then
           (if DecodeFunct12 instr = f12_ECALL then InterpretECALL h instr s
            else if DecodeFunct12 instr = f12_EBREAK then InterpretEBREAK instr s
            else Inl (IllegalInstruction instr))
         else if funct3 = f3_CSRRW then write x1
         else if funct3 = f3_CSRRS then modify (CSRSet csr x1) (DecodeRs1 instr = ZR)
         else if funct3 = f3_CSRRC then modify (CSRClear csr x1) (DecodeRs1 instr = ZR)
         else if funct3 = f3_CSRRWI then write zimm
         else if funct3 = f3_CSRRSI then modify (CSRSet csr zimm) (zimm = 0)
         else if funct3 = f3_CSRRCI then modify (CSRClear csr zimm) (zimm = 0)
         else Inl (IllegalInstruction instr))"

subsection \<open>Dispatch on the opcode\<close>

definition Interpret :: "host \<Rightarrow> Instr \<Rightarrow> sim \<Rightarrow> sim_error + sim" where
  "Interpret h instr s =
     (let opcode = DecodeOpcode instr
      in if opcode = op_LUI then InterpretLUI instr s
         else if opcode = op_AUIPC then InterpretAUIPC instr s
         else if opcode = op_JAL then InterpretJAL instr s
         else if opcode = op_JALR then InterpretJALR instr s
         else if opcode = op_BRANCH then InterpretBRANCH instr s
         else if opcode = op_LOAD then InterpretLOAD instr s
         else if opcode = op_STORE then InterpretSTORE instr s
         else if opcode = op_OPIMM then InterpretOPIMM instr s
         else if opcode = op_OPIMM32 then InterpretOPIMM32 instr s
         else if opcode = op_OP then InterpretOP instr s
         else if opcode = op_OP32 then InterpretOP32 instr s
         else if opcode = op_MISCMEM then InterpretMISCMEM instr s
         else if opcode = op_SYSTEM then InterpretSYSTEM h instr s
         else if opcode = op_AMO then InterpretAMO instr s
         else if opcode = op_LOADFP then InterpretLOADFP instr s
         else if opcode = op_STOREFP then InterpretSTOREFP instr s
         else if opcode = op_FMADD then InterpretFMADD (host_fpu h) instr s
         else if opcode = op_FMSUB then InterpretFMSUB (host_fpu h) instr s
         else if opcode = op_FNMADD then InterpretFNMADD (host_fpu h) instr s
         else if opcode = op_FNMSUB then InterpretFNMSUB (host_fpu h) instr s
         else if opcode = op_OPFP then InterpretOPFP (host_fpu h) instr s
         else Inl (IllegalInstruction instr))"

subsection \<open>Compressed instructions\<close>

definition InterpretC_mem :: "COpcode \<Rightarrow> u32 \<Rightarrow> sim \<Rightarrow> (sim_error + sim) option" where
  "InterpretC_mem opcode e s =
     (let sp = get_xreg s SP;
          base = DecodeCRs1p e; rs1p = get_xreg s base;
          next = (\<lambda>r. Some (bindE r (\<lambda>s'. Inr (pc_add 2 s'))));
          ld = (\<lambda>n addr b f. next (bindE (MemoryRead n addr b s) (\<lambda>v. Inr (f v s))));
          st = (\<lambda>n addr v b. next (MemoryWrite n addr v b s))
      in if opcode = C_LWSP then
           ld 4 (sp + DecodeCSPLoad4Imm e) SP (\<lambda>v. set_xreg (DecodeCRd e) (scast (ucast v :: u32)))
         else if opcode = C_LDSP then ld 8 (sp + DecodeCSPLoad8Imm e) SP (set_xreg (DecodeCRd e))
         else if opcode = C_FLDSP then ld 8 (sp + DecodeCSPLoad8Imm e) SP (set_fregd (DecodeCFRd e))
         else if opcode = C_SWSP then st 4 (sp + DecodeCSPStore4Imm e) (get_xreg s (DecodeCRs2 e)) SP
         else if opcode = C_SDSP then st 8 (sp + DecodeCSPStore8Imm e) (get_xreg s (DecodeCRs2 e)) SP
         else if opcode = C_FSDSP then st 8 (sp + DecodeCSPStore8Imm e) (get_fregd s (DecodeCFRs2 e)) SP
         else if opcode = C_LW then
           ld 4 (rs1p + DecodeCMem4Imm e) base (\<lambda>v. set_xreg (DecodeCRdp e) (scast (ucast v :: u32)))
         else if opcode = C_LD then ld 8 (rs1p + DecodeCMem8Imm e) base (set_xreg (DecodeCRdp e))
         else if opcode = C_FLD then ld 8 (rs1p + DecodeCMem8Imm e) base (set_fregd (DecodeCFRdp e))
         else if opcode = C_SW then st 4 (rs1p + DecodeCMem4Imm e) (get_xreg s (DecodeCRs2p e)) base
         else if opcode = C_SD then st 8 (rs1p + DecodeCMem8Imm e) (get_xreg s (DecodeCRs2p e)) base
         else if opcode = C_FSD then st 8 (rs1p + DecodeCMem8Imm e) (get_fregd s (DecodeCFRs2p e)) base
         else None)"

definition InterpretC_JR :: "u32 \<Rightarrow> sim \<Rightarrow> sim_error + sim" where
  "InterpretC_JR e s =
     (let rd = DecodeCRd e; rs1 = DecodeCRd e; rs2 = DecodeCRs2 e
      in if e AND (C_JALR XOR C_JR) \<noteq> 0 then
           (if rs1 = ZR \<and> rs2 = ZR then InterpretEBREAK e s
            else if rs2 = ZR then Inr ((set_xreg RA (pc s + 2) s)\<lparr>pc := get_xreg s rs1\<rparr>)
            else Inr (pc_add 2 (set_xreg rd (get_xreg s rs1 + get_xreg s rs2) s)))
         else
           (if rd \<noteq> ZR \<and> rs2 \<noteq> ZR then Inr (pc_add 2 (set_xreg rd (get_xreg s rs2) s))
            else if rs2 \<noteq> ZR then Inl (IllegalInstruction e)
            else Inr (s\<lparr>pc := get_xreg s rs1\<rparr>)))"

definition InterpretC_MISCALU :: "u32 \<Rightarrow> sim \<Rightarrow> sim_error + sim" where
  "InterpretC_MISCALU e s =
     (let rs1p = DecodeCRs1p e; a = get_xreg s rs1p; b = get_xreg s (DecodeCRs2p e);
          imm = DecodeCIImm e; shamt = unat (imm AND (64 - 1));
          set = (\<lambda>v. Inr (pc_add 2 (set_xreg rs1p v s)));
          a32 = (ucast a :: u32); b32 = (ucast b :: u32);
          sel = e AND C_MISCALU_MASK; rr = e AND C_RR_MASK
      in if sel = C_SRLI then (if imm = 0 then Inl (IllegalInstruction e) else set (drop_bit shamt a))
         else if sel = C_SRAI then
           (if imm = 0 then Inl (IllegalInstruction e) else set (signed_drop_bit shamt a))
         else if sel = C_ANDI then set (a AND imm)
         else if sel = C_RR then
           (if rr = C_AND then set (a AND b)
            else if rr = C_OR then set (a OR b)
            else if rr = C_XOR then set (a XOR b)
            else if rr = C_SUB then set (a - b)
            else if rr = C_ADDW then set (sign_extend32 (a32 + b32))
            else if rr = C_SUBW then set (sign_extend32 (a32 - b32))
            else Inl (IllegalInstruction e))
         else Inl (IllegalInstruction e))"

definition InterpretC :: "CInstr \<Rightarrow> sim \<Rightarrow> sim_error + sim" where
  "InterpretC instr s =
     (let e = (ucast instr :: u32); opcode = CInstr_opcode instr;
          rd = DecodeCRd e; rs1 = DecodeCRd e; rs1p = DecodeCRs1p e;
          set = (\<lambda>r v. Inr (pc_add 2 (set_xreg r v s)));
          illegal = Inl (IllegalInstruction e)
      in case InterpretC_mem opcode e s of Some r \<Rightarrow> r
       | None \<Rightarrow>
         if opcode = C_J then Inr (pc_add (sign_extend32 (ucast (DecodeCJImm e))) s)
         else if opcode = C_JR then InterpretC_JR e s
         else if opcode = C_BEQZ then
           Inr (pc_add (if get_xreg s rs1p = 0 then DecodeCBImm e else 2) s)
         else if opcode = C_BNEZ then
           Inr (pc_add (if get_xreg s rs1p \<noteq> 0 then DecodeCBImm e else 2) s)
         else if opcode = C_LI then
           (if rd = ZR then illegal else set rd (sign_extend64 (DecodeCIImm e)))
         else if opcode = C_LUI then
           (if rd = SP then
              (if DecodeCI16Imm e = 0 then illegal
               else set rd (get_xreg s rs1 + sign_extend64 (DecodeCI16Imm e)))
            else if rd = ZR \<or> DecodeCUImm e = 0 then illegal
            else set rd (sign_extend64 (DecodeCUImm e)))
         else if opcode = C_ADDI then set rd (get_xreg s rs1 + DecodeCIImm e)
         else if opcode = C_ADDIW then
           set rd (sign_extend32 (ucast (get_xreg s rs1) + ucast (DecodeCIImm e)))
         else if opcode = C_ADDI4SPN then
           (if DecodeCI4SPNImm e = 0 then illegal
            else set (DecodeCRdp e) (get_xreg s SP + DecodeCI4SPNImm e))
         else if opcode = C_SLLI then
           (if DecodeCIImm e = 0 then illegal
            else set rd (push_bit (unat (DecodeCIImm e AND (64 - 1))) (get_xreg s rs1)))
         else if opcode = C_MISCALU then InterpretC_MISCALU e s
         else illegal)"

subsection \<open>The execution loop\<close>

text \<open>One iteration of the loop: fetch, interpret, count.\<close>

definition step :: "host \<Rightarrow> sim \<Rightarrow> sim_error + sim" where
  "step h s =
     (let parcel = (ucast (load 2 (memory s) (pc s)) :: u16)
      in bindE
        (if IsCInstruction parcel then InterpretC parcel s
         else Interpret h (ucast (load 4 (memory s) (pc s))) s)
        (\<lambda>s'. Inr (s'\<lparr>instret := instret s' + 1\<rparr>)))"

partial_function (option) Execute :: "host \<Rightarrow> sim \<Rightarrow> (sim_error + sim) option" where
  "Execute h s =
     (if pc s = kEndSimulatingPC then Some (Inr s)
      else case step h s of Inl e \<Rightarrow> Some (Inl e) | Inr s' \<Rightarrow> Execute h s')"

subsection \<open>Calls from C++\<close>

record PreservedRegisters =
  pres_xregs :: "Register \<Rightarrow> u64"
  pres_fregs :: "FRegister \<Rightarrow> u64"

definition SavePreservedRegisters :: "sim \<Rightarrow> PreservedRegisters" where
  "SavePreservedRegisters s = \<lparr>pres_xregs = xregs s, pres_fregs = fregs s\<rparr>"

definition PrepareCall :: "sim \<Rightarrow> PreservedRegisters \<times> sim" where
  "PrepareCall s = (SavePreservedRegisters s, clobber_registers s)"

definition CheckPreservedRegisters :: "PreservedRegisters \<Rightarrow> sim \<Rightarrow> sim_error + unit" where
  "CheckPreservedRegisters p s =
     (if pres_xregs p SP \<noteq> xregs s SP then Inl StackUnbalanced
      else let kPreservedAtCall = kAbiPreservedCpuRegs OR RegList [4, 3, 2, 8];
               xbad = filter (\<lambda>i. kPreservedAtCall AND push_bit i 1 \<noteq> 0
                                   \<and> pres_xregs p (of_nat i) \<noteq> xregs s (of_nat i)) [0..<32];
               fbad = filter (\<lambda>i. kAbiVolatileFpuRegs AND push_bit i 1 = 0
                                   \<and> pres_fregs p (of_nat i) \<noteq> fregs s (of_nat i)) [0..<32]
           in case xbad of i # _ \<Rightarrow> Inl (NotPreserved i)
            | [] \<Rightarrow> (case fbad of i # _ \<Rightarrow> Inl (FNotPreserved i) | [] \<Rightarrow> Inr ()))"

definition RunCall :: "host \<Rightarrow> u64 \<Rightarrow> PreservedRegisters \<Rightarrow> sim \<Rightarrow> (sim_error + sim) option" where
  "RunCall h entry preserved s =
     (case Execute h (set_xreg RA kEndSimulatingPC (s\<lparr>pc := entry\<rparr>)) of
        None \<Rightarrow> None
      | Some (Inl e) \<Rightarrow> Some (Inl e)
      | Some (Inr s') \<Rightarrow> Some (bindE (CheckPreservedRegisters preserved s') (\<lambda>_. Inr s')))"

definition CallX :: "host \<Rightarrow> u64 \<Rightarrow> u64 \<Rightarrow> u64 \<Rightarrow> u64 \<Rightarrow> u64 \<Rightarrow> sim \<Rightarrow> (sim_error + u64 \<times> sim) option" where
  "CallX h entry arg0 arg1 arg2 arg3 s =
     (let (preserved, s1) = PrepareCall s;
          s2 = set_xreg A3 arg3 (set_xreg A2 arg2 (set_xreg A1 arg1 (set_xreg A0 arg0 s1)))
      in case RunCall h entry preserved s2 of
           None \<Rightarrow> None
         | Some r \<Rightarrow> Some (bindE r (\<lambda>s'. Inr (get_xreg s' A0, s'))))"

definition Simulator_init :: "u64 \<Rightarrow> u64 \<Rightarrow> u64 \<Rightarrow> u64 \<Rightarrow> mem \<Rightarrow> sim" where
  "Simulator_init seed stack stack_size buffer_size m =
     (let limit = stack; overflow = limit + buffer_size; base = overflow + stack_size;
          s0 = \<lparr>pc = 0, xregs = (\<lambda>_. 0), instret = 0, reserved_address = 0, reserved_value = 0,
                fregs = (\<lambda>_. kNaNBox), fcsr = 0, stack_limit = limit,
                overflow_stack_limit = overflow, stack_base = base, random = seed, memory = m\<rparr>;
          s1 = fold randomize_xreg [1..<32] s0
      in (set_xreg RA kBadLR (set_xreg SP base s1))\<lparr>pc := kBadLR\<rparr>)"

declare InterpretC_mem_def [interp_defs] InterpretC_JR_def [interp_defs] InterpretC_MISCALU_def [interp_defs]

end
