(* ===== verification/Riscv_Exec.thy ===== *)
theory Riscv_Exec
  imports Riscv_Simulator
begin

text \<open>
  Execution of a piece of code by the simulator.

  \<open>loop_step\<close> is one iteration of \<open>Simulator::Execute\<close>; \<open>reaches\<close> its reflexive
  transitive closure, up to the count of retired instructions.  \<open>runs code f\<close>
  says that whenever the bytes \<open>code\<close> lie at the program counter, the simulator
  executes them without an error, has the effect \<open>f\<close> and ends behind them;
  Pieces of straight-line code compose (\<open>runs_append\<close>).
\<close>

unbundle bit_operations_syntax

subsection \<open>Code in memory\<close>

fun code_at :: "mem \<Rightarrow> u64 \<Rightarrow> u8 list \<Rightarrow> bool" where
  "code_at m a [] = True"
| "code_at m a (b # bs) = (m a = b \<and> code_at m (a + 1) bs)"

lemma code_at_append:
  "code_at m a (xs @ ys) \<longleftrightarrow> code_at m a xs \<and> code_at m (a + of_nat (length xs)) ys"
  by (induction xs arbitrary: a) (simp_all add: algebra_simps)

text \<open>
  The code lies at the program counter, below the sentinel address that stops the
  simulator, and the zero register holds 0.
\<close>

definition placed :: "u8 list \<Rightarrow> sim \<Rightarrow> bool" where
  "placed code s \<longleftrightarrow>
     code_at (memory s) (pc s) code \<and> unat (pc s) + length code < 2 ^ 64 - 2 \<and> zero_ok s"

lemma placed_not_end: "placed code s \<Longrightarrow> pc s \<noteq> kEndSimulatingPC"
  by (auto simp: placed_def)

lemma unat_pc_add:
  assumes "unat (p :: u64) + n < 2 ^ 64"
  shows "unat (p + of_nat n) = unat p + n"
proof -
  have n: "unat (of_nat n :: u64) = n"
    using assms by (simp add: unat_of_nat take_bit_nat_eq_self)
  have "unat (p + of_nat n) = unat p + unat (of_nat n :: u64)"
    using assms by (subst unat_add_lem [symmetric]) (simp add: n)
  then show ?thesis by (simp add: n)
qed

lemma load_2: "load 2 m a = ucast (m a) OR push_bit 8 (ucast (m (a + 1)))"
  by (simp add: numeral_2_eq_2)

lemma load_4:
  "load 4 m a = ucast (m a) OR push_bit 8 (ucast (m (a + 1)) OR push_bit 8 (ucast (m (a + 2)) OR
     push_bit 8 (ucast (m (a + 3)))))"
  by (simp add: eval_nat_numeral add.commute)

lemma load_code2:
  assumes "code_at m a (bytes16 e)"
  shows "(ucast (load 2 m a) :: u16) = e"
proof (rule bit_word_eqI)
  fix n assume "n < LENGTH(16)"
  then show "bit (ucast (load 2 m a) :: u16) n = bit e n"
    using assms by (cases "n < 8") (auto simp: load_2 bytes16_def bit_simps)
qed

lemma load_code4:
  assumes "code_at m a (bytes32 e)"
  shows "(ucast (load 4 m a) :: u32) = e" and "(ucast (load 2 m a) :: u16) = ucast e"
proof -
  have b: "m a = ucast e" "m (a + 1) = ucast (drop_bit 8 e)" "m (a + 2) = ucast (drop_bit 16 e)"
    "m (a + 3) = ucast (drop_bit 24 e)"
    using assms by (simp_all add: bytes32_def add.assoc)
  show "(ucast (load 4 m a) :: u32) = e"
  proof (rule bit_word_eqI)
    fix n assume n: "n < LENGTH(32)"
    consider "n < 8" | "8 \<le> n" "n < 16" | "16 \<le> n" "n < 24" | "24 \<le> n" by linarith
    then show "bit (ucast (load 4 m a) :: u32) n = bit e n"
      using n by cases (auto simp: load_4 b bit_simps)
  qed
  show "(ucast (load 2 m a) :: u16) = ucast e"
  proof (rule bit_word_eqI)
    fix n assume "n < LENGTH(16)"
    then show "bit (ucast (load 2 m a) :: u16) n = bit (ucast e :: u16) n"
      by (cases "n < 8") (auto simp: load_2 b bit_simps)
  qed
qed

subsection \<open>The loop as a relation\<close>

definition loop_step :: "host \<Rightarrow> sim \<Rightarrow> sim \<Rightarrow> bool" where
  "loop_step h s s' \<longleftrightarrow> pc s \<noteq> kEndSimulatingPC \<and> step h s = Inr s'"

definition reaches :: "host \<Rightarrow> sim \<Rightarrow> sim \<Rightarrow> bool" where
  "reaches h s t \<longleftrightarrow> (\<exists>k. (loop_step h)\<^sup>*\<^sup>* s (t\<lparr>instret := k\<rparr>))"

lemma Execute_loop_step: "loop_step h s s' \<Longrightarrow> Execute h s = Execute h s'"
  by (subst Execute.simps) (simp add: loop_step_def)

lemma Execute_loop_steps: "(loop_step h)\<^sup>*\<^sup>* s s' \<Longrightarrow> Execute h s = Execute h s'"
  by (induction rule: rtranclp_induct) (simp_all add: Execute_loop_step)

text \<open>A run that reaches the sentinel address is a terminating call of \<open>Execute\<close>.\<close>

lemma reaches_Execute:
  assumes "reaches h s t" and "pc t = kEndSimulatingPC"
  shows "\<exists>k. Execute h s = Some (Inr (t\<lparr>instret := k\<rparr>))"
proof -
  obtain k where k: "(loop_step h)\<^sup>*\<^sup>* s (t\<lparr>instret := k\<rparr>)"
    using assms(1) by (auto simp: reaches_def)
  have "Execute h (t\<lparr>instret := k\<rparr>) = Some (Inr (t\<lparr>instret := k\<rparr>))"
    using assms(2) by (subst Execute.simps) simp
  then show ?thesis using Execute_loop_steps [OF k] by auto
qed

lemma reaches_refl: "reaches h s s"
  unfolding reaches_def by (rule exI [of _ "instret s"]) simp

lemma reaches_instret: "reaches h s (t\<lparr>instret := k\<rparr>) \<longleftrightarrow> reaches h s t"
  by (simp add: reaches_def)

text \<open>Fetching a 32-bit and a compressed instruction.\<close>

lemma step_32:
  assumes "code_at (memory s) (pc s) (bytes32 e)" and "\<not> IsCInstruction (ucast e)"
  shows "step h s = bindE (Interpret h e s) (\<lambda>s'. Inr (s'\<lparr>instret := instret s' + 1\<rparr>))"
  using assms by (simp add: step_def load_code4)

lemma step_16:
  assumes "code_at (memory s) (pc s) (bytes16 e)" and "IsCInstruction e"
  shows "step h s = bindE (InterpretC e s) (\<lambda>s'. Inr (s'\<lparr>instret := instret s' + 1\<rparr>))"
  using assms by (simp add: step_def load_code2)

lemma not_IsCInstruction_32: "\<not> IsCInstruction (ucast e)" if "DecodeOpcode e AND 3 = 3"
proof -
  have "bit e 0" "bit e 1"
    using that unfolding and_3_eq_3_iff by (simp_all add: DecodeOpcode_def bit_simps)
  then show ?thesis
    unfolding IsCInstruction_def and_3_eq_3_iff by (simp add: bit_simps)
qed

subsection \<open>Effects that leave the code and the program counter alone\<close>

definition frame :: "(sim \<Rightarrow> sim) \<Rightarrow> bool" where
  "frame f \<longleftrightarrow> (\<forall>s. memory (f s) = memory s) \<and> (\<forall>s. zero_ok (f s) = zero_ok s) \<and> (\<forall>s x. f (s\<lparr>pc := x\<rparr>) = (f s)\<lparr>pc := x\<rparr>)
     \<and> (\<forall>s x. f (s\<lparr>instret := x\<rparr>) = (f s)\<lparr>instret := x\<rparr>)"

lemma frame_simps:
  assumes "frame f"
  shows "memory (f s) = memory s" and "f (s\<lparr>pc := x\<rparr>) = (f s)\<lparr>pc := x\<rparr>"
    and "f (s\<lparr>instret := y\<rparr>) = (f s)\<lparr>instret := y\<rparr>" and "zero_ok (f s) = zero_ok s"
  using assms by (simp_all add: frame_def)

lemma frame_pc: "frame f \<Longrightarrow> pc (f s) = pc s"
  using frame_simps(2) [where f = f and s = s and x = "pc s"] by (metis sim.select_convs(1) sim.surjective sim.update_convs(1))

lemma frame_instret: "frame f \<Longrightarrow> instret (f s) = instret s"
  using frame_simps(3) [where f = f and s = s and y = "instret s"] by (metis sim.select_convs(3) sim.surjective sim.update_convs(3))

lemma frame_id [simp]: "frame (\<lambda>s. s)"
  by (simp add: frame_def)

lemma frame_comp: "frame f \<Longrightarrow> frame g \<Longrightarrow> frame (\<lambda>s. g (f s))"
  by (simp add: frame_def)

lemma frame_set_xreg:
  assumes "\<And>s x. v (s\<lparr>pc := x\<rparr>) = v s" and "\<And>s x. v (s\<lparr>instret := x\<rparr>) = v s"
  shows "frame (\<lambda>s. set_xreg rd (v s) s)"
  using assms by (simp add: frame_def set_xreg_update)

subsection \<open>Running code\<close>

definition runs :: "u8 list \<Rightarrow> (sim \<Rightarrow> sim) \<Rightarrow> bool" where
  "runs code f \<longleftrightarrow>
     (\<forall>h s. placed code s \<longrightarrow> reaches h s ((f s)\<lparr>pc := pc s + of_nat (length code)\<rparr>))"

lemma runsD:
  "runs code f \<Longrightarrow> placed code s \<Longrightarrow> reaches h s ((f s)\<lparr>pc := pc s + of_nat (length code)\<rparr>)"
  by (simp add: runs_def)

lemma runs_Nil: "runs [] (\<lambda>s. s)"
  by (simp add: runs_def reaches_refl)

lemma placed_append:
  assumes "placed (xs @ ys) s"
  shows "placed xs s"
    and "memory t = memory s \<Longrightarrow> pc t = pc s + of_nat (length xs) \<Longrightarrow> zero_ok t = zero_ok s \<Longrightarrow> placed ys t"
  using assms by (auto simp: placed_def code_at_append unat_pc_add)

lemma runs_append:
  assumes f: "runs xs f" "frame f" and g: "runs ys g" "frame g"
  shows "runs (xs @ ys) (\<lambda>s. g (f s))"
  unfolding runs_def
proof (intro allI impI)
  fix h s assume p: "placed (xs @ ys) s"
  obtain k where k: "(loop_step h)\<^sup>*\<^sup>* s ((f s)\<lparr>pc := pc s + of_nat (length xs), instret := k\<rparr>)"
    using runsD [OF f(1) placed_append(1) [OF p], of h] by (auto simp: reaches_def)
  let ?t = "(f s)\<lparr>pc := pc s + of_nat (length xs), instret := k\<rparr>"
  have "placed ys ?t"
    by (rule placed_append(2) [OF p]) (simp_all add: frame_simps [OF f(2)])
  from runsD [OF g(1) this, of h]
  have "reaches h ?t ((g ?t)\<lparr>pc := pc ?t + of_nat (length ys)\<rparr>)" .
  moreover have "(g ?t)\<lparr>pc := pc ?t + of_nat (length ys)\<rparr>
      = ((g (f s))\<lparr>pc := pc s + of_nat (length (xs @ ys))\<rparr>)\<lparr>instret := k\<rparr>"
    by (simp add: frame_simps [OF g(2)] algebra_simps)
  ultimately have "reaches h ?t ((g (f s))\<lparr>pc := pc s + of_nat (length (xs @ ys))\<rparr>)"
    by (simp only: reaches_instret)
  then show "reaches h s ((g (f s))\<lparr>pc := pc s + of_nat (length (xs @ ys))\<rparr>)"
    using k by (auto simp: reaches_def intro: rtranclp_trans)
qed

end
