(* ===== verification/Riscv_Assembler.thy ===== *)
theory Riscv_Assembler
  imports Riscv_CEncoding
begin

text \<open>
  The micro assembler of \<open>runtime/vm/compiler/assembler/assembler_riscv.cc\<close>: one
  operation per instruction, the choice between the 32-bit and the compressed
  encoding, labels with their lists of unresolved branches
  (\<open>assembler_base.h\<close>), and \<open>Bind\<close>, which patches them.

  An operation takes the assembler state and returns the new state or an error:
  a failed \<open>ASSERT\<close>, a \<open>FATAL\<close>, or the long jump of
  \<open>BailoutWithBranchOffsetError\<close> (the caller then assembles again with longer
  branches).  The \<open>ASSERT\<close>s of the field encoders are checked by the emit
  functions.  A \<open>Label*\<close> is a key into the label store of the state.  Buffer
  positions are integers; \<open>-1\<close> marks an absent one.  The buffer stays below 2 GB,
  so the \<open>int32_t\<close> fields of \<open>Label\<close> hold every position.
\<close>

unbundle bit_operations_syntax

subsection \<open>State\<close>

record Label =
  position :: int
  unresolved_cb :: int
  unresolved_cj :: int
  unresolved_b :: int
  unresolved_j :: int
  unresolved_far :: int

definition new_Label :: Label where
  "new_Label = \<lparr>position = - 1, unresolved_cb = - 1, unresolved_cj = - 1, unresolved_b = - 1,
                unresolved_j = - 1, unresolved_far = - 1\<rparr>"

type_synonym label = nat

datatype DeferredCompareType = kNone | kCompareReg | kCompareImm | kTestReg | kTestImm

record asm =
  buffer :: "u8 list"
  extensions :: ExtensionSet
  far_branch_level :: nat
  labels :: "label \<Rightarrow> Label"
  deferred_compare :: DeferredCompareType
  deferred_left :: Register
  deferred_reg :: Register
  deferred_imm :: intptr

datatype asm_error =
    AssertionFailed
  | IncorrectNearJump
  | DistanceExceeds2GB
  | BranchOffsetError
  | AsmUnreachable
  | AsmUnimplemented
  | UseBranchOverflow

type_synonym asm_op = "asm \<Rightarrow> asm_error + asm"

datatype JumpDistance = kFarJump | kNearJump

datatype Address = Address (addr_base: Register) (addr_offset: intptr)

definition ASSERT :: "bool \<Rightarrow> asm_error + 'a \<Rightarrow> asm_error + 'a" where
  "ASSERT c r = (if c then r else Inl AssertionFailed)"

definition Supports :: "Extension \<Rightarrow> asm \<Rightarrow> bool" where
  "Supports e a = Includes (extensions a) e"

definition Position :: "asm \<Rightarrow> int" where
  "Position a = int (length (buffer a))"

definition MicroAssembler_init :: "nat \<Rightarrow> ExtensionSet \<Rightarrow> asm_error + asm" where
  "MicroAssembler_init level exts =
     ASSERT (level \<le> 2) (Inr \<lparr>buffer = [], extensions = exts, far_branch_level = level,
       labels = (\<lambda>_. new_Label), deferred_compare = kNone, deferred_left = 0, deferred_reg = 0,
       deferred_imm = 0\<rparr>)"

subsection \<open>Buffer access\<close>

definition Emit16 :: "u16 \<Rightarrow> asm_op" where
  "Emit16 instruction a = Inr (a\<lparr>buffer := buffer a @ bytes16 instruction\<rparr>)"

definition Emit32 :: "u32 \<Rightarrow> asm_op" where
  "Emit32 instruction a = Inr (a\<lparr>buffer := buffer a @ bytes32 instruction\<rparr>)"

definition in_buffer :: "int \<Rightarrow> nat \<Rightarrow> asm \<Rightarrow> bool" where
  "in_buffer p n a = (0 \<le> p \<and> p \<le> Position a - int n)"

definition Read16 :: "int \<Rightarrow> asm \<Rightarrow> asm_error + u16" where
  "Read16 p a =
     ASSERT (in_buffer p 2 a)
       (let k = nat p in Inr (ucast (buffer a ! k) OR push_bit 8 (ucast (buffer a ! (k + 1)))))"

definition Read32 :: "int \<Rightarrow> asm \<Rightarrow> asm_error + u32" where
  "Read32 p a =
     ASSERT (in_buffer p 4 a)
       (let k = nat p
        in Inr (ucast (buffer a ! k) OR push_bit 8 (ucast (buffer a ! (k + 1))) OR
                push_bit 16 (ucast (buffer a ! (k + 2))) OR push_bit 24 (ucast (buffer a ! (k + 3)))))"

definition write_bytes :: "nat \<Rightarrow> u8 list \<Rightarrow> u8 list \<Rightarrow> u8 list" where
  "write_bytes k bs xs = take k xs @ bs @ drop (k + length bs) xs"

definition Write16 :: "int \<Rightarrow> u16 \<Rightarrow> asm_op" where
  "Write16 p instruction a =
     ASSERT (in_buffer p 2 a)
       (Inr (a\<lparr>buffer := write_bytes (nat p) (bytes16 instruction) (buffer a)\<rparr>))"

definition Write32 :: "int \<Rightarrow> u32 \<Rightarrow> asm_op" where
  "Write32 p instruction a =
     ASSERT (in_buffer p 4 a)
       (Inr (a\<lparr>buffer := write_bytes (nat p) (bytes32 instruction) (buffer a)\<rparr>))"

subsection \<open>Labels\<close>

definition IsBound :: "label \<Rightarrow> asm \<Rightarrow> bool" where
  "IsBound l a = (position (labels a l) \<noteq> - 1)"

definition IsLinked :: "label \<Rightarrow> asm \<Rightarrow> bool" where
  "IsLinked l a =
     (unresolved_cb (labels a l) \<noteq> - 1 \<or> unresolved_cj (labels a l) \<noteq> - 1 \<or>
      unresolved_b (labels a l) \<noteq> - 1 \<or> unresolved_j (labels a l) \<noteq> - 1 \<or>
      unresolved_far (labels a l) \<noteq> - 1)"

text \<open>
  \<open>DEFINE_BRANCH_CLASS\<close>: the offset to thread through the new branch, and the
  label with the branch as head of the list.
\<close>

definition link_offset :: "int \<Rightarrow> int \<Rightarrow> asm_error + int" where
  "link_offset pos unresolved =
     ASSERT (pos > unresolved)
       (if unresolved = - 1 then Inr 0 else ASSERT (pos - unresolved > 0) (Inr (pos - unresolved)))"

definition link_cb :: "label \<Rightarrow> asm \<Rightarrow> asm_error + int \<times> asm" where
  "link_cb l a =
     bindE (link_offset (Position a) (unresolved_cb (labels a l)))
       (\<lambda>offset. Inr (offset, a\<lparr>labels := (labels a)(l := (labels a l)\<lparr>unresolved_cb := Position a\<rparr>)\<rparr>))"

definition link_cj :: "label \<Rightarrow> asm \<Rightarrow> asm_error + int \<times> asm" where
  "link_cj l a =
     bindE (link_offset (Position a) (unresolved_cj (labels a l)))
       (\<lambda>offset. Inr (offset, a\<lparr>labels := (labels a)(l := (labels a l)\<lparr>unresolved_cj := Position a\<rparr>)\<rparr>))"

definition link_b :: "label \<Rightarrow> asm \<Rightarrow> asm_error + int \<times> asm" where
  "link_b l a =
     bindE (link_offset (Position a) (unresolved_b (labels a l)))
       (\<lambda>offset. Inr (offset, a\<lparr>labels := (labels a)(l := (labels a l)\<lparr>unresolved_b := Position a\<rparr>)\<rparr>))"

definition link_j :: "label \<Rightarrow> asm \<Rightarrow> asm_error + int \<times> asm" where
  "link_j l a =
     bindE (link_offset (Position a) (unresolved_j (labels a l)))
       (\<lambda>offset. Inr (offset, a\<lparr>labels := (labels a)(l := (labels a l)\<lparr>unresolved_j := Position a\<rparr>)\<rparr>))"

definition link_far :: "label \<Rightarrow> asm \<Rightarrow> asm_error + int \<times> asm" where
  "link_far l a =
     bindE (link_offset (Position a) (unresolved_far (labels a l)))
       (\<lambda>offset. Inr (offset, a\<lparr>labels := (labels a)(l := (labels a l)\<lparr>unresolved_far := Position a\<rparr>)\<rparr>))"

text \<open>Distance from the current position to a bound label, as an immediate.\<close>

definition label_offset :: "label \<Rightarrow> asm \<Rightarrow> intptr" where
  "label_offset l a = word_of_int (position (labels a l) - Position a)"

subsection \<open>Instruction formats\<close>

definition EmitRType :: "Funct7 \<Rightarrow> Register \<Rightarrow> Register \<Rightarrow> Funct3 \<Rightarrow> Register \<Rightarrow> Opcode \<Rightarrow> asm_op" where
  "EmitRType funct7 rs2 rs1 funct3 rd opcode a =
     ASSERT (IsFunct7 funct7 \<and> IsFunct3 funct3 \<and> IsOpcode opcode) (Emit32 (RType funct7 rs2 rs1 funct3 rd opcode) a)"

definition amo_funct7 :: "Funct5 \<Rightarrow> memory_order \<Rightarrow> Funct7" where
  "amo_funct7 funct5 order =
     push_bit 2 funct5 OR
     (case order of memory_order_acq_rel \<Rightarrow> 0b11 | memory_order_acquire \<Rightarrow> 0b10
      | memory_order_release \<Rightarrow> 0b01 | memory_order_relaxed \<Rightarrow> 0b00)"

definition EmitRType_amo ::
  "Funct5 \<Rightarrow> memory_order \<Rightarrow> Register \<Rightarrow> Register \<Rightarrow> Funct3 \<Rightarrow> Register \<Rightarrow> Opcode \<Rightarrow> asm_op" where
  "EmitRType_amo funct5 order rs2 rs1 funct3 rd opcode =
     EmitRType (amo_funct7 funct5 order) rs2 rs1 funct3 rd opcode"

definition EmitRType_fff3 :: "Funct7 \<Rightarrow> FRegister \<Rightarrow> FRegister \<Rightarrow> Funct3 \<Rightarrow> FRegister \<Rightarrow> Opcode \<Rightarrow> asm_op" where
  "EmitRType_fff3 funct7 rs2 rs1 funct3 rd opcode a =
     ASSERT (IsFunct7 funct7 \<and> IsFunct3 funct3 \<and> IsOpcode opcode) (Emit32 (EncodeFunct7 funct7 OR EncodeFRs2 rs2 OR EncodeFRs1 rs1 OR EncodeFunct3 funct3 OR
       EncodeFRd rd OR EncodeOpcode opcode) a)"

definition EmitRType_fffr :: "Funct7 \<Rightarrow> FRegister \<Rightarrow> FRegister \<Rightarrow> RoundingMode \<Rightarrow> FRegister \<Rightarrow> Opcode \<Rightarrow> asm_op" where
  "EmitRType_fffr funct7 rs2 rs1 round rd opcode a =
     ASSERT (IsFunct7 funct7 \<and> IsRoundingMode round \<and> IsOpcode opcode) (Emit32 (EncodeFunct7 funct7 OR EncodeFRs2 rs2 OR EncodeFRs1 rs1 OR EncodeRoundingMode round OR
       EncodeFRd rd OR EncodeOpcode opcode) a)"

definition EmitRType_ffxr :: "Funct7 \<Rightarrow> FRegister \<Rightarrow> Register \<Rightarrow> RoundingMode \<Rightarrow> FRegister \<Rightarrow> Opcode \<Rightarrow> asm_op" where
  "EmitRType_ffxr funct7 rs2 rs1 round rd opcode a =
     ASSERT (IsFunct7 funct7 \<and> IsRoundingMode round \<and> IsOpcode opcode) (Emit32 (EncodeFunct7 funct7 OR EncodeFRs2 rs2 OR EncodeRs1 rs1 OR EncodeRoundingMode round OR
       EncodeFRd rd OR EncodeOpcode opcode) a)"

definition EmitRType_ffx3 :: "Funct7 \<Rightarrow> FRegister \<Rightarrow> Register \<Rightarrow> Funct3 \<Rightarrow> FRegister \<Rightarrow> Opcode \<Rightarrow> asm_op" where
  "EmitRType_ffx3 funct7 rs2 rs1 funct3 rd opcode a =
     ASSERT (IsFunct7 funct7 \<and> IsFunct3 funct3 \<and> IsOpcode opcode) (Emit32 (EncodeFunct7 funct7 OR EncodeFRs2 rs2 OR EncodeRs1 rs1 OR EncodeFunct3 funct3 OR
       EncodeFRd rd OR EncodeOpcode opcode) a)"

definition EmitRType_xff3 :: "Funct7 \<Rightarrow> FRegister \<Rightarrow> FRegister \<Rightarrow> Funct3 \<Rightarrow> Register \<Rightarrow> Opcode \<Rightarrow> asm_op" where
  "EmitRType_xff3 funct7 rs2 rs1 funct3 rd opcode a =
     ASSERT (IsFunct7 funct7 \<and> IsFunct3 funct3 \<and> IsOpcode opcode) (Emit32 (EncodeFunct7 funct7 OR EncodeFRs2 rs2 OR EncodeFRs1 rs1 OR EncodeFunct3 funct3 OR
       EncodeRd rd OR EncodeOpcode opcode) a)"

definition EmitRType_xffr :: "Funct7 \<Rightarrow> FRegister \<Rightarrow> FRegister \<Rightarrow> RoundingMode \<Rightarrow> Register \<Rightarrow> Opcode \<Rightarrow> asm_op" where
  "EmitRType_xffr funct7 rs2 rs1 round rd opcode a =
     ASSERT (IsFunct7 funct7 \<and> IsRoundingMode round \<and> IsOpcode opcode) (Emit32 (EncodeFunct7 funct7 OR EncodeFRs2 rs2 OR EncodeFRs1 rs1 OR EncodeRoundingMode round OR
       EncodeRd rd OR EncodeOpcode opcode) a)"

definition EmitRType_shamt :: "Funct7 \<Rightarrow> intptr \<Rightarrow> Register \<Rightarrow> Funct3 \<Rightarrow> Register \<Rightarrow> Opcode \<Rightarrow> asm_op" where
  "EmitRType_shamt funct7 shamt rs1 funct3 rd opcode a =
     ASSERT (IsFunct7 funct7 \<and> IsShamt (ucast shamt) \<and> IsFunct3 funct3 \<and> IsOpcode opcode) (Emit32 (ShiftType funct7 (ucast shamt) rs1 funct3 rd opcode) a)"

definition EmitR4Type :: "FRegister \<Rightarrow> Funct2 \<Rightarrow> FRegister \<Rightarrow> FRegister \<Rightarrow> RoundingMode \<Rightarrow> FRegister \<Rightarrow> Opcode \<Rightarrow> asm_op" where
  "EmitR4Type rs3 funct2 rs2 rs1 round rd opcode a =
     ASSERT (IsFunct2 funct2 \<and> IsRoundingMode round \<and> IsOpcode opcode) (Emit32 (R4Type rs3 funct2 rs2 rs1 round rd opcode) a)"

definition EmitIType :: "intptr \<Rightarrow> Register \<Rightarrow> Funct3 \<Rightarrow> Register \<Rightarrow> Opcode \<Rightarrow> asm_op" where
  "EmitIType imm rs1 funct3 rd opcode a =
     ASSERT (IsITypeImm imm \<and> IsFunct3 funct3 \<and> IsOpcode opcode) (Emit32 (IType imm rs1 funct3 rd opcode) a)"

definition EmitIType_f :: "intptr \<Rightarrow> Register \<Rightarrow> Funct3 \<Rightarrow> FRegister \<Rightarrow> Opcode \<Rightarrow> asm_op" where
  "EmitIType_f imm rs1 funct3 rd opcode a =
     ASSERT (IsITypeImm imm \<and> IsFunct3 funct3 \<and> IsOpcode opcode) (Emit32 (EncodeITypeImm imm OR EncodeRs1 rs1 OR EncodeFunct3 funct3 OR EncodeFRd rd OR
       EncodeOpcode opcode) a)"

definition EmitSType :: "intptr \<Rightarrow> Register \<Rightarrow> Register \<Rightarrow> Funct3 \<Rightarrow> Opcode \<Rightarrow> asm_op" where
  "EmitSType imm rs2 rs1 funct3 opcode a =
     ASSERT (IsSTypeImm imm \<and> IsFunct3 funct3 \<and> IsOpcode opcode) (Emit32 (SType imm rs2 rs1 funct3 opcode) a)"

definition EmitSType_f :: "intptr \<Rightarrow> FRegister \<Rightarrow> Register \<Rightarrow> Funct3 \<Rightarrow> Opcode \<Rightarrow> asm_op" where
  "EmitSType_f imm rs2 rs1 funct3 opcode a =
     ASSERT (IsSTypeImm imm \<and> IsFunct3 funct3 \<and> IsOpcode opcode) (Emit32 (EncodeSTypeImm imm OR EncodeFRs2 rs2 OR EncodeRs1 rs1 OR EncodeFunct3 funct3 OR
       EncodeOpcode opcode) a)"

definition EmitBType :: "intptr \<Rightarrow> Register \<Rightarrow> Register \<Rightarrow> Funct3 \<Rightarrow> Opcode \<Rightarrow> asm_op" where
  "EmitBType imm rs2 rs1 funct3 opcode a =
     ASSERT (IsBTypeImm imm \<and> IsFunct3 funct3 \<and> IsOpcode opcode) (Emit32 (BType imm rs2 rs1 funct3 opcode) a)"

definition EmitUType :: "intptr \<Rightarrow> Register \<Rightarrow> Opcode \<Rightarrow> asm_op" where
  "EmitUType imm rd opcode a =
     ASSERT (IsUTypeImm imm \<and> IsOpcode opcode) (Emit32 (UType imm rd opcode) a)"

definition EmitJType :: "intptr \<Rightarrow> Register \<Rightarrow> Opcode \<Rightarrow> asm_op" where
  "EmitJType imm rd opcode a =
     ASSERT (IsJTypeImm imm \<and> IsOpcode opcode) (Emit32 (JType imm rd opcode) a)"

subsection \<open>Compressed instructions\<close>

definition c_lwsp :: "Register \<Rightarrow> Address \<Rightarrow> asm_op" where
  "c_lwsp rd addr a =
     ASSERT (rd \<noteq> ZR \<and> addr_base addr = SP \<and> Supports RV_C a \<and> IsCSPLoad4Imm (addr_offset addr))
       (Emit16 (CI_L4 C_LWSP rd (addr_offset addr)) a)"

definition c_ldsp :: "Register \<Rightarrow> Address \<Rightarrow> asm_op" where
  "c_ldsp rd addr a =
     ASSERT (rd \<noteq> ZR \<and> addr_base addr = SP \<and> Supports RV_C a \<and> IsCSPLoad8Imm (addr_offset addr))
       (Emit16 (CI_L8 C_LDSP rd (addr_offset addr)) a)"

definition c_fldsp :: "FRegister \<Rightarrow> Address \<Rightarrow> asm_op" where
  "c_fldsp rd addr a =
     ASSERT (addr_base addr = SP \<and> Supports RV_C a \<and> Supports RV_D a \<and> IsCSPLoad8Imm (addr_offset addr))
       (Emit16 (ucast (C_FLDSP OR EncodeCFRd rd OR EncodeCSPLoad8Imm (addr_offset addr))) a)"

definition c_swsp :: "Register \<Rightarrow> Address \<Rightarrow> asm_op" where
  "c_swsp rs2 addr a =
     ASSERT (addr_base addr = SP \<and> Supports RV_C a \<and> IsCSPStore4Imm (addr_offset addr))
       (Emit16 (CSS4 C_SWSP rs2 (addr_offset addr)) a)"

definition c_sdsp :: "Register \<Rightarrow> Address \<Rightarrow> asm_op" where
  "c_sdsp rs2 addr a =
     ASSERT (addr_base addr = SP \<and> Supports RV_C a \<and> IsCSPStore8Imm (addr_offset addr))
       (Emit16 (CSS8 C_SDSP rs2 (addr_offset addr)) a)"

definition c_fsdsp :: "FRegister \<Rightarrow> Address \<Rightarrow> asm_op" where
  "c_fsdsp rs2 addr a =
     ASSERT (addr_base addr = SP \<and> Supports RV_C a \<and> Supports RV_D a \<and> IsCSPStore8Imm (addr_offset addr))
       (Emit16 (ucast (C_FSDSP OR EncodeCFRs2 rs2 OR EncodeCSPStore8Imm (addr_offset addr))) a)"

definition c_lw :: "Register \<Rightarrow> Address \<Rightarrow> asm_op" where
  "c_lw rd addr a =
     ASSERT (Supports RV_C a \<and> IsCRdp rd \<and> IsCRs1p (addr_base addr) \<and> IsCMem4Imm (addr_offset addr))
       (Emit16 (CL4 C_LW rd (addr_base addr) (addr_offset addr)) a)"

definition c_ld :: "Register \<Rightarrow> Address \<Rightarrow> asm_op" where
  "c_ld rd addr a =
     ASSERT (Supports RV_C a \<and> IsCRdp rd \<and> IsCRs1p (addr_base addr) \<and> IsCMem8Imm (addr_offset addr))
       (Emit16 (CL8 C_LD rd (addr_base addr) (addr_offset addr)) a)"

definition c_flw :: "FRegister \<Rightarrow> Address \<Rightarrow> asm_op" where
  "c_flw rd addr a =
     ASSERT (Supports RV_C a \<and> Supports RV_F a \<and> IsCFRdp rd \<and> IsCRs1p (addr_base addr) \<and> IsCMem4Imm (addr_offset addr))
       (Emit16 (ucast (C_FLW OR EncodeCFRdp rd OR EncodeCRs1p (addr_base addr) OR EncodeCMem4Imm (addr_offset addr))) a)"

definition c_fld :: "FRegister \<Rightarrow> Address \<Rightarrow> asm_op" where
  "c_fld rd addr a =
     ASSERT (Supports RV_C a \<and> Supports RV_D a \<and> IsCFRdp rd \<and> IsCRs1p (addr_base addr) \<and> IsCMem8Imm (addr_offset addr))
       (Emit16 (ucast (C_FLD OR EncodeCFRdp rd OR EncodeCRs1p (addr_base addr) OR EncodeCMem8Imm (addr_offset addr))) a)"

definition c_sw :: "Register \<Rightarrow> Address \<Rightarrow> asm_op" where
  "c_sw rs2 addr a =
     ASSERT (Supports RV_C a \<and> IsCRs1p (addr_base addr) \<and> IsCRs2p rs2 \<and> IsCMem4Imm (addr_offset addr))
       (Emit16 (CS4 C_SW (addr_base addr) rs2 (addr_offset addr)) a)"

definition c_sd :: "Register \<Rightarrow> Address \<Rightarrow> asm_op" where
  "c_sd rs2 addr a =
     ASSERT (Supports RV_C a \<and> IsCRs1p (addr_base addr) \<and> IsCRs2p rs2 \<and> IsCMem8Imm (addr_offset addr))
       (Emit16 (CS8 C_SD (addr_base addr) rs2 (addr_offset addr)) a)"

definition c_fsw :: "FRegister \<Rightarrow> Address \<Rightarrow> asm_op" where
  "c_fsw rs2 addr a =
     ASSERT (Supports RV_C a \<and> Supports RV_F a \<and> IsCRs1p (addr_base addr) \<and> IsCFRs2p rs2 \<and> IsCMem4Imm (addr_offset addr))
       (Emit16 (ucast (C_FSW OR EncodeCRs1p (addr_base addr) OR EncodeCFRs2p rs2 OR EncodeCMem4Imm (addr_offset addr))) a)"

definition c_fsd :: "FRegister \<Rightarrow> Address \<Rightarrow> asm_op" where
  "c_fsd rs2 addr a =
     ASSERT (Supports RV_C a \<and> Supports RV_D a \<and> IsCRs1p (addr_base addr) \<and> IsCFRs2p rs2 \<and> IsCMem8Imm (addr_offset addr))
       (Emit16 (ucast (C_FSD OR EncodeCRs1p (addr_base addr) OR EncodeCFRs2p rs2 OR EncodeCMem8Imm (addr_offset addr))) a)"

definition c_jr :: "Register \<Rightarrow> asm_op" where
  "c_jr rs1 a =
     ASSERT (Supports RV_C a \<and> rs1 \<noteq> ZR)
       (Emit16 (CR C_JR rs1 ZR) a)"

definition c_jalr :: "Register \<Rightarrow> asm_op" where
  "c_jalr rs1 a =
     ASSERT (Supports RV_C a)
       (Emit16 (CR C_JALR rs1 ZR) a)"

definition c_li :: "Register \<Rightarrow> intptr \<Rightarrow> asm_op" where
  "c_li rd imm a =
     ASSERT (Supports RV_C a \<and> rd \<noteq> ZR \<and> IsCIImm imm)
       (Emit16 (CI C_LI rd imm) a)"

definition c_lui :: "Register \<Rightarrow> intptr \<Rightarrow> asm_op" where
  "c_lui rd imm a =
     ASSERT (Supports RV_C a \<and> rd \<noteq> ZR \<and> rd \<noteq> SP \<and> IsCUImm imm)
       (Emit16 (CI_U C_LUI rd imm) a)"

definition c_addi :: "Register \<Rightarrow> Register \<Rightarrow> intptr \<Rightarrow> asm_op" where
  "c_addi rd rs1 imm a =
     ASSERT (Supports RV_C a \<and> imm \<noteq> 0 \<and> rd = rs1 \<and> IsCIImm imm)
       (Emit16 (CI C_ADDI rd imm) a)"

definition c_addiw :: "Register \<Rightarrow> Register \<Rightarrow> intptr \<Rightarrow> asm_op" where
  "c_addiw rd rs1 imm a =
     ASSERT (Supports RV_C a \<and> rd = rs1 \<and> IsCIImm imm)
       (Emit16 (CI C_ADDIW rd imm) a)"

definition c_addi16sp :: "Register \<Rightarrow> Register \<Rightarrow> intptr \<Rightarrow> asm_op" where
  "c_addi16sp rd rs1 imm a =
     ASSERT (Supports RV_C a \<and> rd = rs1 \<and> IsCI16Imm imm)
       (Emit16 (CI_16 C_ADDI16SP rd imm) a)"

definition c_addi4spn :: "Register \<Rightarrow> Register \<Rightarrow> intptr \<Rightarrow> asm_op" where
  "c_addi4spn rdp rs1 imm a =
     ASSERT (Supports RV_C a \<and> rs1 = SP \<and> imm \<noteq> 0 \<and> IsCRdp rdp \<and> IsCI4SPNImm imm)
       (Emit16 (CIW C_ADDI4SPN rdp imm) a)"

definition c_slli :: "Register \<Rightarrow> Register \<Rightarrow> intptr \<Rightarrow> asm_op" where
  "c_slli rd rs1 imm a =
     ASSERT (Supports RV_C a \<and> rd = rs1 \<and> imm \<noteq> 0 \<and> IsCIImm imm)
       (Emit16 (CI C_SLLI rd imm) a)"

definition c_srli :: "Register \<Rightarrow> Register \<Rightarrow> intptr \<Rightarrow> asm_op" where
  "c_srli rd rs1 imm a =
     ASSERT (Supports RV_C a \<and> rd = rs1 \<and> imm \<noteq> 0 \<and> IsCRs1p rd \<and> IsCIImm imm)
       (Emit16 (CBI C_SRLI rd imm) a)"

definition c_srai :: "Register \<Rightarrow> Register \<Rightarrow> intptr \<Rightarrow> asm_op" where
  "c_srai rd rs1 imm a =
     ASSERT (Supports RV_C a \<and> rd = rs1 \<and> imm \<noteq> 0 \<and> IsCRs1p rd \<and> IsCIImm imm)
       (Emit16 (CBI C_SRAI rd imm) a)"

definition c_andi :: "Register \<Rightarrow> Register \<Rightarrow> intptr \<Rightarrow> asm_op" where
  "c_andi rd rs1 imm a =
     ASSERT (Supports RV_C a \<and> rd = rs1 \<and> IsCRs1p rd \<and> IsCIImm imm)
       (Emit16 (CBI C_ANDI rd imm) a)"

definition c_mv :: "Register \<Rightarrow> Register \<Rightarrow> asm_op" where
  "c_mv rd rs2 a =
     ASSERT (Supports RV_C a \<and> rd \<noteq> ZR \<and> rs2 \<noteq> ZR)
       (Emit16 (CR C_MV rd rs2) a)"

definition c_add :: "Register \<Rightarrow> Register \<Rightarrow> Register \<Rightarrow> asm_op" where
  "c_add rd rs1 rs2 a =
     ASSERT (Supports RV_C a \<and> rd \<noteq> ZR \<and> rd = rs1 \<and> rs2 \<noteq> ZR)
       (Emit16 (CR C_ADD rd rs2) a)"

definition c_and :: "Register \<Rightarrow> Register \<Rightarrow> Register \<Rightarrow> asm_op" where
  "c_and rd rs1 rs2 a =
     ASSERT (Supports RV_C a \<and> rd = rs1 \<and> IsCRs1p rs1 \<and> IsCRs2p rs2)
       (Emit16 (CA C_AND rs1 rs2) a)"

definition c_or :: "Register \<Rightarrow> Register \<Rightarrow> Register \<Rightarrow> asm_op" where
  "c_or rd rs1 rs2 a =
     ASSERT (Supports RV_C a \<and> IsCRs1p rs1 \<and> IsCRs2p rs2)
       (Emit16 (CA C_OR rs1 rs2) a)"

definition c_xor :: "Register \<Rightarrow> Register \<Rightarrow> Register \<Rightarrow> asm_op" where
  "c_xor rd rs1 rs2 a =
     ASSERT (Supports RV_C a \<and> IsCRs1p rs1 \<and> IsCRs2p rs2)
       (Emit16 (CA C_XOR rs1 rs2) a)"

definition c_sub :: "Register \<Rightarrow> Register \<Rightarrow> Register \<Rightarrow> asm_op" where
  "c_sub rd rs1 rs2 a =
     ASSERT (Supports RV_C a \<and> IsCRs1p rs1 \<and> IsCRs2p rs2)
       (Emit16 (CA C_SUB rs1 rs2) a)"

definition c_addw :: "Register \<Rightarrow> Register \<Rightarrow> Register \<Rightarrow> asm_op" where
  "c_addw rd rs1 rs2 a =
     ASSERT (Supports RV_C a \<and> IsCRs1p rs1 \<and> IsCRs2p rs2)
       (Emit16 (CA C_ADDW rs1 rs2) a)"

definition c_subw :: "Register \<Rightarrow> Register \<Rightarrow> Register \<Rightarrow> asm_op" where
  "c_subw rd rs1 rs2 a =
     ASSERT (Supports RV_C a \<and> IsCRs1p rs1 \<and> IsCRs2p rs2)
       (Emit16 (CA C_SUBW rs1 rs2) a)"

definition c_nop :: "asm_op" where
  "c_nop a =
     ASSERT (Supports RV_C a)
       (Emit16 (ucast C_NOP) a)"

definition c_ebreak :: "asm_op" where
  "c_ebreak a =
     ASSERT (Supports RV_C a)
       (Emit16 (ucast C_EBREAK) a)"

subsection \<open>Branches and jumps\<close>

definition FATAL_unless :: "bool \<Rightarrow> asm_error \<Rightarrow> asm_error + 'a \<Rightarrow> asm_error + 'a" where
  "FATAL_unless c e r = (if c then r else Inl e)"

definition EmitCBranch :: "Register \<Rightarrow> label \<Rightarrow> COpcode \<Rightarrow> asm_op" where
  "EmitCBranch rs1p l op a =
     bindE (if IsBound l a then Inr (position (labels a l) - Position a, a) else link_cb l a)
       (\<lambda>(offset, a).
          FATAL_unless (IsCBImm (word_of_int offset)) IncorrectNearJump
            (ASSERT (IsCRs1p rs1p) (Emit16 (CB op rs1p (word_of_int offset)) a)))"

definition EmitCJump :: "label \<Rightarrow> COpcode \<Rightarrow> asm_op" where
  "EmitCJump l op a =
     bindE (if IsBound l a then Inr (position (labels a l) - Position a, a) else link_cj l a)
       (\<lambda>(offset, a).
          FATAL_unless (IsCJImm (word_of_int offset)) IncorrectNearJump
            (Emit16 (CJ op (word_of_int offset)) a))"

definition c_j :: "label \<Rightarrow> asm_op" where
  "c_j l a = ASSERT (Supports RV_C a) (EmitCJump l C_J a)"

definition c_beqz :: "Register \<Rightarrow> label \<Rightarrow> asm_op" where
  "c_beqz rs1p l a = ASSERT (Supports RV_C a) (EmitCBranch rs1p l C_BEQZ a)"

definition c_bnez :: "Register \<Rightarrow> label \<Rightarrow> asm_op" where
  "c_bnez rs1p l a = ASSERT (Supports RV_C a) (EmitCBranch rs1p l C_BNEZ a)"

definition InvertFunct3 :: "Funct3 \<Rightarrow> asm_error + Funct3" where
  "InvertFunct3 func =
     (if func = f3_BEQ then Inr f3_BNE
      else if func = f3_BNE then Inr f3_BEQ
      else if func = f3_BGE then Inr f3_BLT
      else if func = f3_BGEU then Inr f3_BLTU
      else if func = f3_BLT then Inr f3_BGE
      else if func = f3_BLTU then Inr f3_BGEU
      else Inl AsmUnreachable)"

text \<open>
  \<open>offset << (XLEN - 12) >> (XLEN - 12)\<close> and
  \<open>(offset - lo) << (XLEN - 32) >> (XLEN - 32)\<close>: the two halves of a 32-bit
  displacement.
\<close>

definition split_lo :: "intptr \<Rightarrow> intptr" where
  "split_lo offset = signed_drop_bit 52 (push_bit 52 offset)"

definition split_hi :: "intptr \<Rightarrow> intptr" where
  "split_hi offset = signed_drop_bit 32 (push_bit 32 (offset - split_lo offset))"

definition EmitFar :: "intptr \<Rightarrow> asm_op" where
  "EmitFar offset a =
     FATAL_unless (IsUTypeImm (split_hi offset)) DistanceExceeds2GB
       (bindE (EmitUType (split_hi offset) FAR_TMP op_AUIPC a)
          (EmitIType (split_lo offset) FAR_TMP f3_0 ZR op_JALR))"

definition EmitBranch ::
  "Register \<Rightarrow> Register \<Rightarrow> label \<Rightarrow> Funct3 \<Rightarrow> JumpDistance \<Rightarrow> asm_op" where
  "EmitBranch rs1 rs2 l func distance a =
     (if IsBound l a then
        if IsBTypeImm (label_offset l a) then EmitBType (label_offset l a) rs2 rs1 func op_BRANCH a
        else if IsJTypeImm (label_offset l a + 4) then
          bindE (InvertFunct3 func) (\<lambda>inv.
          bindE (EmitBType 8 rs2 rs1 inv op_BRANCH a) (\<lambda>a'.
          bindE (EmitJType (label_offset l a') ZR op_JAL a') (\<lambda>a''.
          ASSERT (Position a'' - Position a = 8) (Inr a''))))
        else
          bindE (InvertFunct3 func) (\<lambda>inv.
          bindE (EmitBType 12 rs2 rs1 inv op_BRANCH a) (\<lambda>a'.
          bindE (EmitFar (label_offset l a') a') (\<lambda>a''.
          ASSERT (Position a'' - Position a = 12) (Inr a''))))
      else if distance = kNearJump then
        bindE (link_b l a) (\<lambda>(offset, a).
        FATAL_unless (IsBTypeImm (word_of_int offset)) IncorrectNearJump
          (EmitBType (word_of_int offset) rs2 rs1 func op_BRANCH a))
      else if far_branch_level a = 0 then
        bindE (link_b l a) (\<lambda>(offset, a).
        FATAL_unless (IsBTypeImm (word_of_int offset)) BranchOffsetError
          (EmitBType (word_of_int offset) rs2 rs1 func op_BRANCH a))
      else if far_branch_level a = 1 then
        bindE (InvertFunct3 func) (\<lambda>inv.
        bindE (EmitBType 8 rs2 rs1 inv op_BRANCH a) (\<lambda>a'.
        bindE (link_j l a') (\<lambda>(offset, a').
        bindE (EmitJType (word_of_int offset) ZR op_JAL a') (\<lambda>a''.
        ASSERT (Position a'' - Position a = 8) (Inr a'')))))
      else
        bindE (InvertFunct3 func) (\<lambda>inv.
        bindE (EmitBType 12 rs2 rs1 inv op_BRANCH a) (\<lambda>a'.
        bindE (link_far l a') (\<lambda>(offset, a').
        bindE (EmitFar (word_of_int offset) a') (\<lambda>a''.
        ASSERT (Position a'' - Position a = 12) (Inr a''))))))"

definition EmitJump :: "Register \<Rightarrow> label \<Rightarrow> JumpDistance \<Rightarrow> asm_op" where
  "EmitJump rd l distance a =
     (if IsBound l a then
        if IsJTypeImm (label_offset l a) then EmitJType (label_offset l a) rd op_JAL a
        else EmitFar (label_offset l a) a
      else if distance = kNearJump then
        bindE (link_j l a) (\<lambda>(offset, a).
        FATAL_unless (IsJTypeImm (word_of_int offset)) IncorrectNearJump
          (EmitJType (word_of_int offset) rd op_JAL a))
      else if far_branch_level a < 2 then
        bindE (link_j l a) (\<lambda>(offset, a).
        FATAL_unless (IsJTypeImm (word_of_int offset)) BranchOffsetError
          (EmitJType (word_of_int offset) rd op_JAL a))
      else
        bindE (link_far l a) (\<lambda>(offset, a). EmitFar (word_of_int offset) a))"

subsection \<open>Binding a label\<close>

definition UpdateCBOffset :: "int \<Rightarrow> int \<Rightarrow> asm \<Rightarrow> asm_error + int \<times> asm" where
  "UpdateCBOffset branch_position new_offset a =
     bindE (Read16 branch_position a) (\<lambda>instr.
     ASSERT (CInstr_opcode instr = C_BEQZ \<or> CInstr_opcode instr = C_BNEZ)
     (FATAL_unless (IsCBImm (word_of_int new_offset)) IncorrectNearJump
     (bindE (Write16 branch_position
               (CB (CInstr_opcode instr) (DecodeCRs1p (ucast instr)) (word_of_int new_offset)) a) (\<lambda>a.
      Inr (sint (DecodeCBImm (ucast instr)), a)))))"

definition UpdateCJOffset :: "int \<Rightarrow> int \<Rightarrow> asm \<Rightarrow> asm_error + int \<times> asm" where
  "UpdateCJOffset branch_position new_offset a =
     bindE (Read16 branch_position a) (\<lambda>instr.
     ASSERT (CInstr_opcode instr = C_J \<or> CInstr_opcode instr = C_JAL)
     (FATAL_unless (IsCJImm (word_of_int new_offset)) IncorrectNearJump
     (bindE (Write16 branch_position (CJ (CInstr_opcode instr) (word_of_int new_offset)) a) (\<lambda>a.
      Inr (sint (DecodeCJImm (ucast instr)), a)))))"

definition UpdateBOffset :: "int \<Rightarrow> int \<Rightarrow> asm \<Rightarrow> asm_error + int \<times> asm" where
  "UpdateBOffset branch_position new_offset a =
     bindE (Read32 branch_position a) (\<lambda>instr.
     ASSERT (DecodeOpcode instr = op_BRANCH)
     (FATAL_unless (IsBTypeImm (word_of_int new_offset)) BranchOffsetError
     (bindE (Write32 branch_position
               (BType (word_of_int new_offset) (DecodeRs2 instr) (DecodeRs1 instr)
                  (DecodeFunct3 instr) (DecodeOpcode instr)) a) (\<lambda>a.
      Inr (sint (DecodeBTypeImm instr), a)))))"

definition UpdateJOffset :: "int \<Rightarrow> int \<Rightarrow> asm \<Rightarrow> asm_error + int \<times> asm" where
  "UpdateJOffset branch_position new_offset a =
     bindE (Read32 branch_position a) (\<lambda>instr.
     ASSERT (DecodeOpcode instr = op_JAL)
     (FATAL_unless (IsJTypeImm (word_of_int new_offset)) BranchOffsetError
     (bindE (Write32 branch_position
               (JType (word_of_int new_offset) (DecodeRd instr) (DecodeOpcode instr)) a) (\<lambda>a.
      Inr (sint (DecodeJTypeImm instr), a)))))"

definition UpdateFarOffset :: "int \<Rightarrow> int \<Rightarrow> asm \<Rightarrow> asm_error + int \<times> asm" where
  "UpdateFarOffset branch_position new_offset a =
     bindE (Read32 branch_position a) (\<lambda>auipc_instr.
     ASSERT (DecodeOpcode auipc_instr = op_AUIPC \<and> DecodeRd auipc_instr = FAR_TMP)
     (bindE (Read32 (branch_position + 4) a) (\<lambda>jr_instr.
     ASSERT (DecodeOpcode jr_instr = op_JALR \<and> DecodeRd jr_instr = ZR \<and>
             DecodeFunct3 jr_instr = f3_0 \<and> DecodeRs1 jr_instr = FAR_TMP)
     (let offset = word_of_int new_offset in
     FATAL_unless (IsUTypeImm (split_hi offset)) DistanceExceeds2GB
     (bindE (Write32 branch_position (UType (split_hi offset) FAR_TMP op_AUIPC) a) (\<lambda>a.
      bindE (Write32 (branch_position + 4) (IType (split_lo offset) FAR_TMP f3_0 ZR op_JALR) a) (\<lambda>a.
      Inr (sint (DecodeUTypeImm auipc_instr + DecodeITypeImm jr_instr), a))))))))"

definition code_alignment :: "asm \<Rightarrow> intptr" where
  "code_alignment a = (if Supports RV_C a then 2 else 4)"

text \<open>The loop of the macro \<open>BIND\<close>; \<open>None\<close> is a loop that does not end.\<close>

partial_function (option) BIND_loop ::
  "(int \<Rightarrow> int \<Rightarrow> asm \<Rightarrow> asm_error + int \<times> asm) \<Rightarrow> int \<Rightarrow> int \<Rightarrow> asm \<Rightarrow> (asm_error + asm) option"
where
  "BIND_loop update target_position branch_position a =
     (if branch_position < 0 then Some (Inr a)
      else if \<not> (IsAligned (word_of_int branch_position) (code_alignment a) \<and>
                 IsAligned (word_of_int (target_position - branch_position)) (code_alignment a))
      then Some (Inl AssertionFailed)
      else case update branch_position (target_position - branch_position) a of
             Inl e \<Rightarrow> Some (Inl e)
           | Inr (old_offset, a) \<Rightarrow>
               if old_offset = 0 then Some (Inr a)
               else BIND_loop update target_position (branch_position - old_offset) a)"

definition BIND ::
  "(Label \<Rightarrow> int) \<Rightarrow> (Label \<Rightarrow> Label) \<Rightarrow> (int \<Rightarrow> int \<Rightarrow> asm \<Rightarrow> asm_error + int \<times> asm) \<Rightarrow> int \<Rightarrow> label \<Rightarrow>
     asm \<Rightarrow> (asm_error + asm) option"
where
  "BIND head clear update target_position l a =
     (case BIND_loop update target_position (head (labels a l)) a of
        None \<Rightarrow> None
      | Some (Inl e) \<Rightarrow> Some (Inl e)
      | Some (Inr a) \<Rightarrow> Some (Inr (a\<lparr>labels := (labels a)(l := clear (labels a l))\<rparr>)))"

definition and_then ::
  "(asm_error + asm) option \<Rightarrow> (asm \<Rightarrow> (asm_error + asm) option) \<Rightarrow> (asm_error + asm) option"
where
  "and_then r f = (case r of None \<Rightarrow> None | Some (Inl e) \<Rightarrow> Some (Inl e) | Some (Inr a) \<Rightarrow> f a)"

definition BindTo :: "int \<Rightarrow> label \<Rightarrow> asm_op" where
  "BindTo p l a =
     ASSERT (\<not> IsBound l a \<and> \<not> IsLinked l a)
       (ASSERT (p \<noteq> - 1) (Inr (a\<lparr>labels := (labels a)(l := (labels a l)\<lparr>position := p\<rparr>)\<rparr>)))"

definition Bind :: "label \<Rightarrow> asm \<Rightarrow> (asm_error + asm) option" where
  "Bind l a =
     (if IsBound l a then Some (Inl AssertionFailed)
      else let target_position = Position a in
        and_then (BIND unresolved_cb (unresolved_cb_update (\<lambda>_. - 1)) UpdateCBOffset target_position l a)
          (\<lambda>a. and_then (BIND unresolved_cj (unresolved_cj_update (\<lambda>_. - 1)) UpdateCJOffset target_position l a)
          (\<lambda>a. and_then (BIND unresolved_b (unresolved_b_update (\<lambda>_. - 1)) UpdateBOffset target_position l a)
          (\<lambda>a. and_then (BIND unresolved_j (unresolved_j_update (\<lambda>_. - 1)) UpdateJOffset target_position l a)
          (\<lambda>a. and_then (BIND unresolved_far (unresolved_far_update (\<lambda>_. - 1)) UpdateFarOffset target_position l a)
          (\<lambda>a. Some (BindTo target_position l a)))))))"

end
