(* ===== verification/Riscv_Instructions.thy ===== *)
theory Riscv_Instructions
  imports Riscv_Assembler
begin

text \<open>
  The operations of \<open>MicroAssembler\<close>, one definition per method of
  \<open>assembler_riscv.cc\<close>, in the order of the file: RV64I, M, A, F and D, each with
  the compressed encoding it prefers when the extension C is available, and the
  pseudo-instructions of \<open>assembler_riscv.h\<close>.
\<close>

unbundle bit_operations_syntax

subsection \<open>RV64I\<close>

definition lui :: "Register \<Rightarrow> intptr \<Rightarrow> asm_op" where
  "lui rd imm a =
     ASSERT (Supports RV_I a)
       (if Supports RV_C a \<and> rd \<noteq> ZR \<and> rd \<noteq> SP \<and> IsCUImm imm then c_lui rd imm a
        else EmitUType imm rd op_LUI a)"

definition lui_fixed :: "Register \<Rightarrow> intptr \<Rightarrow> asm_op" where
  "lui_fixed rd imm a =
     ASSERT (Supports RV_I a)
       (EmitUType imm rd op_LUI a)"

definition auipc :: "Register \<Rightarrow> intptr \<Rightarrow> asm_op" where
  "auipc rd imm a =
     ASSERT (Supports RV_I a)
       (EmitUType imm rd op_AUIPC a)"

definition jal :: "Register \<Rightarrow> label \<Rightarrow> JumpDistance \<Rightarrow> asm_op" where
  "jal rd l distance a =
     ASSERT (Supports RV_I a)
       (if Supports RV_C a \<and> (distance = kNearJump \<or> IsBound l a \<and> IsCJImm (label_offset l a)) \<and> rd = ZR
        then c_j l a
        else EmitJump rd l distance a)"

definition jalr :: "Register \<Rightarrow> Register \<Rightarrow> intptr \<Rightarrow> asm_op" where
  "jalr rd rs1 offset a =
     ASSERT (Supports RV_I a)
       (if Supports RV_C a \<and> rs1 \<noteq> ZR \<and> offset = 0 \<and> rd = ZR then c_jr rs1 a
        else if Supports RV_C a \<and> rs1 \<noteq> ZR \<and> offset = 0 \<and> rd = RA then c_jalr rs1 a
        else EmitIType offset rs1 f3_0 rd op_JALR a)"

definition jalr_fixed :: "Register \<Rightarrow> Register \<Rightarrow> intptr \<Rightarrow> asm_op" where
  "jalr_fixed rd rs1 offset a =
     ASSERT (Supports RV_I a)
       (EmitIType offset rs1 f3_0 rd op_JALR a)"

definition beq :: "Register \<Rightarrow> Register \<Rightarrow> label \<Rightarrow> JumpDistance \<Rightarrow> asm_op" where
  "beq rs1 rs2 l distance a =
     ASSERT (Supports RV_I a)
       (if Supports RV_C a \<and> (distance = kNearJump \<or> IsBound l a \<and> IsCBImm (label_offset l a)) \<and>
           rs1 = ZR \<and> IsCRs1p rs2 then c_beqz rs2 l a
        else if Supports RV_C a \<and> (distance = kNearJump \<or> IsBound l a \<and> IsCBImm (label_offset l a)) \<and>
           rs2 = ZR \<and> IsCRs1p rs1 then c_beqz rs1 l a
        else EmitBranch rs1 rs2 l f3_BEQ distance a)"

definition bne :: "Register \<Rightarrow> Register \<Rightarrow> label \<Rightarrow> JumpDistance \<Rightarrow> asm_op" where
  "bne rs1 rs2 l distance a =
     ASSERT (Supports RV_I a)
       (if Supports RV_C a \<and> (distance = kNearJump \<or> IsBound l a \<and> IsCBImm (label_offset l a)) \<and>
           rs1 = ZR \<and> IsCRs1p rs2 then c_bnez rs2 l a
        else if Supports RV_C a \<and> (distance = kNearJump \<or> IsBound l a \<and> IsCBImm (label_offset l a)) \<and>
           rs2 = ZR \<and> IsCRs1p rs1 then c_bnez rs1 l a
        else EmitBranch rs1 rs2 l f3_BNE distance a)"

definition blt :: "Register \<Rightarrow> Register \<Rightarrow> label \<Rightarrow> JumpDistance \<Rightarrow> asm_op" where
  "blt rs1 rs2 l distance a =
     ASSERT (Supports RV_I a) (EmitBranch rs1 rs2 l f3_BLT distance a)"

definition bge :: "Register \<Rightarrow> Register \<Rightarrow> label \<Rightarrow> JumpDistance \<Rightarrow> asm_op" where
  "bge rs1 rs2 l distance a =
     ASSERT (Supports RV_I a) (EmitBranch rs1 rs2 l f3_BGE distance a)"

definition bltu :: "Register \<Rightarrow> Register \<Rightarrow> label \<Rightarrow> JumpDistance \<Rightarrow> asm_op" where
  "bltu rs1 rs2 l distance a =
     ASSERT (Supports RV_I a) (EmitBranch rs1 rs2 l f3_BLTU distance a)"

definition bgeu :: "Register \<Rightarrow> Register \<Rightarrow> label \<Rightarrow> JumpDistance \<Rightarrow> asm_op" where
  "bgeu rs1 rs2 l distance a = EmitBranch rs1 rs2 l f3_BGEU distance a"

definition lb :: "Register \<Rightarrow> Address \<Rightarrow> asm_op" where
  "lb rd addr a =
     ASSERT (Supports RV_I a)
       (EmitIType (addr_offset addr) (addr_base addr) f3_LB rd op_LOAD a)"

definition lh :: "Register \<Rightarrow> Address \<Rightarrow> asm_op" where
  "lh rd addr a =
     ASSERT (Supports RV_I a)
       (EmitIType (addr_offset addr) (addr_base addr) f3_LH rd op_LOAD a)"

definition lw :: "Register \<Rightarrow> Address \<Rightarrow> asm_op" where
  "lw rd addr a =
     ASSERT (Supports RV_I a)
       (if Supports RV_C a \<and> rd \<noteq> ZR \<and> addr_base addr = SP \<and> IsCSPLoad4Imm (addr_offset addr) then c_lwsp rd addr a
        else if Supports RV_C a \<and> IsCRdp rd \<and> IsCRs1p (addr_base addr) \<and> IsCMem4Imm (addr_offset addr) then c_lw rd addr a
        else EmitIType (addr_offset addr) (addr_base addr) f3_LW rd op_LOAD a)"

definition lbu :: "Register \<Rightarrow> Address \<Rightarrow> asm_op" where
  "lbu rd addr a =
     ASSERT (Supports RV_I a)
       (EmitIType (addr_offset addr) (addr_base addr) f3_LBU rd op_LOAD a)"

definition lhu :: "Register \<Rightarrow> Address \<Rightarrow> asm_op" where
  "lhu rd addr a =
     ASSERT (Supports RV_I a)
       (EmitIType (addr_offset addr) (addr_base addr) f3_LHU rd op_LOAD a)"

definition sb :: "Register \<Rightarrow> Address \<Rightarrow> asm_op" where
  "sb rs2 addr a =
     ASSERT (Supports RV_I a)
       (EmitSType (addr_offset addr) rs2 (addr_base addr) f3_SB op_STORE a)"

definition sh :: "Register \<Rightarrow> Address \<Rightarrow> asm_op" where
  "sh rs2 addr a =
     ASSERT (Supports RV_I a)
       (EmitSType (addr_offset addr) rs2 (addr_base addr) f3_SH op_STORE a)"

definition sw :: "Register \<Rightarrow> Address \<Rightarrow> asm_op" where
  "sw rs2 addr a =
     ASSERT (Supports RV_I a)
       (if Supports RV_C a \<and> addr_base addr = SP \<and> IsCSPStore4Imm (addr_offset addr) then c_swsp rs2 addr a
        else if Supports RV_C a \<and> IsCRs2p rs2 \<and> IsCRs1p (addr_base addr) \<and> IsCMem4Imm (addr_offset addr) then c_sw rs2 addr a
        else EmitSType (addr_offset addr) rs2 (addr_base addr) f3_SW op_STORE a)"

definition addi :: "Register \<Rightarrow> Register \<Rightarrow> intptr \<Rightarrow> asm_op" where
  "addi rd rs1 imm a =
     ASSERT (Supports RV_I a)
       (if Supports RV_C a \<and> rd \<noteq> ZR \<and> rs1 = ZR \<and> IsCIImm imm then c_li rd imm a
        else if Supports RV_C a \<and> rd = rs1 \<and> IsCIImm imm \<and> imm \<noteq> 0 then c_addi rd rs1 imm a
        else if Supports RV_C a \<and> rd = SP \<and> rs1 = SP \<and> IsCI16Imm imm \<and> imm \<noteq> 0
        then c_addi16sp rd rs1 imm a
        else if Supports RV_C a \<and> IsCRdp rd \<and> rs1 = SP \<and> IsCI4SPNImm imm \<and> imm \<noteq> 0
        then c_addi4spn rd rs1 imm a
        else if Supports RV_C a \<and> imm = 0 \<and> rd = ZR \<and> rs1 = ZR then c_nop a
        else if Supports RV_C a \<and> imm = 0 \<and> rd \<noteq> ZR \<and> rs1 \<noteq> ZR then c_mv rd rs1 a
        else EmitIType imm rs1 f3_ADDI rd op_OPIMM a)"

definition slti :: "Register \<Rightarrow> Register \<Rightarrow> intptr \<Rightarrow> asm_op" where
  "slti rd rs1 imm a =
     ASSERT (Supports RV_I a)
       (EmitIType imm rs1 f3_SLTI rd op_OPIMM a)"

definition sltiu :: "Register \<Rightarrow> Register \<Rightarrow> intptr \<Rightarrow> asm_op" where
  "sltiu rd rs1 imm a =
     ASSERT (Supports RV_I a)
       (EmitIType imm rs1 f3_SLTIU rd op_OPIMM a)"

definition xori :: "Register \<Rightarrow> Register \<Rightarrow> intptr \<Rightarrow> asm_op" where
  "xori rd rs1 imm a =
     ASSERT (Supports RV_I a)
       (EmitIType imm rs1 f3_XORI rd op_OPIMM a)"

definition ori :: "Register \<Rightarrow> Register \<Rightarrow> intptr \<Rightarrow> asm_op" where
  "ori rd rs1 imm a =
     ASSERT (Supports RV_I a)
       (EmitIType imm rs1 f3_ORI rd op_OPIMM a)"

definition andi :: "Register \<Rightarrow> Register \<Rightarrow> intptr \<Rightarrow> asm_op" where
  "andi rd rs1 imm a =
     ASSERT (Supports RV_I a)
       (if Supports RV_C a \<and> rd = rs1 \<and> IsCRs1p rs1 \<and> IsCIImm imm then c_andi rd rs1 imm a
        else EmitIType imm rs1 f3_ANDI rd op_OPIMM a)"

definition slli :: "Register \<Rightarrow> Register \<Rightarrow> intptr \<Rightarrow> asm_op" where
  "slli rd rs1 shamt a =
     ASSERT (0 <s shamt \<and> shamt <s 64 \<and> Supports RV_I a)
       (if Supports RV_C a \<and> rd = rs1 \<and> shamt \<noteq> 0 \<and> IsCIImm shamt then c_slli rd rs1 shamt a
        else EmitRType_shamt f7_0 shamt rs1 f3_SLLI rd op_OPIMM a)"

definition srli :: "Register \<Rightarrow> Register \<Rightarrow> intptr \<Rightarrow> asm_op" where
  "srli rd rs1 shamt a =
     ASSERT (0 <s shamt \<and> shamt <s 64 \<and> Supports RV_I a)
       (if Supports RV_C a \<and> rd = rs1 \<and> IsCRs1p rs1 \<and> shamt \<noteq> 0 \<and> IsCIImm shamt then c_srli rd rs1 shamt a
        else EmitRType_shamt f7_0 shamt rs1 f3_SRI rd op_OPIMM a)"

definition srai :: "Register \<Rightarrow> Register \<Rightarrow> intptr \<Rightarrow> asm_op" where
  "srai rd rs1 shamt a =
     ASSERT (0 <s shamt \<and> shamt <s 64 \<and> Supports RV_I a)
       (if Supports RV_C a \<and> rd = rs1 \<and> IsCRs1p rs1 \<and> shamt \<noteq> 0 \<and> IsCIImm shamt then c_srai rd rs1 shamt a
        else EmitRType_shamt f7_SRA shamt rs1 f3_SRI rd op_OPIMM a)"

definition add :: "Register \<Rightarrow> Register \<Rightarrow> Register \<Rightarrow> asm_op" where
  "add rd rs1 rs2 a =
     ASSERT (Supports RV_I a)
       (if Supports RV_C a \<and> rd = rs1 then c_add rd rs1 rs2 a
        else if Supports RV_C a \<and> rd = rs2 then c_add rd rs2 rs1 a
        else EmitRType f7_0 rs2 rs1 f3_ADD rd op_OP a)"

definition sub :: "Register \<Rightarrow> Register \<Rightarrow> Register \<Rightarrow> asm_op" where
  "sub rd rs1 rs2 a =
     ASSERT (Supports RV_I a)
       (if Supports RV_C a \<and> rd = rs1 \<and> IsCRs1p rs1 \<and> IsCRs2p rs2 then c_sub rd rs1 rs2 a
        else EmitRType f7_SUB rs2 rs1 f3_ADD rd op_OP a)"

definition sll :: "Register \<Rightarrow> Register \<Rightarrow> Register \<Rightarrow> asm_op" where
  "sll rd rs1 rs2 a =
     ASSERT (Supports RV_I a)
       (EmitRType f7_0 rs2 rs1 f3_SLL rd op_OP a)"

definition slt :: "Register \<Rightarrow> Register \<Rightarrow> Register \<Rightarrow> asm_op" where
  "slt rd rs1 rs2 a =
     ASSERT (Supports RV_I a)
       (EmitRType f7_0 rs2 rs1 f3_SLT rd op_OP a)"

definition sltu :: "Register \<Rightarrow> Register \<Rightarrow> Register \<Rightarrow> asm_op" where
  "sltu rd rs1 rs2 a =
     ASSERT (Supports RV_I a)
       (EmitRType f7_0 rs2 rs1 f3_SLTU rd op_OP a)"

definition xor_rr :: "Register \<Rightarrow> Register \<Rightarrow> Register \<Rightarrow> asm_op" where
  "xor_rr rd rs1 rs2 a =
     ASSERT (Supports RV_I a)
       (if Supports RV_C a \<and> rd = rs1 \<and> IsCRs1p rs1 \<and> IsCRs2p rs2 then c_xor rd rs1 rs2 a
        else if Supports RV_C a \<and> rd = rs2 \<and> IsCRs1p rs1 \<and> IsCRs2p rs2 then c_xor rd rs2 rs1 a
        else EmitRType f7_0 rs2 rs1 f3_XOR rd op_OP a)"

definition srl :: "Register \<Rightarrow> Register \<Rightarrow> Register \<Rightarrow> asm_op" where
  "srl rd rs1 rs2 a =
     ASSERT (Supports RV_I a)
       (EmitRType f7_0 rs2 rs1 f3_SR rd op_OP a)"

definition sra :: "Register \<Rightarrow> Register \<Rightarrow> Register \<Rightarrow> asm_op" where
  "sra rd rs1 rs2 a =
     ASSERT (Supports RV_I a)
       (EmitRType f7_SRA rs2 rs1 f3_SR rd op_OP a)"

definition or_rr :: "Register \<Rightarrow> Register \<Rightarrow> Register \<Rightarrow> asm_op" where
  "or_rr rd rs1 rs2 a =
     ASSERT (Supports RV_I a)
       (if Supports RV_C a \<and> rd = rs1 \<and> IsCRs1p rs1 \<and> IsCRs2p rs2 then c_or rd rs1 rs2 a
        else if Supports RV_C a \<and> rd = rs2 \<and> IsCRs1p rs1 \<and> IsCRs2p rs2 then c_or rd rs2 rs1 a
        else EmitRType f7_0 rs2 rs1 f3_OR rd op_OP a)"

definition and_rr :: "Register \<Rightarrow> Register \<Rightarrow> Register \<Rightarrow> asm_op" where
  "and_rr rd rs1 rs2 a =
     ASSERT (Supports RV_I a)
       (if Supports RV_C a \<and> rd = rs1 \<and> IsCRs1p rs1 \<and> IsCRs2p rs2 then c_and rd rs1 rs2 a
        else if Supports RV_C a \<and> rd = rs2 \<and> IsCRs1p rs1 \<and> IsCRs2p rs2 then c_and rd rs2 rs1 a
        else EmitRType f7_0 rs2 rs1 f3_AND rd op_OP a)"

type_synonym HartEffects = u32

abbreviation (input) kWrite :: HartEffects where "kWrite \<equiv> 1"
abbreviation (input) kRead :: HartEffects where "kRead \<equiv> 2"
abbreviation (input) kOutput :: HartEffects where "kOutput \<equiv> 4"
abbreviation (input) kInput :: HartEffects where "kInput \<equiv> 8"
abbreviation (input) kAll :: HartEffects where "kAll \<equiv> 15"

definition fence :: "HartEffects \<Rightarrow> HartEffects \<Rightarrow> asm_op" where
  "fence predecessor successor a =
     ASSERT (predecessor AND kAll = predecessor \<and> successor AND kAll = successor \<and> Supports RV_I a)
       (EmitIType (push_bit 4 (ucast predecessor) OR ucast successor) ZR f3_FENCE ZR op_MISCMEM a)"

definition fencei :: asm_op where
  "fencei a = ASSERT (Supports RV_I a) (EmitIType 0 ZR f3_FENCEI ZR op_MISCMEM a)"

definition ecall :: asm_op where
  "ecall a = ASSERT (Supports RV_I a) (EmitIType (ucast f12_ECALL) ZR f3_0 ZR op_SYSTEM a)"

definition ebreak :: asm_op where
  "ebreak a =
     ASSERT (Supports RV_I a)
       (if Supports RV_C a then c_ebreak a
        else EmitIType (ucast f12_EBREAK) ZR f3_0 ZR op_SYSTEM a)"

definition SimulatorPrintObject :: "Register \<Rightarrow> asm_op" where
  "SimulatorPrintObject rs1 a =
     ASSERT (Supports RV_I a) (EmitIType (ucast f12_ECALL) rs1 f3_0 ZR op_SYSTEM a)"

definition csrrw :: "Register \<Rightarrow> u32 \<Rightarrow> Register \<Rightarrow> asm_op" where
  "csrrw rd csr rs1 a = ASSERT (Supports RV_I a) (EmitIType (ucast csr) rs1 f3_CSRRW rd op_SYSTEM a)"

definition csrrs :: "Register \<Rightarrow> u32 \<Rightarrow> Register \<Rightarrow> asm_op" where
  "csrrs rd csr rs1 a = ASSERT (Supports RV_I a) (EmitIType (ucast csr) rs1 f3_CSRRS rd op_SYSTEM a)"

definition csrrc :: "Register \<Rightarrow> u32 \<Rightarrow> Register \<Rightarrow> asm_op" where
  "csrrc rd csr rs1 a = ASSERT (Supports RV_I a) (EmitIType (ucast csr) rs1 f3_CSRRC rd op_SYSTEM a)"

definition csrrwi :: "Register \<Rightarrow> u32 \<Rightarrow> u32 \<Rightarrow> asm_op" where
  "csrrwi rd csr imm a =
     ASSERT (Supports RV_I a) (EmitIType (ucast csr) (ucast imm) f3_CSRRWI rd op_SYSTEM a)"

definition csrrsi :: "Register \<Rightarrow> u32 \<Rightarrow> u32 \<Rightarrow> asm_op" where
  "csrrsi rd csr imm a =
     ASSERT (Supports RV_I a) (EmitIType (ucast csr) (ucast imm) f3_CSRRSI rd op_SYSTEM a)"

definition csrrci :: "Register \<Rightarrow> u32 \<Rightarrow> u32 \<Rightarrow> asm_op" where
  "csrrci rd csr imm a =
     ASSERT (Supports RV_I a) (EmitIType (ucast csr) (ucast imm) f3_CSRRCI rd op_SYSTEM a)"

definition trap :: asm_op where
  "trap a = ASSERT (Supports RV_I a) (if Supports RV_C a then Emit16 0 a else Emit32 0 a)"

definition lwu :: "Register \<Rightarrow> Address \<Rightarrow> asm_op" where
  "lwu rd addr a =
     ASSERT (Supports RV_I a)
       (EmitIType (addr_offset addr) (addr_base addr) f3_LWU rd op_LOAD a)"

definition ld :: "Register \<Rightarrow> Address \<Rightarrow> asm_op" where
  "ld rd addr a =
     ASSERT (Supports RV_I a)
       (if Supports RV_C a \<and> rd \<noteq> ZR \<and> addr_base addr = SP \<and> IsCSPLoad8Imm (addr_offset addr) then c_ldsp rd addr a
        else if Supports RV_C a \<and> IsCRdp rd \<and> IsCRs1p (addr_base addr) \<and> IsCMem8Imm (addr_offset addr) then c_ld rd addr a
        else EmitIType (addr_offset addr) (addr_base addr) f3_LD rd op_LOAD a)"

definition sd :: "Register \<Rightarrow> Address \<Rightarrow> asm_op" where
  "sd rs2 addr a =
     ASSERT (Supports RV_I a)
       (if Supports RV_C a \<and> addr_base addr = SP \<and> IsCSPStore8Imm (addr_offset addr) then c_sdsp rs2 addr a
        else if Supports RV_C a \<and> IsCRs2p rs2 \<and> IsCRs1p (addr_base addr) \<and> IsCMem8Imm (addr_offset addr) then c_sd rs2 addr a
        else EmitSType (addr_offset addr) rs2 (addr_base addr) f3_SD op_STORE a)"

definition addiw :: "Register \<Rightarrow> Register \<Rightarrow> intptr \<Rightarrow> asm_op" where
  "addiw rd rs1 imm a =
     ASSERT (Supports RV_I a)
       (if Supports RV_C a \<and> rd \<noteq> ZR \<and> rs1 = ZR \<and> IsCIImm imm then c_li rd imm a
        else if Supports RV_C a \<and> rd = rs1 \<and> rd \<noteq> ZR \<and> IsCIImm imm then c_addiw rd rs1 imm a
        else EmitIType imm rs1 f3_ADDI rd op_OPIMM32 a)"

definition slliw :: "Register \<Rightarrow> Register \<Rightarrow> intptr \<Rightarrow> asm_op" where
  "slliw rd rs1 shamt a =
     ASSERT (0 <s shamt \<and> shamt <s 32 \<and> Supports RV_I a)
       (EmitRType_shamt f7_0 shamt rs1 f3_SLLI rd op_OPIMM32 a)"

definition srliw :: "Register \<Rightarrow> Register \<Rightarrow> intptr \<Rightarrow> asm_op" where
  "srliw rd rs1 shamt a =
     ASSERT (0 <s shamt \<and> shamt <s 32 \<and> Supports RV_I a)
       (EmitRType_shamt f7_0 shamt rs1 f3_SRI rd op_OPIMM32 a)"

definition sraiw :: "Register \<Rightarrow> Register \<Rightarrow> intptr \<Rightarrow> asm_op" where
  "sraiw rd rs1 shamt a =
     ASSERT (0 <s shamt \<and> shamt <s 64 \<and> Supports RV_I a)
       (EmitRType_shamt f7_SRA shamt rs1 f3_SRI rd op_OPIMM32 a)"

definition addw :: "Register \<Rightarrow> Register \<Rightarrow> Register \<Rightarrow> asm_op" where
  "addw rd rs1 rs2 a =
     ASSERT (Supports RV_I a)
       (if Supports RV_C a \<and> rd = rs1 \<and> IsCRs1p rs1 \<and> IsCRs2p rs2 then c_addw rd rs1 rs2 a
        else if Supports RV_C a \<and> rd = rs2 \<and> IsCRs1p rs1 \<and> IsCRs2p rs2 then c_addw rd rs2 rs1 a
        else EmitRType f7_0 rs2 rs1 f3_ADD rd op_OP32 a)"

definition subw :: "Register \<Rightarrow> Register \<Rightarrow> Register \<Rightarrow> asm_op" where
  "subw rd rs1 rs2 a =
     ASSERT (Supports RV_I a)
       (if Supports RV_C a \<and> rd = rs1 \<and> IsCRs1p rs1 \<and> IsCRs2p rs2 then c_subw rd rs1 rs2 a
        else EmitRType f7_SUB rs2 rs1 f3_ADD rd op_OP32 a)"

definition sllw :: "Register \<Rightarrow> Register \<Rightarrow> Register \<Rightarrow> asm_op" where
  "sllw rd rs1 rs2 a =
     ASSERT (Supports RV_I a)
       (EmitRType f7_0 rs2 rs1 f3_SLL rd op_OP32 a)"

definition srlw :: "Register \<Rightarrow> Register \<Rightarrow> Register \<Rightarrow> asm_op" where
  "srlw rd rs1 rs2 a =
     ASSERT (Supports RV_I a)
       (EmitRType f7_0 rs2 rs1 f3_SR rd op_OP32 a)"

definition sraw :: "Register \<Rightarrow> Register \<Rightarrow> Register \<Rightarrow> asm_op" where
  "sraw rd rs1 rs2 a =
     ASSERT (Supports RV_I a)
       (EmitRType f7_SRA rs2 rs1 f3_SR rd op_OP32 a)"

subsection \<open>RV64M\<close>

definition mul :: "Register \<Rightarrow> Register \<Rightarrow> Register \<Rightarrow> asm_op" where
  "mul rd rs1 rs2 a =
     ASSERT (Supports RV_M a)
       (EmitRType f7_MULDIV rs2 rs1 f3_MUL rd op_OP a)"

definition mulh :: "Register \<Rightarrow> Register \<Rightarrow> Register \<Rightarrow> asm_op" where
  "mulh rd rs1 rs2 a =
     ASSERT (Supports RV_M a)
       (EmitRType f7_MULDIV rs2 rs1 f3_MULH rd op_OP a)"

definition mulhsu :: "Register \<Rightarrow> Register \<Rightarrow> Register \<Rightarrow> asm_op" where
  "mulhsu rd rs1 rs2 a =
     ASSERT (Supports RV_M a)
       (EmitRType f7_MULDIV rs2 rs1 f3_MULHSU rd op_OP a)"

definition mulhu :: "Register \<Rightarrow> Register \<Rightarrow> Register \<Rightarrow> asm_op" where
  "mulhu rd rs1 rs2 a =
     ASSERT (Supports RV_M a)
       (EmitRType f7_MULDIV rs2 rs1 f3_MULHU rd op_OP a)"

definition div_rr :: "Register \<Rightarrow> Register \<Rightarrow> Register \<Rightarrow> asm_op" where
  "div_rr rd rs1 rs2 a =
     ASSERT (Supports RV_M a)
       (EmitRType f7_MULDIV rs2 rs1 f3_DIV rd op_OP a)"

definition divu :: "Register \<Rightarrow> Register \<Rightarrow> Register \<Rightarrow> asm_op" where
  "divu rd rs1 rs2 a =
     ASSERT (Supports RV_M a)
       (EmitRType f7_MULDIV rs2 rs1 f3_DIVU rd op_OP a)"

definition rem :: "Register \<Rightarrow> Register \<Rightarrow> Register \<Rightarrow> asm_op" where
  "rem rd rs1 rs2 a =
     ASSERT (Supports RV_M a)
       (EmitRType f7_MULDIV rs2 rs1 f3_REM rd op_OP a)"

definition remu :: "Register \<Rightarrow> Register \<Rightarrow> Register \<Rightarrow> asm_op" where
  "remu rd rs1 rs2 a =
     ASSERT (Supports RV_M a)
       (EmitRType f7_MULDIV rs2 rs1 f3_REMU rd op_OP a)"

definition mulw :: "Register \<Rightarrow> Register \<Rightarrow> Register \<Rightarrow> asm_op" where
  "mulw rd rs1 rs2 a =
     ASSERT (Supports RV_M a)
       (EmitRType f7_MULDIV rs2 rs1 f3_MULW rd op_OP32 a)"

definition divw :: "Register \<Rightarrow> Register \<Rightarrow> Register \<Rightarrow> asm_op" where
  "divw rd rs1 rs2 a =
     ASSERT (Supports RV_M a)
       (EmitRType f7_MULDIV rs2 rs1 f3_DIVW rd op_OP32 a)"

definition divuw :: "Register \<Rightarrow> Register \<Rightarrow> Register \<Rightarrow> asm_op" where
  "divuw rd rs1 rs2 a =
     ASSERT (Supports RV_M a)
       (EmitRType f7_MULDIV rs2 rs1 f3_DIVUW rd op_OP32 a)"

definition remw :: "Register \<Rightarrow> Register \<Rightarrow> Register \<Rightarrow> asm_op" where
  "remw rd rs1 rs2 a =
     ASSERT (Supports RV_M a)
       (EmitRType f7_MULDIV rs2 rs1 f3_REMW rd op_OP32 a)"

definition remuw :: "Register \<Rightarrow> Register \<Rightarrow> Register \<Rightarrow> asm_op" where
  "remuw rd rs1 rs2 a =
     ASSERT (Supports RV_M a)
       (EmitRType f7_MULDIV rs2 rs1 f3_REMUW rd op_OP32 a)"

subsection \<open>RV64A\<close>

definition lrw :: "Register \<Rightarrow> Address \<Rightarrow> memory_order \<Rightarrow> asm_op" where
  "lrw rd addr order a =
     ASSERT (addr_offset addr = 0 \<and> Supports RV_A a)
       (EmitRType_amo f5_LR order ZR (addr_base addr) f3_WIDTH32 rd op_AMO a)"

definition scw :: "Register \<Rightarrow> Register \<Rightarrow> Address \<Rightarrow> memory_order \<Rightarrow> asm_op" where
  "scw rd rs2 addr order a =
     ASSERT (addr_offset addr = 0 \<and> Supports RV_A a)
       (EmitRType_amo f5_SC order rs2 (addr_base addr) f3_WIDTH32 rd op_AMO a)"

definition amoswapw :: "Register \<Rightarrow> Register \<Rightarrow> Address \<Rightarrow> memory_order \<Rightarrow> asm_op" where
  "amoswapw rd rs2 addr order a =
     ASSERT (addr_offset addr = 0 \<and> Supports RV_A a)
       (EmitRType_amo f5_AMOSWAP order rs2 (addr_base addr) f3_WIDTH32 rd op_AMO a)"

definition amoaddw :: "Register \<Rightarrow> Register \<Rightarrow> Address \<Rightarrow> memory_order \<Rightarrow> asm_op" where
  "amoaddw rd rs2 addr order a =
     ASSERT (addr_offset addr = 0 \<and> Supports RV_A a)
       (EmitRType_amo f5_AMOADD order rs2 (addr_base addr) f3_WIDTH32 rd op_AMO a)"

definition amoxorw :: "Register \<Rightarrow> Register \<Rightarrow> Address \<Rightarrow> memory_order \<Rightarrow> asm_op" where
  "amoxorw rd rs2 addr order a =
     ASSERT (addr_offset addr = 0 \<and> Supports RV_A a)
       (EmitRType_amo f5_AMOXOR order rs2 (addr_base addr) f3_WIDTH32 rd op_AMO a)"

definition amoandw :: "Register \<Rightarrow> Register \<Rightarrow> Address \<Rightarrow> memory_order \<Rightarrow> asm_op" where
  "amoandw rd rs2 addr order a =
     ASSERT (addr_offset addr = 0 \<and> Supports RV_A a)
       (EmitRType_amo f5_AMOAND order rs2 (addr_base addr) f3_WIDTH32 rd op_AMO a)"

definition amoorw :: "Register \<Rightarrow> Register \<Rightarrow> Address \<Rightarrow> memory_order \<Rightarrow> asm_op" where
  "amoorw rd rs2 addr order a =
     ASSERT (addr_offset addr = 0 \<and> Supports RV_A a)
       (EmitRType_amo f5_AMOOR order rs2 (addr_base addr) f3_WIDTH32 rd op_AMO a)"

definition amominw :: "Register \<Rightarrow> Register \<Rightarrow> Address \<Rightarrow> memory_order \<Rightarrow> asm_op" where
  "amominw rd rs2 addr order a =
     ASSERT (addr_offset addr = 0 \<and> Supports RV_A a)
       (EmitRType_amo f5_AMOMIN order rs2 (addr_base addr) f3_WIDTH32 rd op_AMO a)"

definition amomaxw :: "Register \<Rightarrow> Register \<Rightarrow> Address \<Rightarrow> memory_order \<Rightarrow> asm_op" where
  "amomaxw rd rs2 addr order a =
     ASSERT (addr_offset addr = 0 \<and> Supports RV_A a)
       (EmitRType_amo f5_AMOMAX order rs2 (addr_base addr) f3_WIDTH32 rd op_AMO a)"

definition amominuw :: "Register \<Rightarrow> Register \<Rightarrow> Address \<Rightarrow> memory_order \<Rightarrow> asm_op" where
  "amominuw rd rs2 addr order a =
     ASSERT (addr_offset addr = 0 \<and> Supports RV_A a)
       (EmitRType_amo f5_AMOMINU order rs2 (addr_base addr) f3_WIDTH32 rd op_AMO a)"

definition amomaxuw :: "Register \<Rightarrow> Register \<Rightarrow> Address \<Rightarrow> memory_order \<Rightarrow> asm_op" where
  "amomaxuw rd rs2 addr order a =
     ASSERT (addr_offset addr = 0 \<and> Supports RV_A a)
       (EmitRType_amo f5_AMOMAXU order rs2 (addr_base addr) f3_WIDTH32 rd op_AMO a)"

definition lrd :: "Register \<Rightarrow> Address \<Rightarrow> memory_order \<Rightarrow> asm_op" where
  "lrd rd addr order a =
     ASSERT (addr_offset addr = 0 \<and> Supports RV_A a)
       (EmitRType_amo f5_LR order ZR (addr_base addr) f3_WIDTH64 rd op_AMO a)"

definition scd :: "Register \<Rightarrow> Register \<Rightarrow> Address \<Rightarrow> memory_order \<Rightarrow> asm_op" where
  "scd rd rs2 addr order a =
     ASSERT (addr_offset addr = 0 \<and> Supports RV_A a)
       (EmitRType_amo f5_SC order rs2 (addr_base addr) f3_WIDTH64 rd op_AMO a)"

definition amoswapd :: "Register \<Rightarrow> Register \<Rightarrow> Address \<Rightarrow> memory_order \<Rightarrow> asm_op" where
  "amoswapd rd rs2 addr order a =
     ASSERT (addr_offset addr = 0 \<and> Supports RV_A a)
       (EmitRType_amo f5_AMOSWAP order rs2 (addr_base addr) f3_WIDTH64 rd op_AMO a)"

definition amoaddd :: "Register \<Rightarrow> Register \<Rightarrow> Address \<Rightarrow> memory_order \<Rightarrow> asm_op" where
  "amoaddd rd rs2 addr order a =
     ASSERT (addr_offset addr = 0 \<and> Supports RV_A a)
       (EmitRType_amo f5_AMOADD order rs2 (addr_base addr) f3_WIDTH64 rd op_AMO a)"

definition amoxord :: "Register \<Rightarrow> Register \<Rightarrow> Address \<Rightarrow> memory_order \<Rightarrow> asm_op" where
  "amoxord rd rs2 addr order a =
     ASSERT (addr_offset addr = 0 \<and> Supports RV_A a)
       (EmitRType_amo f5_AMOXOR order rs2 (addr_base addr) f3_WIDTH64 rd op_AMO a)"

definition amoandd :: "Register \<Rightarrow> Register \<Rightarrow> Address \<Rightarrow> memory_order \<Rightarrow> asm_op" where
  "amoandd rd rs2 addr order a =
     ASSERT (addr_offset addr = 0 \<and> Supports RV_A a)
       (EmitRType_amo f5_AMOAND order rs2 (addr_base addr) f3_WIDTH64 rd op_AMO a)"

definition amoord :: "Register \<Rightarrow> Register \<Rightarrow> Address \<Rightarrow> memory_order \<Rightarrow> asm_op" where
  "amoord rd rs2 addr order a =
     ASSERT (addr_offset addr = 0 \<and> Supports RV_A a)
       (EmitRType_amo f5_AMOOR order rs2 (addr_base addr) f3_WIDTH64 rd op_AMO a)"

definition amomind :: "Register \<Rightarrow> Register \<Rightarrow> Address \<Rightarrow> memory_order \<Rightarrow> asm_op" where
  "amomind rd rs2 addr order a =
     ASSERT (addr_offset addr = 0 \<and> Supports RV_A a)
       (EmitRType_amo f5_AMOMIN order rs2 (addr_base addr) f3_WIDTH64 rd op_AMO a)"

definition amomaxd :: "Register \<Rightarrow> Register \<Rightarrow> Address \<Rightarrow> memory_order \<Rightarrow> asm_op" where
  "amomaxd rd rs2 addr order a =
     ASSERT (addr_offset addr = 0 \<and> Supports RV_A a)
       (EmitRType_amo f5_AMOMAX order rs2 (addr_base addr) f3_WIDTH64 rd op_AMO a)"

definition amominud :: "Register \<Rightarrow> Register \<Rightarrow> Address \<Rightarrow> memory_order \<Rightarrow> asm_op" where
  "amominud rd rs2 addr order a =
     ASSERT (addr_offset addr = 0 \<and> Supports RV_A a)
       (EmitRType_amo f5_AMOMINU order rs2 (addr_base addr) f3_WIDTH64 rd op_AMO a)"

definition amomaxud :: "Register \<Rightarrow> Register \<Rightarrow> Address \<Rightarrow> memory_order \<Rightarrow> asm_op" where
  "amomaxud rd rs2 addr order a =
     ASSERT (addr_offset addr = 0 \<and> Supports RV_A a)
       (EmitRType_amo f5_AMOMAXU order rs2 (addr_base addr) f3_WIDTH64 rd op_AMO a)"

subsection \<open>RV64F and RV64D\<close>

definition flw :: "FRegister \<Rightarrow> Address \<Rightarrow> asm_op" where
  "flw rd addr a =
     ASSERT (Supports RV_F a)
       (EmitIType_f (addr_offset addr) (addr_base addr) f3_S rd op_LOADFP a)"

definition fsw :: "FRegister \<Rightarrow> Address \<Rightarrow> asm_op" where
  "fsw rs2 addr a =
     ASSERT (Supports RV_F a)
       (EmitSType_f (addr_offset addr) rs2 (addr_base addr) f3_S op_STOREFP a)"

definition fmadds :: "FRegister \<Rightarrow> FRegister \<Rightarrow> FRegister \<Rightarrow> FRegister \<Rightarrow> RoundingMode \<Rightarrow> asm_op" where
  "fmadds rd rs1 rs2 rs3 rounding a =
     ASSERT (Supports RV_F a)
       (EmitR4Type rs3 f2_S rs2 rs1 rounding rd op_FMADD a)"

definition fmsubs :: "FRegister \<Rightarrow> FRegister \<Rightarrow> FRegister \<Rightarrow> FRegister \<Rightarrow> RoundingMode \<Rightarrow> asm_op" where
  "fmsubs rd rs1 rs2 rs3 rounding a =
     ASSERT (Supports RV_F a)
       (EmitR4Type rs3 f2_S rs2 rs1 rounding rd op_FMSUB a)"

definition fnmsubs :: "FRegister \<Rightarrow> FRegister \<Rightarrow> FRegister \<Rightarrow> FRegister \<Rightarrow> RoundingMode \<Rightarrow> asm_op" where
  "fnmsubs rd rs1 rs2 rs3 rounding a =
     ASSERT (Supports RV_F a)
       (EmitR4Type rs3 f2_S rs2 rs1 rounding rd op_FNMSUB a)"

definition fnmadds :: "FRegister \<Rightarrow> FRegister \<Rightarrow> FRegister \<Rightarrow> FRegister \<Rightarrow> RoundingMode \<Rightarrow> asm_op" where
  "fnmadds rd rs1 rs2 rs3 rounding a =
     ASSERT (Supports RV_F a)
       (EmitR4Type rs3 f2_S rs2 rs1 rounding rd op_FNMADD a)"

definition fadds :: "FRegister \<Rightarrow> FRegister \<Rightarrow> FRegister \<Rightarrow> RoundingMode \<Rightarrow> asm_op" where
  "fadds rd rs1 rs2 rounding a =
     ASSERT (Supports RV_F a)
       (EmitRType_fffr f7_FADDS rs2 rs1 rounding rd op_OPFP a)"

definition fsubs :: "FRegister \<Rightarrow> FRegister \<Rightarrow> FRegister \<Rightarrow> RoundingMode \<Rightarrow> asm_op" where
  "fsubs rd rs1 rs2 rounding a =
     ASSERT (Supports RV_F a)
       (EmitRType_fffr f7_FSUBS rs2 rs1 rounding rd op_OPFP a)"

definition fmuls :: "FRegister \<Rightarrow> FRegister \<Rightarrow> FRegister \<Rightarrow> RoundingMode \<Rightarrow> asm_op" where
  "fmuls rd rs1 rs2 rounding a =
     ASSERT (Supports RV_F a)
       (EmitRType_fffr f7_FMULS rs2 rs1 rounding rd op_OPFP a)"

definition fdivs :: "FRegister \<Rightarrow> FRegister \<Rightarrow> FRegister \<Rightarrow> RoundingMode \<Rightarrow> asm_op" where
  "fdivs rd rs1 rs2 rounding a =
     ASSERT (Supports RV_F a)
       (EmitRType_fffr f7_FDIVS rs2 rs1 rounding rd op_OPFP a)"

definition fsqrts :: "FRegister \<Rightarrow> FRegister \<Rightarrow> RoundingMode \<Rightarrow> asm_op" where
  "fsqrts rd rs1 rounding a =
     ASSERT (Supports RV_F a)
       (EmitRType_fffr f7_FSQRTS 0 rs1 rounding rd op_OPFP a)"

definition fsgnjs :: "FRegister \<Rightarrow> FRegister \<Rightarrow> FRegister \<Rightarrow> asm_op" where
  "fsgnjs rd rs1 rs2 a =
     ASSERT (Supports RV_F a)
       (EmitRType_fff3 f7_FSGNJS rs2 rs1 f3_J rd op_OPFP a)"

definition fsgnjns :: "FRegister \<Rightarrow> FRegister \<Rightarrow> FRegister \<Rightarrow> asm_op" where
  "fsgnjns rd rs1 rs2 a =
     ASSERT (Supports RV_F a)
       (EmitRType_fff3 f7_FSGNJS rs2 rs1 f3_JN rd op_OPFP a)"

definition fsgnjxs :: "FRegister \<Rightarrow> FRegister \<Rightarrow> FRegister \<Rightarrow> asm_op" where
  "fsgnjxs rd rs1 rs2 a =
     ASSERT (Supports RV_F a)
       (EmitRType_fff3 f7_FSGNJS rs2 rs1 f3_JX rd op_OPFP a)"

definition fmins :: "FRegister \<Rightarrow> FRegister \<Rightarrow> FRegister \<Rightarrow> asm_op" where
  "fmins rd rs1 rs2 a =
     ASSERT (Supports RV_F a)
       (EmitRType_fff3 f7_FMINMAXS rs2 rs1 f3_MIN rd op_OPFP a)"

definition fmaxs :: "FRegister \<Rightarrow> FRegister \<Rightarrow> FRegister \<Rightarrow> asm_op" where
  "fmaxs rd rs1 rs2 a =
     ASSERT (Supports RV_F a)
       (EmitRType_fff3 f7_FMINMAXS rs2 rs1 f3_MAX rd op_OPFP a)"

definition feqs :: "Register \<Rightarrow> FRegister \<Rightarrow> FRegister \<Rightarrow> asm_op" where
  "feqs rd rs1 rs2 a =
     ASSERT (Supports RV_F a)
       (EmitRType_xff3 f7_FCMPS rs2 rs1 f3_FEQ rd op_OPFP a)"

definition flts :: "Register \<Rightarrow> FRegister \<Rightarrow> FRegister \<Rightarrow> asm_op" where
  "flts rd rs1 rs2 a =
     ASSERT (Supports RV_F a)
       (EmitRType_xff3 f7_FCMPS rs2 rs1 f3_FLT rd op_OPFP a)"

definition fles :: "Register \<Rightarrow> FRegister \<Rightarrow> FRegister \<Rightarrow> asm_op" where
  "fles rd rs1 rs2 a =
     ASSERT (Supports RV_F a)
       (EmitRType_xff3 f7_FCMPS rs2 rs1 f3_FLE rd op_OPFP a)"

definition fclasss :: "Register \<Rightarrow> FRegister \<Rightarrow> asm_op" where
  "fclasss rd rs1 a =
     ASSERT (Supports RV_F a)
       (EmitRType_xff3 f7_FCLASSS 0 rs1 f3_1 rd op_OPFP a)"

definition fcvtws :: "Register \<Rightarrow> FRegister \<Rightarrow> RoundingMode \<Rightarrow> asm_op" where
  "fcvtws rd rs1 rounding a =
     ASSERT (Supports RV_F a)
       (EmitRType_xffr f7_FCVTintS (ucast fcvt_W) rs1 rounding rd op_OPFP a)"

definition fcvtwus :: "Register \<Rightarrow> FRegister \<Rightarrow> RoundingMode \<Rightarrow> asm_op" where
  "fcvtwus rd rs1 rounding a =
     ASSERT (Supports RV_F a)
       (EmitRType_xffr f7_FCVTintS (ucast fcvt_WU) rs1 rounding rd op_OPFP a)"

definition fcvtsw :: "FRegister \<Rightarrow> Register \<Rightarrow> RoundingMode \<Rightarrow> asm_op" where
  "fcvtsw rd rs1 rounding a =
     ASSERT (Supports RV_F a)
       (EmitRType_ffxr f7_FCVTSint (ucast fcvt_W) rs1 rounding rd op_OPFP a)"

definition fcvtswu :: "FRegister \<Rightarrow> Register \<Rightarrow> RoundingMode \<Rightarrow> asm_op" where
  "fcvtswu rd rs1 rounding a =
     ASSERT (Supports RV_F a)
       (EmitRType_ffxr f7_FCVTSint (ucast fcvt_WU) rs1 rounding rd op_OPFP a)"

definition fmvxw :: "Register \<Rightarrow> FRegister \<Rightarrow> asm_op" where
  "fmvxw rd rs1 a =
     ASSERT (Supports RV_F a)
       (EmitRType_xff3 f7_FMVXW 0 rs1 f3_0 rd op_OPFP a)"

definition fmvwx :: "FRegister \<Rightarrow> Register \<Rightarrow> asm_op" where
  "fmvwx rd rs1 a =
     ASSERT (Supports RV_F a)
       (EmitRType_ffx3 f7_FMVWX 0 rs1 f3_0 rd op_OPFP a)"

definition fcvtls :: "Register \<Rightarrow> FRegister \<Rightarrow> RoundingMode \<Rightarrow> asm_op" where
  "fcvtls rd rs1 rounding a =
     ASSERT (Supports RV_F a)
       (EmitRType_xffr f7_FCVTintS (ucast fcvt_L) rs1 rounding rd op_OPFP a)"

definition fcvtlus :: "Register \<Rightarrow> FRegister \<Rightarrow> RoundingMode \<Rightarrow> asm_op" where
  "fcvtlus rd rs1 rounding a =
     ASSERT (Supports RV_F a)
       (EmitRType_xffr f7_FCVTintS (ucast fcvt_LU) rs1 rounding rd op_OPFP a)"

definition fcvtsl :: "FRegister \<Rightarrow> Register \<Rightarrow> RoundingMode \<Rightarrow> asm_op" where
  "fcvtsl rd rs1 rounding a =
     ASSERT (Supports RV_F a)
       (EmitRType_ffxr f7_FCVTSint (ucast fcvt_L) rs1 rounding rd op_OPFP a)"

definition fcvtslu :: "FRegister \<Rightarrow> Register \<Rightarrow> RoundingMode \<Rightarrow> asm_op" where
  "fcvtslu rd rs1 rounding a =
     ASSERT (Supports RV_F a)
       (EmitRType_ffxr f7_FCVTSint (ucast fcvt_LU) rs1 rounding rd op_OPFP a)"

definition fld :: "FRegister \<Rightarrow> Address \<Rightarrow> asm_op" where
  "fld rd addr a =
     ASSERT (Supports RV_D a)
       (if Supports RV_C a \<and> addr_base addr = SP \<and> IsCSPLoad8Imm (addr_offset addr) then c_fldsp rd addr a
        else if Supports RV_C a \<and> IsCFRdp rd \<and> IsCRs1p (addr_base addr) \<and> IsCMem8Imm (addr_offset addr) then c_fld rd addr a
        else EmitIType_f (addr_offset addr) (addr_base addr) f3_D rd op_LOADFP a)"

definition fsd :: "FRegister \<Rightarrow> Address \<Rightarrow> asm_op" where
  "fsd rs2 addr a =
     ASSERT (Supports RV_D a)
       (if Supports RV_C a \<and> addr_base addr = SP \<and> IsCSPStore8Imm (addr_offset addr) then c_fsdsp rs2 addr a
        else if Supports RV_C a \<and> IsCFRs2p rs2 \<and> IsCRs1p (addr_base addr) \<and> IsCMem8Imm (addr_offset addr) then c_fsd rs2 addr a
        else EmitSType_f (addr_offset addr) rs2 (addr_base addr) f3_D op_STOREFP a)"

definition fmaddd :: "FRegister \<Rightarrow> FRegister \<Rightarrow> FRegister \<Rightarrow> FRegister \<Rightarrow> RoundingMode \<Rightarrow> asm_op" where
  "fmaddd rd rs1 rs2 rs3 rounding a =
     ASSERT (Supports RV_D a)
       (EmitR4Type rs3 f2_D rs2 rs1 rounding rd op_FMADD a)"

definition fmsubd :: "FRegister \<Rightarrow> FRegister \<Rightarrow> FRegister \<Rightarrow> FRegister \<Rightarrow> RoundingMode \<Rightarrow> asm_op" where
  "fmsubd rd rs1 rs2 rs3 rounding a =
     ASSERT (Supports RV_D a)
       (EmitR4Type rs3 f2_D rs2 rs1 rounding rd op_FMSUB a)"

definition fnmsubd :: "FRegister \<Rightarrow> FRegister \<Rightarrow> FRegister \<Rightarrow> FRegister \<Rightarrow> RoundingMode \<Rightarrow> asm_op" where
  "fnmsubd rd rs1 rs2 rs3 rounding a =
     ASSERT (Supports RV_D a)
       (EmitR4Type rs3 f2_D rs2 rs1 rounding rd op_FNMSUB a)"

definition fnmaddd :: "FRegister \<Rightarrow> FRegister \<Rightarrow> FRegister \<Rightarrow> FRegister \<Rightarrow> RoundingMode \<Rightarrow> asm_op" where
  "fnmaddd rd rs1 rs2 rs3 rounding a =
     ASSERT (Supports RV_D a)
       (EmitR4Type rs3 f2_D rs2 rs1 rounding rd op_FNMADD a)"

definition faddd :: "FRegister \<Rightarrow> FRegister \<Rightarrow> FRegister \<Rightarrow> RoundingMode \<Rightarrow> asm_op" where
  "faddd rd rs1 rs2 rounding a =
     ASSERT (Supports RV_D a)
       (EmitRType_fffr f7_FADDD rs2 rs1 rounding rd op_OPFP a)"

definition fsubd :: "FRegister \<Rightarrow> FRegister \<Rightarrow> FRegister \<Rightarrow> RoundingMode \<Rightarrow> asm_op" where
  "fsubd rd rs1 rs2 rounding a =
     ASSERT (Supports RV_D a)
       (EmitRType_fffr f7_FSUBD rs2 rs1 rounding rd op_OPFP a)"

definition fmuld :: "FRegister \<Rightarrow> FRegister \<Rightarrow> FRegister \<Rightarrow> RoundingMode \<Rightarrow> asm_op" where
  "fmuld rd rs1 rs2 rounding a =
     ASSERT (Supports RV_D a)
       (EmitRType_fffr f7_FMULD rs2 rs1 rounding rd op_OPFP a)"

definition fdivd :: "FRegister \<Rightarrow> FRegister \<Rightarrow> FRegister \<Rightarrow> RoundingMode \<Rightarrow> asm_op" where
  "fdivd rd rs1 rs2 rounding a =
     ASSERT (Supports RV_D a)
       (EmitRType_fffr f7_FDIVD rs2 rs1 rounding rd op_OPFP a)"

definition fsqrtd :: "FRegister \<Rightarrow> FRegister \<Rightarrow> RoundingMode \<Rightarrow> asm_op" where
  "fsqrtd rd rs1 rounding a =
     ASSERT (Supports RV_D a)
       (EmitRType_fffr f7_FSQRTD 0 rs1 rounding rd op_OPFP a)"

definition fsgnjd :: "FRegister \<Rightarrow> FRegister \<Rightarrow> FRegister \<Rightarrow> asm_op" where
  "fsgnjd rd rs1 rs2 a =
     ASSERT (Supports RV_D a)
       (EmitRType_fff3 f7_FSGNJD rs2 rs1 f3_J rd op_OPFP a)"

definition fsgnjnd :: "FRegister \<Rightarrow> FRegister \<Rightarrow> FRegister \<Rightarrow> asm_op" where
  "fsgnjnd rd rs1 rs2 a =
     ASSERT (Supports RV_D a)
       (EmitRType_fff3 f7_FSGNJD rs2 rs1 f3_JN rd op_OPFP a)"

definition fsgnjxd :: "FRegister \<Rightarrow> FRegister \<Rightarrow> FRegister \<Rightarrow> asm_op" where
  "fsgnjxd rd rs1 rs2 a =
     ASSERT (Supports RV_D a)
       (EmitRType_fff3 f7_FSGNJD rs2 rs1 f3_JX rd op_OPFP a)"

definition fmind :: "FRegister \<Rightarrow> FRegister \<Rightarrow> FRegister \<Rightarrow> asm_op" where
  "fmind rd rs1 rs2 a =
     ASSERT (Supports RV_D a)
       (EmitRType_fff3 f7_FMINMAXD rs2 rs1 f3_MIN rd op_OPFP a)"

definition fmaxd :: "FRegister \<Rightarrow> FRegister \<Rightarrow> FRegister \<Rightarrow> asm_op" where
  "fmaxd rd rs1 rs2 a =
     ASSERT (Supports RV_D a)
       (EmitRType_fff3 f7_FMINMAXD rs2 rs1 f3_MAX rd op_OPFP a)"

definition fcvtsd :: "FRegister \<Rightarrow> FRegister \<Rightarrow> RoundingMode \<Rightarrow> asm_op" where
  "fcvtsd rd rs1 rounding a =
     ASSERT (Supports RV_D a)
       (EmitRType_fffr f7_FCVTS 1 rs1 rounding rd op_OPFP a)"

definition fcvtds :: "FRegister \<Rightarrow> FRegister \<Rightarrow> asm_op" where
  "fcvtds rd rs1 a =
     ASSERT (Supports RV_D a)
       (EmitRType_fff3 f7_FCVTD 0 rs1 f3_0 rd op_OPFP a)"

definition feqd :: "Register \<Rightarrow> FRegister \<Rightarrow> FRegister \<Rightarrow> asm_op" where
  "feqd rd rs1 rs2 a =
     ASSERT (Supports RV_D a)
       (EmitRType_xff3 f7_FCMPD rs2 rs1 f3_FEQ rd op_OPFP a)"

definition fltd :: "Register \<Rightarrow> FRegister \<Rightarrow> FRegister \<Rightarrow> asm_op" where
  "fltd rd rs1 rs2 a =
     ASSERT (Supports RV_D a)
       (EmitRType_xff3 f7_FCMPD rs2 rs1 f3_FLT rd op_OPFP a)"

definition fled :: "Register \<Rightarrow> FRegister \<Rightarrow> FRegister \<Rightarrow> asm_op" where
  "fled rd rs1 rs2 a =
     ASSERT (Supports RV_D a)
       (EmitRType_xff3 f7_FCMPD rs2 rs1 f3_FLE rd op_OPFP a)"

definition fclassd :: "Register \<Rightarrow> FRegister \<Rightarrow> asm_op" where
  "fclassd rd rs1 a =
     ASSERT (Supports RV_D a)
       (EmitRType_xff3 f7_FCLASSD 0 rs1 f3_1 rd op_OPFP a)"

definition fcvtwd :: "Register \<Rightarrow> FRegister \<Rightarrow> RoundingMode \<Rightarrow> asm_op" where
  "fcvtwd rd rs1 rounding a =
     ASSERT (Supports RV_D a)
       (EmitRType_xffr f7_FCVTintD (ucast fcvt_W) rs1 rounding rd op_OPFP a)"

definition fcvtwud :: "Register \<Rightarrow> FRegister \<Rightarrow> RoundingMode \<Rightarrow> asm_op" where
  "fcvtwud rd rs1 rounding a =
     ASSERT (Supports RV_D a)
       (EmitRType_xffr f7_FCVTintD (ucast fcvt_WU) rs1 rounding rd op_OPFP a)"

definition fcvtdw :: "FRegister \<Rightarrow> Register \<Rightarrow> RoundingMode \<Rightarrow> asm_op" where
  "fcvtdw rd rs1 rounding a =
     ASSERT (Supports RV_D a)
       (EmitRType_ffxr f7_FCVTDint (ucast fcvt_W) rs1 rounding rd op_OPFP a)"

definition fcvtdwu :: "FRegister \<Rightarrow> Register \<Rightarrow> RoundingMode \<Rightarrow> asm_op" where
  "fcvtdwu rd rs1 rounding a =
     ASSERT (Supports RV_D a)
       (EmitRType_ffxr f7_FCVTDint (ucast fcvt_WU) rs1 rounding rd op_OPFP a)"

definition fcvtld :: "Register \<Rightarrow> FRegister \<Rightarrow> RoundingMode \<Rightarrow> asm_op" where
  "fcvtld rd rs1 rounding a =
     ASSERT (Supports RV_D a)
       (EmitRType_xffr f7_FCVTintD (ucast fcvt_L) rs1 rounding rd op_OPFP a)"

definition fcvtlud :: "Register \<Rightarrow> FRegister \<Rightarrow> RoundingMode \<Rightarrow> asm_op" where
  "fcvtlud rd rs1 rounding a =
     ASSERT (Supports RV_D a)
       (EmitRType_xffr f7_FCVTintD (ucast fcvt_LU) rs1 rounding rd op_OPFP a)"

definition fmvxd :: "Register \<Rightarrow> FRegister \<Rightarrow> asm_op" where
  "fmvxd rd rs1 a =
     ASSERT (Supports RV_D a)
       (EmitRType_xff3 f7_FMVXD 0 rs1 f3_0 rd op_OPFP a)"

definition fcvtdl :: "FRegister \<Rightarrow> Register \<Rightarrow> RoundingMode \<Rightarrow> asm_op" where
  "fcvtdl rd rs1 rounding a =
     ASSERT (Supports RV_D a)
       (EmitRType_ffxr f7_FCVTDint (ucast fcvt_L) rs1 rounding rd op_OPFP a)"

definition fcvtdlu :: "FRegister \<Rightarrow> Register \<Rightarrow> RoundingMode \<Rightarrow> asm_op" where
  "fcvtdlu rd rs1 rounding a =
     ASSERT (Supports RV_D a)
       (EmitRType_ffxr f7_FCVTDint (ucast fcvt_LU) rs1 rounding rd op_OPFP a)"

definition fmvdx :: "FRegister \<Rightarrow> Register \<Rightarrow> asm_op" where
  "fmvdx rd rs1 a =
     ASSERT (Supports RV_D a)
       (EmitRType_ffx3 f7_FMVDX 0 rs1 f3_0 rd op_OPFP a)"

subsection \<open>Pseudo-instructions\<close>

abbreviation (input) jal_ra :: "label \<Rightarrow> JumpDistance \<Rightarrow> asm_op" where
  "jal_ra l d \<equiv> jal RA l d"

abbreviation (input) j_label :: "label \<Rightarrow> JumpDistance \<Rightarrow> asm_op" where
  "j_label l d \<equiv> jal ZR l d"

abbreviation (input) jalr_ra :: "Register \<Rightarrow> intptr \<Rightarrow> asm_op" where
  "jalr_ra rs1 offset \<equiv> jalr RA rs1 offset"

abbreviation (input) jr :: "Register \<Rightarrow> intptr \<Rightarrow> asm_op" where
  "jr rs1 offset \<equiv> jalr ZR rs1 offset"

abbreviation (input) ret :: "asm_op" where
  "ret \<equiv> jalr ZR RA 0"

abbreviation (input) bgt :: "Register \<Rightarrow> Register \<Rightarrow> label \<Rightarrow> JumpDistance \<Rightarrow> asm_op" where
  "bgt rs1 rs2 l d \<equiv> blt rs2 rs1 l d"

abbreviation (input) ble :: "Register \<Rightarrow> Register \<Rightarrow> label \<Rightarrow> JumpDistance \<Rightarrow> asm_op" where
  "ble rs1 rs2 l d \<equiv> bge rs2 rs1 l d"

abbreviation (input) bgtu :: "Register \<Rightarrow> Register \<Rightarrow> label \<Rightarrow> JumpDistance \<Rightarrow> asm_op" where
  "bgtu rs1 rs2 l d \<equiv> bltu rs2 rs1 l d"

abbreviation (input) bleu :: "Register \<Rightarrow> Register \<Rightarrow> label \<Rightarrow> JumpDistance \<Rightarrow> asm_op" where
  "bleu rs1 rs2 l d \<equiv> bgeu rs2 rs1 l d"

abbreviation (input) subi :: "Register \<Rightarrow> Register \<Rightarrow> intptr \<Rightarrow> asm_op" where
  "subi rd rs1 imm \<equiv> addi rd rs1 (- imm)"

abbreviation (input) fence_all :: "asm_op" where
  "fence_all \<equiv> fence kAll kAll"

abbreviation (input) csrr :: "Register \<Rightarrow> u32 \<Rightarrow> asm_op" where
  "csrr rd csr \<equiv> csrrs rd csr ZR"

abbreviation (input) csrw :: "u32 \<Rightarrow> Register \<Rightarrow> asm_op" where
  "csrw csr rs \<equiv> csrrw ZR csr rs"

abbreviation (input) csrs :: "u32 \<Rightarrow> Register \<Rightarrow> asm_op" where
  "csrs csr rs \<equiv> csrrs ZR csr rs"

abbreviation (input) csrc :: "u32 \<Rightarrow> Register \<Rightarrow> asm_op" where
  "csrc csr rs \<equiv> csrrc ZR csr rs"

abbreviation (input) csrwi :: "u32 \<Rightarrow> u32 \<Rightarrow> asm_op" where
  "csrwi csr uimm \<equiv> csrrwi ZR csr uimm"

abbreviation (input) csrsi :: "u32 \<Rightarrow> u32 \<Rightarrow> asm_op" where
  "csrsi csr uimm \<equiv> csrrsi ZR csr uimm"

abbreviation (input) csrci :: "u32 \<Rightarrow> u32 \<Rightarrow> asm_op" where
  "csrci csr uimm \<equiv> csrrci ZR csr uimm"

abbreviation (input) nop :: "asm_op" where
  "nop \<equiv> addi ZR ZR 0"

abbreviation (input) li :: "Register \<Rightarrow> intptr \<Rightarrow> asm_op" where
  "li rd imm \<equiv> addi rd ZR imm"

abbreviation (input) mv :: "Register \<Rightarrow> Register \<Rightarrow> asm_op" where
  "mv rd rs \<equiv> addi rd rs 0"

abbreviation (input) not_r :: "Register \<Rightarrow> Register \<Rightarrow> asm_op" where
  "not_r rd rs \<equiv> xori rd rs (- 1)"

abbreviation (input) neg :: "Register \<Rightarrow> Register \<Rightarrow> asm_op" where
  "neg rd rs \<equiv> sub rd ZR rs"

abbreviation (input) snez :: "Register \<Rightarrow> Register \<Rightarrow> asm_op" where
  "snez rd rs \<equiv> sltu rd ZR rs"

abbreviation (input) seqz :: "Register \<Rightarrow> Register \<Rightarrow> asm_op" where
  "seqz rd rs \<equiv> sltiu rd rs 1"

abbreviation (input) sltz :: "Register \<Rightarrow> Register \<Rightarrow> asm_op" where
  "sltz rd rs \<equiv> slt rd rs ZR"

abbreviation (input) sgtz :: "Register \<Rightarrow> Register \<Rightarrow> asm_op" where
  "sgtz rd rs \<equiv> slt rd ZR rs"

abbreviation (input) beqz :: "Register \<Rightarrow> label \<Rightarrow> JumpDistance \<Rightarrow> asm_op" where
  "beqz rs l d \<equiv> beq rs ZR l d"

abbreviation (input) bnez :: "Register \<Rightarrow> label \<Rightarrow> JumpDistance \<Rightarrow> asm_op" where
  "bnez rs l d \<equiv> bne rs ZR l d"

abbreviation (input) blez :: "Register \<Rightarrow> label \<Rightarrow> JumpDistance \<Rightarrow> asm_op" where
  "blez rs l d \<equiv> bge ZR rs l d"

abbreviation (input) bgez :: "Register \<Rightarrow> label \<Rightarrow> JumpDistance \<Rightarrow> asm_op" where
  "bgez rs l d \<equiv> bge rs ZR l d"

abbreviation (input) bltz :: "Register \<Rightarrow> label \<Rightarrow> JumpDistance \<Rightarrow> asm_op" where
  "bltz rs l d \<equiv> blt rs ZR l d"

abbreviation (input) bgtz :: "Register \<Rightarrow> label \<Rightarrow> JumpDistance \<Rightarrow> asm_op" where
  "bgtz rs l d \<equiv> blt ZR rs l d"

abbreviation (input) subiw :: "Register \<Rightarrow> Register \<Rightarrow> intptr \<Rightarrow> asm_op" where
  "subiw rd rs1 imm \<equiv> addiw rd rs1 (- imm)"

abbreviation (input) negw :: "Register \<Rightarrow> Register \<Rightarrow> asm_op" where
  "negw rd rs \<equiv> subw rd ZR rs"

abbreviation (input) sextw :: "Register \<Rightarrow> Register \<Rightarrow> asm_op" where
  "sextw rd rs \<equiv> addiw rd rs 0"

abbreviation (input) lx :: "Register \<Rightarrow> Address \<Rightarrow> asm_op" where
  "lx rd addr \<equiv> ld rd addr"

abbreviation (input) sx :: "Register \<Rightarrow> Address \<Rightarrow> asm_op" where
  "sx rs2 addr \<equiv> sd rs2 addr"

end
