(* ===== verification/Riscv_Contract.thy ===== *)
theory Riscv_Contract
  imports Riscv_Exec Riscv_Instructions
begin

text \<open>
  What an operation of the assembler promises: it appends the bytes of one
  instruction, and the simulator executes these bytes with the effect the
  operation names, whichever encoding (32-bit or compressed) was chosen.

  The contracts are locales, one per operand shape: \<open>register_op\<close> and
  \<open>immediate_op\<close> (a function of the operands is written to \<open>rd\<close>), \<open>load_op\<close> and
  \<open>store_op\<close>.  Each operation of \<open>MicroAssembler\<close> of that shape is an
  interpretation; its proof goes through the encoder, the decoder and the
  interpreter.  \<open>assembles\<close> is the composable form for straight-line code.
\<close>

unbundle bit_operations_syntax

subsection \<open>Emitted code\<close>

definition append_code :: "u8 list \<Rightarrow> asm \<Rightarrow> asm" where
  "append_code code a = a\<lparr>buffer := buffer a @ code\<rparr>"

lemma append_code_simps [simp]:
  "buffer (append_code code a) = buffer a @ code" "extensions (append_code code a) = extensions a"
  "labels (append_code code a) = labels a" "far_branch_level (append_code code a) = far_branch_level a"
  by (simp_all add: append_code_def)

lemma append_code_append: "append_code ys (append_code xs a) = append_code (xs @ ys) a"
  by (simp add: append_code_def)

lemma append_code_Nil [simp]: "append_code [] a = a"
  by (simp add: append_code_def)

lemma Emit_append_code:
  "Emit16 e a = Inr (append_code (bytes16 e) a)" "Emit32 w a = Inr (append_code (bytes32 w) a)"
  by (simp_all add: Emit16_def Emit32_def append_code_def)

text \<open>An assembler for RV64G, with or without the extension C.\<close>

definition wf_asm :: "asm \<Rightarrow> bool" where
  "wf_asm a = IncludesAll (extensions a) RV_G"

lemma wf_asm_append_code [simp]: "wf_asm (append_code code a) = wf_asm a"
  by (simp add: wf_asm_def)

lemma wf_asm_Supports:
  assumes "wf_asm a"
  shows "Supports 0 a" and "Supports (Suc 0) a" and "Supports 2 a" and "Supports 3 a" and "Supports 4 a"
proof -
  have "bit (extensions a AND RV_G) n \<longleftrightarrow> bit RV_G n" for n
    using assms by (simp add: wf_asm_def IncludesAll_def)
  then have *: "bit RV_G n \<Longrightarrow> bit (extensions a) n" for n unfolding bit_and_iff by blast
  have **: "bit (extensions a) n \<Longrightarrow> n < 32 \<Longrightarrow> Supports n a" for n
    unfolding Supports_def Includes_def by (metis and_exp_eq_0_iff_not_bit push_bit_of_1)
  have g: "RV_G = 0x1F" by (simp add: RV_G_def ExtensionSet_of_def)
  show "Supports 0 a" "Supports (Suc 0) a" "Supports 2 a" "Supports 3 a" "Supports 4 a"
    by (rule **, rule *; simp add: g)+
qed

subsection \<open>One instruction\<close>

text \<open>
  \<open>step_is code X\<close>: an iteration of the loop on \<open>code\<close> is the transition \<open>X\<close>,
  provided the zero register holds 0.
\<close>

definition step_is :: "u8 list \<Rightarrow> (host \<Rightarrow> sim \<Rightarrow> sim_error + sim) \<Rightarrow> bool" where
  "step_is code X \<longleftrightarrow>
     (\<forall>h s. code_at (memory s) (pc s) code \<longrightarrow> zero_ok s \<longrightarrow>
        step h s = bindE (X h s) (\<lambda>s'. Inr (s'\<lparr>instret := instret s' + 1\<rparr>)))"

definition in_sequence ::
  "(host \<Rightarrow> sim \<Rightarrow> sim_error + sim) \<Rightarrow> u8 list \<Rightarrow> host \<Rightarrow> sim \<Rightarrow> sim_error + sim"
where
  "in_sequence X code h s = bindE (X h s) (\<lambda>s'. Inr (pc_add (of_nat (length code)) s'))"

definition emits :: "asm_error + asm \<Rightarrow> (host \<Rightarrow> sim \<Rightarrow> sim_error + sim) \<Rightarrow> asm \<Rightarrow> bool" where
  "emits r X a \<longleftrightarrow>
     (\<exists>code. r = Inr (append_code code a) \<and> step_is code (in_sequence X code) \<and> length code \<le> 4)"

lemma step_is_32:
  assumes "DecodeOpcode e AND 3 = 3" and "\<And>h s. zero_ok s \<Longrightarrow> Interpret h e s = X h s"
  shows "step_is (bytes32 e) X"
  using assms by (simp add: step_is_def step_32 not_IsCInstruction_32)

lemma step_is_16:
  assumes "IsCInstruction e" and "\<And>h s. zero_ok s \<Longrightarrow> InterpretC e s = X h s"
  shows "step_is (bytes16 e) X"
  using assms by (simp add: step_is_def step_16)

lemma emits_32:
  assumes "DecodeOpcode e AND 3 = 3"
    and "\<And>h s. zero_ok s \<Longrightarrow> Interpret h e s = bindE (X h s) (\<lambda>s'. Inr (pc_add 4 s'))"
  shows "emits (Emit32 e a) X a"
  using assms step_is_32 [of e "in_sequence X (bytes32 e)"]
  by (auto simp: emits_def Emit_append_code in_sequence_def)

lemma emits_16:
  assumes "IsCInstruction e"
    and "\<And>h s. zero_ok s \<Longrightarrow> InterpretC e s = bindE (X h s) (\<lambda>s'. Inr (pc_add 2 s'))"
  shows "emits (Emit16 e a) X a"
  using assms step_is_16 [of e "in_sequence X (bytes16 e)"]
  by (auto simp: emits_def Emit_append_code in_sequence_def)

lemma emits_if:
  "(c \<Longrightarrow> emits r X a) \<Longrightarrow> (\<not> c \<Longrightarrow> emits r' X a) \<Longrightarrow> emits (if c then r else r') X a"
  by simp

lemma emits_ASSERT: "c \<Longrightarrow> emits r X a \<Longrightarrow> emits (ASSERT c r) X a"
  by (simp add: ASSERT_def)

lemmas emits_intros = emits_ASSERT emits_if emits_32 emits_16

declare EmitRType_def [asm_defs] EmitIType_def [asm_defs] EmitSType_def [asm_defs]
  EmitRType_shamt_def [asm_defs] EmitUType_def [asm_defs] EmitRType_amo_def [asm_defs]
  c_lwsp_def [asm_defs] c_ldsp_def [asm_defs] c_swsp_def [asm_defs]
  c_sdsp_def [asm_defs] c_lw_def [asm_defs] c_ld_def [asm_defs]
  c_sw_def [asm_defs] c_sd_def [asm_defs]
  c_jr_def [asm_defs] c_jalr_def [asm_defs] c_li_def [asm_defs] c_lui_def [asm_defs]
  c_addi_def [asm_defs] c_addiw_def [asm_defs] c_addi16sp_def [asm_defs] c_addi4spn_def [asm_defs]
  c_slli_def [asm_defs] c_srli_def [asm_defs] c_srai_def [asm_defs] c_andi_def [asm_defs]
  c_mv_def [asm_defs] c_add_def [asm_defs] c_and_def [asm_defs] c_or_def [asm_defs]
  c_xor_def [asm_defs] c_sub_def [asm_defs] c_addw_def [asm_defs] c_subw_def [asm_defs]
  c_nop_def [asm_defs] c_ebreak_def [asm_defs]

text \<open>The floating-point formats have the same fields as the integer ones.\<close>

lemma float_formats [asm_defs]:
  "EmitIType_f imm rs1 funct3 rd opcode a = EmitIType imm rs1 funct3 rd opcode a"
  "EmitSType_f imm rs2 rs1 funct3 opcode a = EmitSType imm rs2 rs1 funct3 opcode a"
  by (simp_all add: EmitIType_f_def EmitIType_def EmitSType_f_def EmitSType_def IType_def SType_def
      FReg_fields)

lemma float_compressed [asm_defs]:
  "c_fldsp rd addr a =
     ASSERT (addr_base addr = SP \<and> Supports RV_C a \<and> Supports RV_D a \<and> IsCSPLoad8Imm (addr_offset addr))
       (Emit16 (CI_L8 C_FLDSP rd (addr_offset addr)) a)"
  "c_fsdsp rs2 addr a =
     ASSERT (addr_base addr = SP \<and> Supports RV_C a \<and> Supports RV_D a \<and> IsCSPStore8Imm (addr_offset addr))
       (Emit16 (CSS8 C_FSDSP rs2 (addr_offset addr)) a)"
  "c_fld rd addr a =
     ASSERT (Supports RV_C a \<and> Supports RV_D a \<and> IsCFRdp rd \<and> IsCRs1p (addr_base addr) \<and>
         IsCMem8Imm (addr_offset addr))
       (Emit16 (CL8 C_FLD rd (addr_base addr) (addr_offset addr)) a)"
  "c_fsd rs2 addr a =
     ASSERT (Supports RV_C a \<and> Supports RV_D a \<and> IsCRs1p (addr_base addr) \<and> IsCFRs2p rs2 \<and>
         IsCMem8Imm (addr_offset addr))
       (Emit16 (CS8 C_FSD (addr_base addr) rs2 (addr_offset addr)) a)"
  by (simp_all add: c_fldsp_def c_fsdsp_def c_fld_def c_fsd_def CI_L8_def CSS8_def CL8_def CS8_def
      CFReg_fields)

lemma IsCRs2p_eq: "IsCRs2p r = IsCRs1p r"
  by (simp add: IsCRs2p_def IsCRs1p_def)

lemma zero_ok_get_xreg: "zero_ok s \<Longrightarrow> get_xreg s ZR = 0"
  by (simp add: zero_ok_def)

lemma C_NOP_CI [asm_defs]: "ucast C_NOP = CI C_ADDI ZR 0"
  by (simp add: CI_def EncodeCRd_def EncodeCIImm_def)

lemmas exec_simps = IsCRs2p_eq dec_simps interp_defs CInstr_opcode_def Interpret_def InterpretC_def
  wf_asm_Supports zero_ok_get_xreg sign_extend64_def IsFunct7_def IsFunct3_def IsOpcode_def

subsection \<open>Straight-line code\<close>

text \<open>
  \<open>assembles n r f a\<close>: assembling from state \<open>a\<close> succeeds with result \<open>r\<close>, which
  appended at most \<open>n\<close> bytes of code of effect \<open>f\<close> on registers.
\<close>

definition assembles :: "nat \<Rightarrow> asm_error + asm \<Rightarrow> (sim \<Rightarrow> sim) \<Rightarrow> asm \<Rightarrow> bool" where
  "assembles n r f a \<longleftrightarrow>
     (\<exists>code. r = Inr (append_code code a) \<and> runs code f \<and> length code \<le> n) \<and> frame f"

lemma assembles_Inr: "assembles 0 (Inr a) (\<lambda>s. s) a"
  unfolding assembles_def by (auto intro: exI [of _ "[]"] runs_Nil)

lemma assembles_bindE:
  assumes "assembles m r f a" and "wf_asm a" and "\<And>a'. wf_asm a' \<Longrightarrow> assembles n (k a') g a'"
  shows "assembles (m + n) (bindE r k) (\<lambda>s. g (f s)) a"
proof -
  obtain xs where xs: "r = Inr (append_code xs a)" "runs xs f" "frame f" "length xs \<le> m"
    using assms(1) by (auto simp: assembles_def)
  then obtain ys where "k (append_code xs a) = Inr (append_code (xs @ ys) a)" "runs ys g" "frame g"
    "length ys \<le> n"
    using assms(3) [of "append_code xs a"] assms(2) by (auto simp: assembles_def append_code_append)
  then show ?thesis
    using xs runs_append [of xs f ys g] frame_comp [of f g] unfolding assembles_def
    by (auto intro!: exI [of _ "xs @ ys"])
qed

lemma assembles_cong:
  assumes "assembles n r f a" and "\<And>s. f s = g s"
  shows "assembles n r g a"
proof -
  have "f = g" using assms(2) by (rule ext)
  then show ?thesis using assms(1) by simp
qed

text \<open>An instruction whose effect is total is straight-line code.\<close>

lemma step_is_runs:
  assumes c: "step_is code (in_sequence (\<lambda>h s. Inr (f s)) code)" and f: "frame f"
  shows "runs code f"
  unfolding runs_def
proof (intro allI impI)
  fix h s assume p: "placed code s"
  have "step h s = Inr ((f s)\<lparr>pc := pc s + of_nat (length code), instret := instret s + 1\<rparr>)"
    using p c by (simp add: step_is_def in_sequence_def placed_def pc_add_def frame_pc [OF f]
        frame_instret [OF f])
  then have "loop_step h s (((f s)\<lparr>pc := pc s + of_nat (length code)\<rparr>)\<lparr>instret := instret s + 1\<rparr>)"
    using placed_not_end [OF p] by (simp add: loop_step_def)
  then show "reaches h s ((f s)\<lparr>pc := pc s + of_nat (length code)\<rparr>)"
    by (auto simp: reaches_def)
qed

lemma emits_assembles: "emits r (\<lambda>h s. Inr (f s)) a \<Longrightarrow> frame f \<Longrightarrow> assembles 4 r f a"
  unfolding emits_def assembles_def using step_is_runs by blast

text \<open>An instruction that may fail, on a state where it does not.\<close>

lemma emits_reaches:
  assumes "emits r X a"
  shows "\<exists>code. r = Inr (append_code code a) \<and>
    (\<forall>h s t. placed code s \<longrightarrow> X h s = Inr t \<longrightarrow> pc t = pc s \<longrightarrow>
       reaches h s (t\<lparr>pc := pc s + of_nat (length code)\<rparr>))"
proof -
  obtain code where c: "r = Inr (append_code code a)" "step_is code (in_sequence X code)"
    using assms by (auto simp: emits_def)
  have "reaches h s (t\<lparr>pc := pc s + of_nat (length code)\<rparr>)"
    if "placed code s" "X h s = Inr t" "pc t = pc s" for h s t
  proof -
    have "step h s = Inr ((t\<lparr>pc := pc s + of_nat (length code)\<rparr>)\<lparr>instret := instret t + 1\<rparr>)"
      using that c(2) by (simp add: step_is_def in_sequence_def placed_def pc_add_def)
    then have "loop_step h s ((t\<lparr>pc := pc s + of_nat (length code)\<rparr>)\<lparr>instret := instret t + 1\<rparr>)"
      using placed_not_end [OF that(1)] by (simp add: loop_step_def)
    then show ?thesis by (auto simp: reaches_def)
  qed
  then show ?thesis using c(1) by blast
qed

text \<open>An instruction on a state where it fails stops the execution loop with its error.\<close>

lemma emits_fails:
  assumes "emits r X a"
  shows "\<exists>code. r = Inr (append_code code a) \<and> length code \<le> 4 \<and>
    (\<forall>h s e. placed code s \<longrightarrow> X h s = Inl e \<longrightarrow> Execute h s = Some (Inl e)) \<and>
    (\<forall>h s t. placed code s \<longrightarrow> X h s = Inr t \<longrightarrow> pc t = pc s \<longrightarrow> reaches h s (t\<lparr>pc := pc s + of_nat (length code)\<rparr>))"
proof -
  obtain code where c: "r = Inr (append_code code a)" "length code \<le> 4" "step_is code (in_sequence X code)"
    using assms by (auto simp: emits_def)
  have "Execute h s = Some (Inl e)" if "placed code s" "X h s = Inl e" for h s e
  proof -
    have "step h s = Inl e" using c(3) that by (simp add: step_is_def placed_def in_sequence_def)
    then show ?thesis using placed_not_end [OF that(1)] by (subst Execute.simps) simp
  qed
  moreover from emits_reaches [OF assms] obtain code' where "r = Inr (append_code code' a)"
    "\<forall>h s t. placed code' s \<longrightarrow> X h s = Inr t \<longrightarrow> pc t = pc s \<longrightarrow> reaches h s (t\<lparr>pc := pc s + of_nat (length code')\<rparr>)"
    by blast
  moreover from this(1) c(1) have "buffer (append_code code' a) = buffer (append_code code a)" by simp
  then have "code' = code" by simp
  ultimately show ?thesis using c(1,2) by blast
qed

abbreviation set_rd :: "Register \<Rightarrow> (sim \<Rightarrow> u64) \<Rightarrow> host \<Rightarrow> sim \<Rightarrow> sim_error + sim" where
  "set_rd rd v \<equiv> \<lambda>h s. Inr (set_xreg rd (v s) s)"

lemma MemoryWrite_pc: "MemoryWrite sz addr v base s = Inr t \<Longrightarrow> pc t = pc s"
  by (auto simp: MemoryWrite_def split: option.splits)

subsection \<open>Contracts\<close>

locale register_op =
  fixes op :: "Register \<Rightarrow> Register \<Rightarrow> Register \<Rightarrow> asm_op"
    and valid :: "Register \<Rightarrow> Register \<Rightarrow> Register \<Rightarrow> bool"
    and f :: "u64 \<Rightarrow> u64 \<Rightarrow> u64"
  assumes emits_op: "wf_asm a \<Longrightarrow> valid rd rs1 rs2 \<Longrightarrow>
    emits (op rd rs1 rs2 a) (set_rd rd (\<lambda>s. f (get_xreg s rs1) (get_xreg s rs2))) a"
begin

lemma assembles_op:
  assumes "wf_asm a" and "valid rd rs1 rs2"
  shows "assembles 4 (op rd rs1 rs2 a) (\<lambda>s. set_xreg rd (f (get_xreg s rs1) (get_xreg s rs2)) s) a"
  by (rule emits_assembles [OF emits_op [OF assms]]) (rule frame_set_xreg; simp add: get_xreg_def)

end

locale immediate_op =
  fixes op :: "Register \<Rightarrow> Register \<Rightarrow> intptr \<Rightarrow> asm_op"
    and valid :: "intptr \<Rightarrow> bool"
    and f :: "u64 \<Rightarrow> intptr \<Rightarrow> u64"
  assumes emits_op: "wf_asm a \<Longrightarrow> valid imm \<Longrightarrow>
    emits (op rd rs1 imm a) (set_rd rd (\<lambda>s. f (get_xreg s rs1) imm)) a"
begin

lemma assembles_op:
  assumes "wf_asm a" and "valid imm"
  shows "assembles 4 (op rd rs1 imm a) (\<lambda>s. set_xreg rd (f (get_xreg s rs1) imm) s) a"
  by (rule emits_assembles [OF emits_op [OF assms]]) (rule frame_set_xreg; simp add: get_xreg_def)

end

text \<open>
  A load puts the bytes it reads into an integer or a floating-point register; an
  access the simulator rejects is its error.
\<close>

locale load_op =
  fixes op :: "Register \<Rightarrow> Address \<Rightarrow> asm_op"
    and sz :: nat
    and put :: "Register \<Rightarrow> u64 \<Rightarrow> sim \<Rightarrow> sim"
  assumes emits_op: "wf_asm a \<Longrightarrow> IsITypeImm imm \<Longrightarrow>
    emits (op rd (Address rs1 imm) a)
      (\<lambda>h s. bindE (MemoryRead sz (get_xreg s rs1 + imm) rs1 s) (\<lambda>v. Inr (put rd v s))) a"
    and put_pc: "pc (put rd v s) = pc s"
begin

lemma loads:
  assumes "wf_asm a" and "IsITypeImm imm"
  shows "\<exists>code. op rd (Address rs1 imm) a = Inr (append_code code a) \<and>
    (\<forall>h s v. placed code s \<longrightarrow> MemoryRead sz (get_xreg s rs1 + imm) rs1 s = Inr v \<longrightarrow>
       reaches h s ((put rd v s)\<lparr>pc := pc s + of_nat (length code)\<rparr>))"
  using emits_reaches [OF emits_op [OF assms, of rd rs1]] by (fastforce simp: put_pc)

lemma checked_load:
  assumes "wf_asm a" and "IsITypeImm imm"
  shows "\<exists>code. op rd (Address rs1 imm) a = Inr (append_code code a) \<and> length code \<le> 4 \<and>
    (\<forall>h s. placed code s \<longrightarrow>
       (\<forall>e. CheckAccess sz (get_xreg s rs1 + imm) rs1 s = Some e \<longrightarrow> Execute h s = Some (Inl e)) \<and>
       (CheckAccess sz (get_xreg s rs1 + imm) rs1 s = None \<longrightarrow>
          reaches h s ((put rd (load sz (memory s) (get_xreg s rs1 + imm)) s)\<lparr>pc := pc s + of_nat (length code)\<rparr>)))"
proof -
  obtain code where c: "op rd (Address rs1 imm) a = Inr (append_code code a)" "length code \<le> 4"
    "\<forall>h s e. placed code s \<longrightarrow> bindE (MemoryRead sz (get_xreg s rs1 + imm) rs1 s) (\<lambda>v. Inr (put rd v s)) = Inl e \<longrightarrow>
       Execute h s = Some (Inl e)"
    "\<forall>h s t. placed code s \<longrightarrow> bindE (MemoryRead sz (get_xreg s rs1 + imm) rs1 s) (\<lambda>v. Inr (put rd v s)) = Inr t \<longrightarrow>
       pc t = pc s \<longrightarrow> reaches h s (t\<lparr>pc := pc s + of_nat (length code)\<rparr>)"
    using emits_fails [OF emits_op [OF assms, of rd rs1]] by blast
  have "(\<forall>e. CheckAccess sz (get_xreg s rs1 + imm) rs1 s = Some e \<longrightarrow> Execute h s = Some (Inl e)) \<and>
      (CheckAccess sz (get_xreg s rs1 + imm) rs1 s = None \<longrightarrow>
         reaches h s ((put rd (load sz (memory s) (get_xreg s rs1 + imm)) s)\<lparr>pc := pc s + of_nat (length code)\<rparr>))"
    if "placed code s" for h s
    using c(3) [rule_format, OF that] c(4) [rule_format, OF that] put_pc by (simp add: MemoryRead_def)
  then show ?thesis using c(1,2) by blast
qed

end

locale store_op =
  fixes op :: "Register \<Rightarrow> Address \<Rightarrow> asm_op"
    and sz :: nat
    and get :: "sim \<Rightarrow> Register \<Rightarrow> u64"
  assumes emits_op: "wf_asm a \<Longrightarrow> IsSTypeImm imm \<Longrightarrow>
    emits (op rs2 (Address rs1 imm) a)
      (\<lambda>h s. MemoryWrite sz (get_xreg s rs1 + imm) (get s rs2) rs1 s) a"
begin

lemma stores:
  assumes "wf_asm a" and "IsSTypeImm imm"
  shows "\<exists>code. op rs2 (Address rs1 imm) a = Inr (append_code code a) \<and>
    (\<forall>h s t. placed code s \<longrightarrow> MemoryWrite sz (get_xreg s rs1 + imm) (get s rs2) rs1 s = Inr t \<longrightarrow>
       reaches h s (t\<lparr>pc := pc s + of_nat (length code)\<rparr>))"
  using emits_reaches [OF emits_op [OF assms, of rs2 rs1]] MemoryWrite_pc by fastforce

lemma checked_store:
  assumes "wf_asm a" and "IsSTypeImm imm"
  shows "\<exists>code. op rs2 (Address rs1 imm) a = Inr (append_code code a) \<and> length code \<le> 4 \<and>
    (\<forall>h s. placed code s \<longrightarrow>
       (\<forall>e. CheckAccess sz (get_xreg s rs1 + imm) rs1 s = Some e \<longrightarrow> Execute h s = Some (Inl e)) \<and>
       (CheckAccess sz (get_xreg s rs1 + imm) rs1 s = None \<longrightarrow>
          reaches h s (s\<lparr>memory := store sz (get_xreg s rs1 + imm) (get s rs2) (memory s),
                                   pc := pc s + of_nat (length code)\<rparr>)))"
proof -
  obtain code where c: "op rs2 (Address rs1 imm) a = Inr (append_code code a)" "length code \<le> 4"
    "\<forall>h s e. placed code s \<longrightarrow> MemoryWrite sz (get_xreg s rs1 + imm) (get s rs2) rs1 s = Inl e \<longrightarrow>
       Execute h s = Some (Inl e)"
    "\<forall>h s t. placed code s \<longrightarrow> MemoryWrite sz (get_xreg s rs1 + imm) (get s rs2) rs1 s = Inr t \<longrightarrow>
       pc t = pc s \<longrightarrow> reaches h s (t\<lparr>pc := pc s + of_nat (length code)\<rparr>)"
    using emits_fails [OF emits_op [OF assms, of rs2 rs1]] by blast
  have "(\<forall>e. CheckAccess sz (get_xreg s rs1 + imm) rs1 s = Some e \<longrightarrow> Execute h s = Some (Inl e)) \<and>
      (CheckAccess sz (get_xreg s rs1 + imm) rs1 s = None \<longrightarrow>
         reaches h s (s\<lparr>memory := store sz (get_xreg s rs1 + imm) (get s rs2) (memory s),
                          pc := pc s + of_nat (length code)\<rparr>))"
    if "placed code s" for h s
    using c(3) [rule_format, OF that] c(4) [rule_format, OF that] by (simp add: MemoryWrite_def)
  then show ?thesis using c(1,2) by blast
qed

end

subsection \<open>Register operations\<close>

interpretation add: register_op add "\<lambda>rd rs1 rs2. rd \<noteq> ZR \<and> (rd = rs1 \<longrightarrow> rs2 \<noteq> ZR) \<and> (rd = rs2 \<longrightarrow> rs1 \<noteq> ZR)" "(+)"
  by unfold_locales (unfold add_def asm_defs, intro emits_intros, simp_all add: exec_simps, simp_all add: add.commute)

interpretation sub: register_op sub "\<lambda>rd rs1 rs2. True" "(-)"
  by unfold_locales (unfold sub_def asm_defs, intro emits_intros; simp add: exec_simps)

interpretation sll: register_op sll "\<lambda>rd rs1 rs2. True" "\<lambda>a b. push_bit (unat (b AND 63)) a"
  by unfold_locales (unfold sll_def asm_defs, intro emits_intros; simp add: exec_simps)

interpretation slt: register_op slt "\<lambda>rd rs1 rs2. True" "\<lambda>a b. if a <s b then 1 else 0"
  by unfold_locales (unfold slt_def asm_defs, intro emits_intros; simp add: exec_simps)

interpretation sltu: register_op sltu "\<lambda>rd rs1 rs2. True" "\<lambda>a b. if a < b then 1 else 0"
  by unfold_locales (unfold sltu_def asm_defs, intro emits_intros; simp add: exec_simps)

interpretation xor_rr: register_op xor_rr "\<lambda>rd rs1 rs2. True" "(XOR)"
  by unfold_locales (unfold xor_rr_def asm_defs, intro emits_intros, simp_all add: exec_simps, simp_all add: xor.commute)

interpretation srl: register_op srl "\<lambda>rd rs1 rs2. True" "\<lambda>a b. drop_bit (unat (b AND 63)) a"
  by unfold_locales (unfold srl_def asm_defs, intro emits_intros; simp add: exec_simps)

interpretation sra: register_op sra "\<lambda>rd rs1 rs2. True" "\<lambda>a b. signed_drop_bit (unat (b AND 63)) a"
  by unfold_locales (unfold sra_def asm_defs, intro emits_intros; simp add: exec_simps)

interpretation or_rr: register_op or_rr "\<lambda>rd rs1 rs2. True" "(OR)"
  by unfold_locales (unfold or_rr_def asm_defs, intro emits_intros, simp_all add: exec_simps, simp_all add: or.commute)

interpretation and_rr: register_op and_rr "\<lambda>rd rs1 rs2. True" "(AND)"
  by unfold_locales (unfold and_rr_def asm_defs, intro emits_intros, simp_all add: exec_simps, simp_all add: and.commute)

interpretation addw: register_op addw "\<lambda>rd rs1 rs2. True" "\<lambda>a b. sign_extend32 (ucast a + ucast b)"
  by unfold_locales (unfold addw_def asm_defs, intro emits_intros, simp_all add: exec_simps, simp_all add: add.commute)

interpretation subw: register_op subw "\<lambda>rd rs1 rs2. True" "\<lambda>a b. sign_extend32 (ucast a - ucast b)"
  by unfold_locales (unfold subw_def asm_defs, intro emits_intros; simp add: exec_simps)

interpretation sllw: register_op sllw "\<lambda>rd rs1 rs2. True" "\<lambda>a b. sign_extend32 (push_bit (unat (b AND 31)) (ucast a))"
  by unfold_locales (unfold sllw_def asm_defs, intro emits_intros; simp add: exec_simps)

interpretation srlw: register_op srlw "\<lambda>rd rs1 rs2. True" "\<lambda>a b. sign_extend32 (drop_bit (unat (b AND 31)) (ucast a))"
  by unfold_locales (unfold srlw_def asm_defs, intro emits_intros; simp add: exec_simps)

interpretation sraw: register_op sraw "\<lambda>rd rs1 rs2. True" "\<lambda>a b. sign_extend32 (signed_drop_bit (unat (b AND 31)) (ucast a))"
  by unfold_locales (unfold sraw_def asm_defs, intro emits_intros; simp add: exec_simps)

interpretation mul: register_op mul "\<lambda>rd rs1 rs2. True" sim_mul
  by unfold_locales (unfold mul_def asm_defs, intro emits_intros; simp add: exec_simps)

interpretation mulh: register_op mulh "\<lambda>rd rs1 rs2. True" sim_mulh
  by unfold_locales (unfold mulh_def asm_defs, intro emits_intros; simp add: exec_simps)

interpretation mulhsu: register_op mulhsu "\<lambda>rd rs1 rs2. True" sim_mulhsu
  by unfold_locales (unfold mulhsu_def asm_defs, intro emits_intros; simp add: exec_simps)

interpretation mulhu: register_op mulhu "\<lambda>rd rs1 rs2. True" sim_mulhu
  by unfold_locales (unfold mulhu_def asm_defs, intro emits_intros; simp add: exec_simps)

interpretation div_rr: register_op div_rr "\<lambda>rd rs1 rs2. True" "\<lambda>a b. the (sim_div a b)"
  by unfold_locales (unfold div_rr_def asm_defs, intro emits_intros; simp add: exec_simps)

interpretation divu: register_op divu "\<lambda>rd rs1 rs2. True" "\<lambda>a b. the (sim_divu a b)"
  by unfold_locales (unfold divu_def asm_defs, intro emits_intros; simp add: exec_simps)

interpretation rem: register_op rem "\<lambda>rd rs1 rs2. True" "\<lambda>a b. the (sim_rem a b)"
  by unfold_locales (unfold rem_def asm_defs, intro emits_intros; simp add: exec_simps)

interpretation remu: register_op remu "\<lambda>rd rs1 rs2. True" "\<lambda>a b. the (sim_remu a b)"
  by unfold_locales (unfold remu_def asm_defs, intro emits_intros; simp add: exec_simps)

interpretation mulw: register_op mulw "\<lambda>rd rs1 rs2. True" "\<lambda>a b. sign_extend32 (sim_mulw (ucast a) (ucast b))"
  by unfold_locales (unfold mulw_def asm_defs, intro emits_intros; simp add: exec_simps)

interpretation divw: register_op divw "\<lambda>rd rs1 rs2. True" "\<lambda>a b. sign_extend32 (the (sim_divw (ucast a) (ucast b)))"
  by unfold_locales (unfold divw_def asm_defs, intro emits_intros; simp add: exec_simps)

interpretation divuw: register_op divuw "\<lambda>rd rs1 rs2. True" "\<lambda>a b. sign_extend32 (the (sim_divuw (ucast a) (ucast b)))"
  by unfold_locales (unfold divuw_def asm_defs, intro emits_intros; simp add: exec_simps)

interpretation remw: register_op remw "\<lambda>rd rs1 rs2. True" "\<lambda>a b. sign_extend32 (the (sim_remw (ucast a) (ucast b)))"
  by unfold_locales (unfold remw_def asm_defs, intro emits_intros; simp add: exec_simps)

interpretation remuw: register_op remuw "\<lambda>rd rs1 rs2. True" "\<lambda>a b. sign_extend32 (the (sim_remuw (ucast a) (ucast b)))"
  by unfold_locales (unfold remuw_def asm_defs, intro emits_intros; simp add: exec_simps)

subsection \<open>Immediate operations\<close>

lemma sign_extend32_ucast:
  assumes "IsInt N v" and "0 < N" and "N \<le> 32"
  shows "sign_extend32 (ucast v) = v"
proof -
  have v: "signed_take_bit (N - 1) v = v"
    using assms IsInt_iff_signed_take_bit [of N v] by simp
  have "sign_extend32 (ucast v) = signed_take_bit 31 v"
    unfolding sign_extend32_def by (rule bit_word_eqI) (auto simp: bit_simps)
  also have "\<dots> = signed_take_bit 31 (signed_take_bit (N - 1) v)" by (simp only: v)
  also have "\<dots> = signed_take_bit (N - 1) v"
  proof -
    have "min 31 (N - 1) = N - 1" by (rule min_absorb2) (use assms in arith)
    then show ?thesis by (simp only: signed_take_bit_signed_take_bit)
  qed
  also have "\<dots> = v" by (rule v)
  finally show ?thesis .
qed

lemma shamt_less:
  fixes i :: intptr
  assumes "0 <s i" and "i <s n" and "0 <s n"
  shows "i < n"
proof -
  have nn: "uint w = sint w" if "0 <s w" for w :: intptr
    using that sint_lt [of w] by (simp add: word_sless_alt uint_sint take_bit_int_eq_self)
  have "uint i = sint i" "uint n = sint n" using assms by (simp_all add: nn)
  then show ?thesis using assms by (simp add: word_sless_alt word_less_def)
qed

lemma shamt_facts:
  fixes i :: intptr
  assumes "0 <s i" and "i <s 64"
  shows "IsShamt (ucast i)" and "unat (ucast i :: u32) = unat i" and "i AND 63 = i"
    and "drop_bit 5 (ucast i :: u32) AND 126 = 0" 
proof -
  have i: "uint i < 64" using shamt_less [OF assms] by (simp add: word_sless_alt word_less_def)
  then have t: "take_bit 6 i = i" by (simp add: take_bit_word_eq_self_iff_uint)
  have b: "bit i n \<Longrightarrow> n < 6" for n using t by (metis bit_take_bit_iff)
  show "i AND 63 = i" using t by (simp add: mask_simps)
  show "IsShamt (ucast i)"
    unfolding IsShamt_def mask_simps
  proof (rule bit_word_eqI)
    fix n show "bit (take_bit 6 (ucast i :: u32)) n = bit (ucast i :: u32) n"
      using b [of n] by (auto simp: bit_take_bit_iff bit_ucast_iff)
  qed
  show "unat (ucast i :: u32) = unat i"
  proof -
    have "unat i < 64"
      using shamt_less [OF assms] by (simp add: word_sless_alt word_less_nat_alt)
    then show ?thesis by (simp add: unsigned_ucast_eq take_bit_nat_eq_self)
  qed
  show "drop_bit 5 (ucast i :: u32) AND 126 = 0"
  proof (rule bit_word_eqI)
    fix n assume "n < LENGTH(32)"
    show "bit (drop_bit 5 (ucast i :: u32) AND 126) n \<longleftrightarrow> bit 0 n"
      using b [of "5 + n"] by (cases "n = 0") (auto simp: bit_and_iff bit_drop_bit_eq bit_ucast_iff)
  qed
qed

lemma shamt32_facts:
  fixes i :: intptr
  assumes "0 <s i" and "i <s 32"
  shows "drop_bit 5 (ucast i :: u32) = 0" and "i <s 64"
proof -
  have "uint i < 32" using shamt_less [OF assms] by (simp add: word_sless_alt word_less_def)
  then have t: "take_bit 5 i = i" by (simp add: take_bit_word_eq_self_iff_uint)
  have b: "bit i n \<Longrightarrow> n < 5" for n using t by (metis bit_take_bit_iff)
  show "drop_bit 5 (ucast i :: u32) = 0"
    by (rule bit_word_eqI) (auto simp: bit_simps dest: b)
  show "i <s 64" using assms(2) by (simp add: word_sless_alt)
qed
lemma IsCIImm_sign_extend32: "IsCIImm v \<Longrightarrow> sign_extend32 (ucast v) = v"
  by (simp add: IsCIImm_def sign_extend32_ucast [of 6])

lemmas shamt_simps = shamt_facts shamt32_facts

lemma and_126_or: "(x :: u32) AND 126 = 0 \<Longrightarrow> (y OR x) AND 126 = y AND 126"
  by (simp add: bit.conj_disj_distrib2)

interpretation addi: immediate_op addi IsITypeImm "(+)"
  by unfold_locales (unfold addi_def asm_defs, intro emits_intros; simp add: exec_simps)

interpretation slti: immediate_op slti IsITypeImm "\<lambda>a i. if a <s i then 1 else 0"
  by unfold_locales (unfold slti_def asm_defs, intro emits_intros; simp add: exec_simps)

interpretation sltiu: immediate_op sltiu IsITypeImm "\<lambda>a i. if a < i then 1 else 0"
  by unfold_locales (unfold sltiu_def asm_defs, intro emits_intros; simp add: exec_simps)

interpretation xori: immediate_op xori IsITypeImm "(XOR)"
  by unfold_locales (unfold xori_def asm_defs, intro emits_intros; simp add: exec_simps)

interpretation ori: immediate_op ori IsITypeImm "(OR)"
  by unfold_locales (unfold ori_def asm_defs, intro emits_intros; simp add: exec_simps)

interpretation andi: immediate_op andi IsITypeImm "(AND)"
  by unfold_locales (unfold andi_def asm_defs, intro emits_intros; simp add: exec_simps)

interpretation addiw: immediate_op addiw IsITypeImm "\<lambda>a i. sign_extend32 (ucast a + ucast i)"
  by unfold_locales (unfold addiw_def asm_defs, intro emits_intros; simp add: exec_simps IsCIImm_sign_extend32)

interpretation slli: immediate_op slli "\<lambda>i. 0 <s i \<and> i <s 64" "\<lambda>a i. push_bit (unat i) a"
  by unfold_locales (unfold slli_def asm_defs, intro emits_intros; simp add: exec_simps shamt_simps and_126_or)

interpretation srli: immediate_op srli "\<lambda>i. 0 <s i \<and> i <s 64" "\<lambda>a i. drop_bit (unat i) a"
  by unfold_locales (unfold srli_def asm_defs, intro emits_intros; simp add: exec_simps shamt_simps and_126_or)

interpretation srai: immediate_op srai "\<lambda>i. 0 <s i \<and> i <s 64" "\<lambda>a i. signed_drop_bit (unat i) a"
  by unfold_locales (unfold srai_def asm_defs, intro emits_intros; simp add: exec_simps shamt_simps and_126_or)

interpretation slliw: immediate_op slliw "\<lambda>i. 0 <s i \<and> i <s 32" "\<lambda>a i. sign_extend32 (push_bit (unat i) (ucast a))"
  by unfold_locales (unfold slliw_def asm_defs, intro emits_intros; simp add: exec_simps shamt_simps and_126_or)

interpretation srliw: immediate_op srliw "\<lambda>i. 0 <s i \<and> i <s 32" "\<lambda>a i. sign_extend32 (drop_bit (unat i) (ucast a))"
  by unfold_locales (unfold srliw_def asm_defs, intro emits_intros; simp add: exec_simps shamt_simps and_126_or)

interpretation sraiw: immediate_op sraiw "\<lambda>i. 0 <s i \<and> i <s 32" "\<lambda>a i. sign_extend32 (signed_drop_bit (unat i) (ucast a))"
  by unfold_locales (unfold sraiw_def asm_defs, intro emits_intros; simp add: exec_simps shamt_simps and_126_or)

subsection \<open>Loads and stores\<close>

lemma InterpretC_mem_dispatch:
  shows  "CInstr_opcode e = C_LWSP \<Longrightarrow> InterpretC e s =
      bindE (MemoryRead 4 (get_xreg s SP + DecodeCSPLoad4Imm (ucast e)) SP s) (\<lambda>v. Inr (pc_add 2 (set_xreg (DecodeCRd (ucast e)) (scast (ucast v :: u32)) s)))"
    and "CInstr_opcode e = C_LDSP \<Longrightarrow> InterpretC e s =
      bindE (MemoryRead 8 (get_xreg s SP + DecodeCSPLoad8Imm (ucast e)) SP s) (\<lambda>v. Inr (pc_add 2 (set_xreg (DecodeCRd (ucast e)) v s)))"
    and "CInstr_opcode e = C_FLDSP \<Longrightarrow> InterpretC e s =
      bindE (MemoryRead 8 (get_xreg s SP + DecodeCSPLoad8Imm (ucast e)) SP s) (\<lambda>v. Inr (pc_add 2 (set_fregd (DecodeCFRd (ucast e)) v s)))"
    and "CInstr_opcode e = C_SWSP \<Longrightarrow> InterpretC e s =
      bindE (MemoryWrite 4 (get_xreg s SP + DecodeCSPStore4Imm (ucast e)) (get_xreg s (DecodeCRs2 (ucast e))) SP s) (\<lambda>s. Inr (pc_add 2 s))"
    and "CInstr_opcode e = C_SDSP \<Longrightarrow> InterpretC e s =
      bindE (MemoryWrite 8 (get_xreg s SP + DecodeCSPStore8Imm (ucast e)) (get_xreg s (DecodeCRs2 (ucast e))) SP s) (\<lambda>s. Inr (pc_add 2 s))"
    and "CInstr_opcode e = C_FSDSP \<Longrightarrow> InterpretC e s =
      bindE (MemoryWrite 8 (get_xreg s SP + DecodeCSPStore8Imm (ucast e)) (get_fregd s (DecodeCFRs2 (ucast e))) SP s) (\<lambda>s. Inr (pc_add 2 s))"
    and "CInstr_opcode e = C_LW \<Longrightarrow> InterpretC e s =
      bindE (MemoryRead 4 (get_xreg s (DecodeCRs1p (ucast e)) + DecodeCMem4Imm (ucast e)) (DecodeCRs1p (ucast e)) s) (\<lambda>v. Inr (pc_add 2 (set_xreg (DecodeCRdp (ucast e)) (scast (ucast v :: u32)) s)))"
    and "CInstr_opcode e = C_LD \<Longrightarrow> InterpretC e s =
      bindE (MemoryRead 8 (get_xreg s (DecodeCRs1p (ucast e)) + DecodeCMem8Imm (ucast e)) (DecodeCRs1p (ucast e)) s) (\<lambda>v. Inr (pc_add 2 (set_xreg (DecodeCRdp (ucast e)) v s)))"
    and "CInstr_opcode e = C_FLD \<Longrightarrow> InterpretC e s =
      bindE (MemoryRead 8 (get_xreg s (DecodeCRs1p (ucast e)) + DecodeCMem8Imm (ucast e)) (DecodeCRs1p (ucast e)) s) (\<lambda>v. Inr (pc_add 2 (set_fregd (DecodeCFRdp (ucast e)) v s)))"
    and "CInstr_opcode e = C_SW \<Longrightarrow> InterpretC e s =
      bindE (MemoryWrite 4 (get_xreg s (DecodeCRs1p (ucast e)) + DecodeCMem4Imm (ucast e)) (get_xreg s (DecodeCRs2p (ucast e))) (DecodeCRs1p (ucast e)) s) (\<lambda>s. Inr (pc_add 2 s))"
    and "CInstr_opcode e = C_SD \<Longrightarrow> InterpretC e s =
      bindE (MemoryWrite 8 (get_xreg s (DecodeCRs1p (ucast e)) + DecodeCMem8Imm (ucast e)) (get_xreg s (DecodeCRs2p (ucast e))) (DecodeCRs1p (ucast e)) s) (\<lambda>s. Inr (pc_add 2 s))"
    and "CInstr_opcode e = C_FSD \<Longrightarrow> InterpretC e s =
      bindE (MemoryWrite 8 (get_xreg s (DecodeCRs1p (ucast e)) + DecodeCMem8Imm (ucast e)) (get_fregd s (DecodeCFRs2p (ucast e))) (DecodeCRs1p (ucast e)) s) (\<lambda>s. Inr (pc_add 2 s))"
  by (simp_all add: InterpretC_def InterpretC_mem_def Let_def bindE_assoc)

lemmas mem_simps = FReg_fields CFReg_fields dec_simps CInstr_opcode_def wf_asm_Supports IsFunct3_def IsOpcode_def Let_def
  Interpret_def InterpretLOAD_def InterpretSTORE_def InterpretLOADFP_def InterpretSTOREFP_def
  retire_rd_def bindE_assoc InterpretC_mem_dispatch [unfolded CInstr_opcode_def]

lemma put_pc_simps [simp]:
  "pc (set_xreg rd v s) = pc s" "pc (set_fregd rd v s) = pc s" "pc (set_fregs rd w s) = pc s"
  by (simp_all add: set_xreg_def set_fregd_def set_fregs_def)

interpretation lb: load_op lb 1 "\<lambda>rd v. set_xreg rd (scast (ucast v :: u8))"
  by unfold_locales (unfold lb_def asm_defs, intro emits_intros, simp_all add: mem_simps)

interpretation lh: load_op lh 2 "\<lambda>rd v. set_xreg rd (scast (ucast v :: u16))"
  by unfold_locales (unfold lh_def asm_defs, intro emits_intros, simp_all add: mem_simps)

interpretation lw: load_op lw 4 "\<lambda>rd v. set_xreg rd (scast (ucast v :: u32))"
  by unfold_locales (unfold lw_def asm_defs, intro emits_intros, simp_all add: mem_simps)

interpretation lbu: load_op lbu 1 set_xreg
  by unfold_locales (unfold lbu_def asm_defs, intro emits_intros, simp_all add: mem_simps)

interpretation lhu: load_op lhu 2 set_xreg
  by unfold_locales (unfold lhu_def asm_defs, intro emits_intros, simp_all add: mem_simps)

interpretation lwu: load_op lwu 4 set_xreg
  by unfold_locales (unfold lwu_def asm_defs, intro emits_intros, simp_all add: mem_simps)

interpretation ld: load_op ld 8 set_xreg
  by unfold_locales (unfold ld_def asm_defs, intro emits_intros, simp_all add: mem_simps)

interpretation sb: store_op sb 1 get_xreg
  by unfold_locales (unfold sb_def asm_defs, intro emits_intros, simp_all add: mem_simps)

interpretation sh: store_op sh 2 get_xreg
  by unfold_locales (unfold sh_def asm_defs, intro emits_intros, simp_all add: mem_simps)

interpretation sw: store_op sw 4 get_xreg
  by unfold_locales (unfold sw_def asm_defs, intro emits_intros, simp_all add: mem_simps)

interpretation sd: store_op sd 8 get_xreg
  by unfold_locales (unfold sd_def asm_defs, intro emits_intros, simp_all add: mem_simps)

interpretation flw: load_op flw 4 "\<lambda>rd v. set_fregs rd (ucast v)"
  by unfold_locales (unfold flw_def asm_defs, intro emits_intros, simp_all add: mem_simps)

interpretation fld: load_op fld 8 set_fregd
  by unfold_locales (unfold fld_def asm_defs, intro emits_intros, simp_all add: mem_simps)

interpretation fsw: store_op fsw 4 "\<lambda>s r. ucast (get_fregs s r)"
  by unfold_locales (unfold fsw_def asm_defs, intro emits_intros, simp_all add: mem_simps)

interpretation fsd: store_op fsd 8 get_fregd
  by unfold_locales (unfold fsd_def asm_defs, intro emits_intros, simp_all add: mem_simps)

subsection \<open>Upper immediates\<close>

text \<open>The immediate 0 has no compressed form: \<open>c.lui\<close> with 0 is reserved.\<close>

lemma lui_emits:
  assumes "wf_asm a" and "IsUTypeImm imm" and "imm \<noteq> 0"
  shows "emits (lui rd imm a) (set_rd rd (\<lambda>s. imm)) a"
  using assms by (unfold lui_def asm_defs, intro emits_intros; simp add: exec_simps)

lemma auipc_emits:
  assumes "wf_asm a" and "IsUTypeImm imm"
  shows "emits (auipc rd imm a) (set_rd rd (\<lambda>s. pc s + imm)) a"
  using assms by (unfold auipc_def asm_defs, intro emits_intros; simp add: exec_simps)

lemma assembles_lui:
  assumes "wf_asm a" and "IsUTypeImm imm" and "imm \<noteq> 0"
  shows "assembles 4 (lui rd imm a) (\<lambda>s. set_xreg rd imm s) a"
  by (rule emits_assembles [OF lui_emits [OF assms]]) (rule frame_set_xreg; simp)

subsection \<open>Pseudo-instructions\<close>

lemma assembles_li:
  assumes "wf_asm a" and "IsITypeImm imm"
  shows "assembles 4 (li rd imm a) (\<lambda>s. set_xreg rd (get_xreg s ZR + imm) s) a"
  by (rule addi.assembles_op [OF assms])

lemma assembles_mv:
  assumes "wf_asm a"
  shows "assembles 4 (mv rd rs a) (\<lambda>s. set_xreg rd (get_xreg s rs) s) a"
  using addi.assembles_op [OF assms, of 0 rd rs] by (simp add: IsITypeImm_def IsInt_iff_sint)

end
