(* ===== verification/Riscv_Split.thy ===== *)
theory Riscv_Split
  imports Riscv_Contract
begin

text \<open>
  The split of a displacement or constant into a 12-bit signed low part and a
  32-bit high part that is a multiple of 4096 (\<open>lo\<close> and \<open>hi\<close> of \<open>EmitBranch\<close>,
  \<open>EmitJump\<close>, \<open>UpdateFarOffset\<close>, \<open>LoadFromOffset\<close>, \<open>LoadImmediate\<close>, ...).
\<close>

unbundle bit_operations_syntax

lemma signed_shift_pair:
  fixes x :: intptr
  assumes "n < 64"
  shows "signed_drop_bit n (push_bit n x) = signed_take_bit (63 - n) x"
proof (rule bit_word_eqI)
  fix i assume i: "i < LENGTH(64)"
  show "bit (signed_drop_bit n (push_bit n x)) i = bit (signed_take_bit (63 - n) x) i"
  proof (cases "i < 63 - n")
    case True
    then have "n + i < 64" "\<not> 64 - n \<le> i" by linarith+
    then show ?thesis
      using i assms True by (simp add: bit_signed_drop_bit_iff bit_push_bit_iff bit_signed_take_bit_iff min_def)
  next
    case False
    then consider "i = 63 - n" | "64 - n \<le> i" "63 - n \<le> i" by linarith
    then show ?thesis
      using i assms by cases (auto simp: bit_signed_drop_bit_iff bit_push_bit_iff bit_signed_take_bit_iff min_def)
  qed
qed

lemma split_lo_eq: "split_lo x = signed_take_bit 11 x"
  by (simp add: split_lo_def signed_shift_pair)

lemma split_hi_eq: "split_hi x = signed_take_bit 31 (x - split_lo x)"
  by (simp add: split_hi_def signed_shift_pair)

lemma IsInt_signed_take_bit:
  fixes x :: intptr
  assumes "0 < N" and "N < 64"
  shows "IsInt N (signed_take_bit (N - 1) x)"
proof -
  have "signed_take_bit (N - 1) (signed_take_bit (N - 1) x) = signed_take_bit (N - 1) x" by simp
  then show ?thesis using assms by (subst IsInt_iff_signed_take_bit) simp_all
qed

lemma IsITypeImm_split_lo: "IsITypeImm (split_lo x)" and IsSTypeImm_split_lo: "IsSTypeImm (split_lo x)"
  using IsInt_signed_take_bit [of 12 x] by (simp_all add: IsITypeImm_def IsSTypeImm_def split_lo_eq)

lemma take_bit_12_diff:
  fixes x y :: intptr
  assumes "take_bit 12 x = take_bit 12 y"
  shows "take_bit 12 (x - y) = 0"
proof -
  have *: "(p + t) - (q + t) = p - q" for t p q :: intptr by simp
  have "x - y = (push_bit 12 (drop_bit 12 x) + take_bit 12 x) - (push_bit 12 (drop_bit 12 y) + take_bit 12 y)"
    by (simp only: bits_ident)
  also have "\<dots> = push_bit 12 (drop_bit 12 x) - push_bit 12 (drop_bit 12 y)"
    by (simp only: assms *)
  also have "\<dots> = push_bit 12 (drop_bit 12 x - drop_bit 12 y)"
    by (simp only: push_bit_eq_mult left_diff_distrib)
  finally have **: "x - y = push_bit 12 (drop_bit 12 x - drop_bit 12 y)" .
  show ?thesis unfolding ** by (rule bit_word_eqI) (simp add: bit_take_bit_iff bit_push_bit_iff)
qed

lemma take_bit_minus_split_lo: "take_bit 12 (x - split_lo x) = 0"
  by (rule take_bit_12_diff) (simp add: split_lo_eq take_bit_signed_take_bit)

lemma IsUTypeImm_split_hi: "IsUTypeImm (split_hi x)"
proof -
  have "take_bit 12 (split_hi x) = take_bit 12 (x - split_lo x)"
    unfolding split_hi_eq by (simp add: take_bit_signed_take_bit)
  then have "take_bit 12 (split_hi x) = 0" by (simp add: take_bit_minus_split_lo)
  then show ?thesis
    using IsInt_signed_take_bit [of 32 "x - split_lo x"]
    by (simp add: IsUTypeImm_def IsAligned_numeral split_hi_eq)
qed

text \<open>The two parts add up whenever the high part fits, and always modulo \<open>2 ^ 32\<close>.\<close>

lemma split_sum:
  assumes "IsInt 32 (x - split_lo x)"
  shows "split_hi x + split_lo x = x"
  using assms by (simp add: split_hi_eq IsInt_iff_signed_take_bit)

lemma word_of_int_take_bit_64: "(word_of_int (take_bit 64 k) :: u32) = word_of_int k"
proof -
  have "uint (word_of_int (take_bit 64 k) :: u32) = uint (word_of_int k :: u32)"
    by (simp only: uint_word_of_int_eq take_bit_take_bit) simp
  then show ?thesis by (simp only: word_uint_eq_iff)
qed

lemma uint_add_64: "uint (x + y) = take_bit 64 (uint x + uint y)" for x y :: u64
  by (subst uint_word_arith_bintrs(1)) simp

lemma ucast_add: "(ucast (x + y :: u64) :: u32) = ucast x + ucast y"
  by (simp only: ucast_eq uint_add_64 word_of_int_take_bit_64 of_int_add)

lemma ucast_split: "(ucast (split_hi x) + ucast (split_lo x) :: u32) = ucast x"
proof -
  have "(ucast (split_hi x) :: u32) = ucast (take_bit 32 (split_hi x))"
    by (rule bit_word_eqI) (simp add: bit_ucast_iff bit_take_bit_iff)
  also have "\<dots> = ucast (take_bit 32 (x - split_lo x))"
    unfolding split_hi_eq by (simp add: take_bit_signed_take_bit)
  also have "\<dots> = ucast (x - split_lo x)"
    by (rule bit_word_eqI) (simp add: bit_ucast_iff bit_take_bit_iff)
  finally show ?thesis using ucast_add [of "x - split_lo x" "split_lo x"] by simp
qed

end
