(* ===== verification/Riscv_Branches.thy ===== *)
theory Riscv_Branches
  imports Riscv_Split
begin

text \<open>
  Branches and jumps to bound labels.  Whichever form the assembler chooses for
  the distance (a compressed branch, a branch, an inverted branch around a jump,
  or one around \<open>auipc\<close>/\<open>jalr\<close>), the code leaves to the label exactly when the
  condition of the branch holds, and changes no register but \<open>FAR_TMP\<close>.
\<close>

unbundle bit_operations_syntax

subsection \<open>Code that leaves\<close>

definition exits :: "u8 list \<Rightarrow> (sim \<Rightarrow> sim) \<Rightarrow> (sim \<Rightarrow> bool) \<Rightarrow> u64 \<Rightarrow> bool" where
  "exits code f c d \<longleftrightarrow>
     (\<forall>h s. placed code s \<longrightarrow>
        (\<exists>v. reaches h s ((set_xreg FAR_TMP v (f s))\<lparr>pc := pc s + (if c s then d else of_nat (length code))\<rparr>)))"

text \<open>A condition on the registers.\<close>

definition on_registers :: "(sim \<Rightarrow> bool) \<Rightarrow> bool" where
  "on_registers c \<longleftrightarrow> (\<forall>s x. c (s\<lparr>pc := x\<rparr>) = c s) \<and> (\<forall>s x. c (s\<lparr>instret := x\<rparr>) = c s)"

lemma on_registersI [intro]:
  "on_registers (\<lambda>s. P (get_xreg s r1) (get_xreg s r2))"
  by (simp add: on_registers_def get_xreg_def)

lemma set_get_xreg: "set_xreg r (get_xreg s r) s = s"
  by (simp add: set_xreg_def get_xreg_def)

lemma reaches_then: "(loop_step h)\<^sup>*\<^sup>* s u \<Longrightarrow> reaches h u t \<Longrightarrow> reaches h s t"
  by (auto simp: reaches_def intro: rtranclp_trans)

lemma step_is_reaches:
  assumes "step_is code X" and "placed code s" and "X h s = Inr t"
  shows "reaches h s t"
proof -
  have "step h s = Inr (t\<lparr>instret := instret t + 1\<rparr>)"
    using assms by (simp add: step_is_def placed_def)
  then have "loop_step h s (t\<lparr>instret := instret t + 1\<rparr>)"
    using placed_not_end [OF assms(2)] by (simp add: loop_step_def)
  then show ?thesis by (auto simp: reaches_def)
qed

text \<open>A single branch instruction.\<close>

lemma exits_step:
  assumes "step_is code (\<lambda>h s. Inr (pc_add (if c s then d else of_nat (length code)) s))"
  shows "exits code (\<lambda>s. s) c d"
  unfolding exits_def
proof (intro allI impI)
  fix h s assume p: "placed code s"
  show "\<exists>v. reaches h s ((set_xreg FAR_TMP v s)\<lparr>pc := pc s + (if c s then d else of_nat (length code))\<rparr>)"
    using step_is_reaches [OF assms p refl, of h]
    by (intro exI [of _ "get_xreg s FAR_TMP"]) (simp add: set_get_xreg pc_add_def)
qed

text \<open>Straight-line code in front.\<close>

lemma exits_append:
  assumes f: "runs xs f" "frame f" and g: "exits ys (\<lambda>s. s) c d" and c: "on_registers c"
  shows "exits (xs @ ys) f (\<lambda>s. c (f s)) (d + of_nat (length xs))"
  unfolding exits_def
proof (intro allI impI)
  fix h s assume p: "placed (xs @ ys) s"
  obtain k where k: "(loop_step h)\<^sup>*\<^sup>* s ((f s)\<lparr>pc := pc s + of_nat (length xs), instret := k\<rparr>)"
    using runsD [OF f(1) placed_append(1) [OF p], of h] by (auto simp: reaches_def)
  let ?u = "(f s)\<lparr>pc := pc s + of_nat (length xs), instret := k\<rparr>"
  have "placed ys ?u"
    by (rule placed_append(2) [OF p]) (simp_all add: frame_simps [OF f(2)])
  then obtain v where
    "reaches h ?u ((set_xreg FAR_TMP v ?u)\<lparr>pc := pc ?u + (if c ?u then d else of_nat (length ys))\<rparr>)"
    using g unfolding exits_def by blast
  moreover have "(set_xreg FAR_TMP v ?u)\<lparr>pc := pc ?u + (if c ?u then d else of_nat (length ys))\<rparr>
    = ((set_xreg FAR_TMP v (f s))\<lparr>pc := pc s + (if c (f s) then d + of_nat (length xs)
        else of_nat (length (xs @ ys)))\<rparr>)\<lparr>instret := k\<rparr>"
    using c by (simp add: on_registers_def set_xreg_def algebra_simps)
  ultimately have "reaches h ?u ((set_xreg FAR_TMP v (f s))\<lparr>pc := pc s +
      (if c (f s) then d + of_nat (length xs) else of_nat (length (xs @ ys)))\<rparr>)"
    by (simp only: reaches_instret)
  then show "\<exists>v. reaches h s ((set_xreg FAR_TMP v (f s))\<lparr>pc := pc s +
     (if c (f s) then d + of_nat (length xs) else of_nat (length (xs @ ys)))\<rparr>)"
    using reaches_then [OF k] by blast
qed

text \<open>A branch over code that jumps.\<close>

lemma exits_branch_over:
  assumes b: "step_is xs (\<lambda>h s. Inr (pc_add (if \<not> c s then of_nat (length (xs @ ys)) else of_nat (length xs)) s))"
    and j: "exits ys (\<lambda>s. s) (\<lambda>s. True) d" and c: "on_registers c"
  shows "exits (xs @ ys) (\<lambda>s. s) c (d + of_nat (length xs))"
  unfolding exits_def
proof (intro allI impI)
  fix h s assume p: "placed (xs @ ys) s"
  let ?u = "pc_add (if \<not> c s then of_nat (length (xs @ ys)) else of_nat (length xs)) s"
  obtain k where k: "(loop_step h)\<^sup>*\<^sup>* s (?u\<lparr>instret := k\<rparr>)"
    using step_is_reaches [OF b placed_append(1) [OF p] refl, of h] by (auto simp: reaches_def)
  show "\<exists>v. reaches h s ((set_xreg FAR_TMP v s)\<lparr>pc := pc s +
     (if c s then d + of_nat (length xs) else of_nat (length (xs @ ys)))\<rparr>)"
  proof (cases "c s")
    case False
    then show ?thesis
      using k by (intro exI [of _ "get_xreg s FAR_TMP"])
        (auto simp: set_get_xreg pc_add_def reaches_def)
  next
    case True
    let ?v = "s\<lparr>pc := pc s + of_nat (length xs), instret := k\<rparr>"
    have "placed ys ?v" by (rule placed_append(2) [OF p]) simp_all
    then obtain v where "reaches h ?v ((set_xreg FAR_TMP v ?v)\<lparr>pc := pc ?v + d\<rparr>)"
      using j unfolding exits_def by fastforce
    moreover have "(set_xreg FAR_TMP v ?v)\<lparr>pc := pc ?v + d\<rparr>
      = ((set_xreg FAR_TMP v s)\<lparr>pc := pc s + (d + of_nat (length xs))\<rparr>)\<lparr>instret := k\<rparr>"
      by (simp add: set_xreg_def algebra_simps)
    ultimately have "reaches h ?v ((set_xreg FAR_TMP v s)\<lparr>pc := pc s + (d + of_nat (length xs))\<rparr>)"
      by (simp only: reaches_instret)
    then show ?thesis
      using True k reaches_then [of h s ?v] by (auto simp: pc_add_def)
  qed
qed

subsection \<open>Instructions that branch\<close>

definition branch_test :: "Funct3 \<Rightarrow> u64 \<Rightarrow> u64 \<Rightarrow> bool" where
  "branch_test funct3 a b =
     (if funct3 = f3_BEQ then a = b
      else if funct3 = f3_BNE then a \<noteq> b
      else if funct3 = f3_BLT then a <s b
      else if funct3 = f3_BGE then b \<le>s a
      else if funct3 = f3_BLTU then a < b
      else b \<le> a)"

definition is_branch :: "Funct3 \<Rightarrow> bool" where
  "is_branch funct3 \<longleftrightarrow> funct3 \<in> {f3_BEQ, f3_BNE, f3_BLT, f3_BGE, f3_BLTU, f3_BGEU}"

lemma BType_step:
  assumes "is_branch funct3" and "IsBTypeImm d"
  shows "step_is (bytes32 (BType d rs2 rs1 funct3 op_BRANCH))
    (\<lambda>h s. Inr (pc_add (if branch_test funct3 (get_xreg s rs1) (get_xreg s rs2) then d else 4) s))"
proof (rule step_is_32)
  have f: "IsFunct3 funct3"
    using assms(1) by (auto simp: is_branch_def IsFunct3_def)
  then show "DecodeOpcode (BType d rs2 rs1 funct3 op_BRANCH) AND 3 = 3"
    by (simp add: dec_simps assms IsOpcode_def)
  fix h s
  have "Interpret h (BType d rs2 rs1 funct3 op_BRANCH) s = InterpretBRANCH (BType d rs2 rs1 funct3 op_BRANCH) s"
    using f by (simp add: dec_simps assms IsOpcode_def Interpret_def)
  also have "\<dots> = Inr (pc_add (if branch_test funct3 (get_xreg s rs1) (get_xreg s rs2) then d else 4) s)"
    using assms(1) f unfolding is_branch_def
    by (elim insertE emptyE) (simp_all add: dec_simps assms(2) IsOpcode_def InterpretBRANCH_def branch_test_def)
  finally show "Interpret h (BType d rs2 rs1 funct3 op_BRANCH) s =
    Inr (pc_add (if branch_test funct3 (get_xreg s rs1) (get_xreg s rs2) then d else 4) s)" .
qed

lemma JType_step:
  assumes "IsJTypeImm d"
  shows "step_is (bytes32 (JType d rd op_JAL)) (\<lambda>h s. Inr ((set_xreg rd (pc s + 4) s)\<lparr>pc := pc s + d\<rparr>))"
  by (rule step_is_32) (use assms in \<open>simp_all add: exec_simps\<close>)

lemma InvertFunct3_is_branch:
  assumes "is_branch funct3"
  obtains inv where "InvertFunct3 funct3 = Inr inv" and "is_branch inv"
    and "\<And>a b. branch_test inv a b \<longleftrightarrow> \<not> branch_test funct3 a b"
  using assms by (auto simp: is_branch_def InvertFunct3_def branch_test_def not_less word_sless_alt word_sle_eq not_le)

text \<open>
  The pair \<open>auipc\<close>, \<open>jalr\<close> reaches every displacement whose high part fits into
  32 bits.
\<close>

definition far_code :: "intptr \<Rightarrow> u8 list" where
  "far_code offset =
     bytes32 (UType (split_hi offset) FAR_TMP op_AUIPC) @
     bytes32 (IType (split_lo offset) FAR_TMP f3_0 ZR op_JALR)"

lemma EmitFar_eq: "EmitFar offset a = Inr (append_code (far_code offset) a)"
  by (simp add: EmitFar_def FATAL_unless_def EmitUType_def EmitIType_def ASSERT_def Emit_append_code
      IsUTypeImm_split_hi IsITypeImm_split_lo IsFunct3_def IsOpcode_def append_code_append far_code_def)

lemma length_far_code: "length (far_code offset) = 8"
  by (simp add: far_code_def)

lemma far_code_exits:
  assumes "IsInt 32 (d - split_lo d)"
  shows "exits (far_code d) (\<lambda>s. s) (\<lambda>s. True) d"
  unfolding exits_def
proof (intro allI impI)
  fix h s assume p: "placed (far_code d) s"
  let ?v = "pc s + split_hi d"
  let ?t = "(set_xreg FAR_TMP ?v s)\<lparr>pc := pc s + 4\<rparr>"
  have a: "step_is (bytes32 (UType (split_hi d) FAR_TMP op_AUIPC))
      (\<lambda>h s. Inr (pc_add 4 (set_xreg FAR_TMP (pc s + split_hi d) s)))"
    by (rule step_is_32) (simp_all add: exec_simps IsUTypeImm_split_hi)
  have j: "step_is (bytes32 (IType (split_lo d) FAR_TMP f3_0 ZR op_JALR))
      (\<lambda>h s. Inr (s\<lparr>pc := get_xreg s FAR_TMP + split_lo d\<rparr>))"
    by (rule step_is_32) (simp_all add: exec_simps IsITypeImm_split_lo)
  note pa = placed_append [OF p [unfolded far_code_def]]
  obtain k where k: "(loop_step h)\<^sup>*\<^sup>* s (?t\<lparr>instret := k\<rparr>)"
    using step_is_reaches [OF a pa(1) refl, of h] by (auto simp: reaches_def pc_add_def)
  have "reaches h (?t\<lparr>instret := k\<rparr>) ((?t\<lparr>instret := k\<rparr>)\<lparr>pc := get_xreg (?t\<lparr>instret := k\<rparr>) FAR_TMP + split_lo d\<rparr>)"
    by (rule step_is_reaches [OF j pa(2) refl]) simp_all
  moreover have "(?t\<lparr>instret := k\<rparr>)\<lparr>pc := get_xreg (?t\<lparr>instret := k\<rparr>) FAR_TMP + split_lo d\<rparr>
      = ((set_xreg FAR_TMP ?v s)\<lparr>pc := pc s + d\<rparr>)\<lparr>instret := k\<rparr>"
    using split_sum [OF assms] by (simp add: get_xreg_def set_xreg_def add.assoc)
  ultimately have "reaches h (?t\<lparr>instret := k\<rparr>) ((set_xreg FAR_TMP ?v s)\<lparr>pc := pc s + d\<rparr>)"
    by (simp only: reaches_instret)
  then have "reaches h s ((set_xreg FAR_TMP ?v s)\<lparr>pc := pc s + d\<rparr>)"
    by (rule reaches_then [OF k])
  then show "\<exists>v. reaches h s ((set_xreg FAR_TMP v s)\<lparr>pc := pc s +
      (if True then d else of_nat (length (far_code d)))\<rparr>)"
    by auto
qed

lemma JType_exits:
  assumes "IsJTypeImm d"
  shows "exits (bytes32 (JType d ZR op_JAL)) (\<lambda>s. s) (\<lambda>s. True) d"
  using JType_step [OF assms, of ZR] by (intro exits_step) (simp add: pc_add_def)

subsection \<open>Branches to bound labels\<close>

text \<open>
  \<open>branches_to r f c l a\<close>: assembling from state \<open>a\<close> succeeds with result \<open>r\<close>,
  which appended code that has the effect \<open>f\<close> and then is at label \<open>l\<close> if \<open>c\<close>
  held at its start, behind itself otherwise.
\<close>

definition branches_to ::
  "asm_error + asm \<Rightarrow> (sim \<Rightarrow> sim) \<Rightarrow> (sim \<Rightarrow> bool) \<Rightarrow> label \<Rightarrow> asm \<Rightarrow> bool"
where
  "branches_to r f c l a \<longleftrightarrow>
     (\<exists>code. r = Inr (append_code code a) \<and> exits code f c (label_offset l a))"

lemma IsBound_append_code [simp]: "IsBound l (append_code code a) = IsBound l a"
  by (simp add: IsBound_def)

lemma Supports_append_code [simp]: "Supports e (append_code code a) = Supports e a"
  by (simp add: Supports_def)

lemma label_offset_append_code:
  "label_offset l (append_code code a) = label_offset l a - of_nat (length code)"
  by (simp add: label_offset_def Position_def)

lemma Position_append_code: "Position (append_code code a) = Position a + int (length code)"
  by (simp add: Position_def)

text \<open>Straight-line code, then a branch.\<close>

lemma branches_to_bindE:
  assumes "assembles n r f a" and "on_registers c"
    and "\<And>code. r = Inr (append_code code a) \<Longrightarrow> length code \<le> n \<Longrightarrow>
           branches_to (k (append_code code a)) (\<lambda>s. s) c l (append_code code a)"
  shows "branches_to (bindE r k) f (\<lambda>s. c (f s)) l a"
proof -
  obtain xs where xs: "r = Inr (append_code xs a)" "runs xs f" "frame f" "length xs \<le> n"
    using assms(1) by (auto simp: assembles_def)
  obtain ys where "k (append_code xs a) = Inr (append_code ys (append_code xs a))"
    and "exits ys (\<lambda>s. s) c (label_offset l (append_code xs a))"
    using assms(3) [OF xs(1,4)] by (auto simp: branches_to_def)
  then show ?thesis
    using xs exits_append [OF xs(2,3) _ assms(2), of ys]
    by (force simp: branches_to_def append_code_append label_offset_append_code)
qed

text \<open>
  The displacements \<open>EmitBranch\<close> handles: those of a branch instruction, those of
  a jump behind an inverted branch, and 2 GB.  The second test adds 4 to the
  displacement although the jump is 4 bytes closer to its target.
\<close>

definition branch_reaches :: "intptr \<Rightarrow> bool" where
  "branch_reaches offset \<longleftrightarrow>
     IsBTypeImm offset \<or>
     (if IsJTypeImm (offset + 4) then IsJTypeImm (offset - 4)
      else IsInt 32 (offset - 4 - split_lo (offset - 4)))"

lemma exits_inverted:
  assumes f: "is_branch funct3" and inv: "is_branch inverse3"
    "\<And>a b. branch_test inverse3 a b \<longleftrightarrow> \<not> branch_test funct3 a b"
    and n: "IsBTypeImm (of_nat (4 + length js))"
    and j: "exits js (\<lambda>s. s) (\<lambda>s. True) (d - 4)"
  shows "exits (bytes32 (BType (of_nat (4 + length js)) rs2 rs1 inverse3 op_BRANCH) @ js) (\<lambda>s. s)
    (\<lambda>s. branch_test funct3 (get_xreg s rs1) (get_xreg s rs2)) d"
proof -
  have "step_is (bytes32 (BType (of_nat (4 + length js)) rs2 rs1 inverse3 op_BRANCH))
    (\<lambda>h s. Inr (pc_add (if \<not> branch_test funct3 (get_xreg s rs1) (get_xreg s rs2)
        then of_nat (length (bytes32 (BType (of_nat (4 + length js)) rs2 rs1 inverse3 op_BRANCH) @ js))
        else of_nat (length (bytes32 (BType (of_nat (4 + length js)) rs2 rs1 inverse3 op_BRANCH)))) s))"
    using BType_step [OF inv(1) n, of rs2 rs1] by (simp add: inv(2) cong: if_cong)
  moreover have "on_registers (\<lambda>s. branch_test funct3 (get_xreg s rs1) (get_xreg s rs2))"
    by (rule on_registersI)
  ultimately show ?thesis
    using exits_branch_over [where c = "\<lambda>s. branch_test funct3 (get_xreg s rs1) (get_xreg s rs2)"
        and xs = "bytes32 (BType (of_nat (4 + length js)) rs2 rs1 inverse3 op_BRANCH)" and ys = js, OF _ j]
    by simp
qed

lemma IsBTypeImm_lengths: "IsBTypeImm 8" "IsBTypeImm 12"
  by (simp_all add: IsBTypeImm_def IsInt_iff_sint IsAligned_def)

lemma is_branch_IsFunct3: "is_branch funct3 \<Longrightarrow> IsFunct3 funct3"
  by (auto simp: is_branch_def IsFunct3_def)

lemma Emit_branch_eqs:
  "is_branch funct3 \<Longrightarrow> IsBTypeImm d \<Longrightarrow>
     EmitBType d rs2 rs1 funct3 op_BRANCH a = Inr (append_code (bytes32 (BType d rs2 rs1 funct3 op_BRANCH)) a)"
  "IsJTypeImm d \<Longrightarrow> EmitJType d rd op_JAL a = Inr (append_code (bytes32 (JType d rd op_JAL)) a)"
  by (simp_all add: EmitBType_def EmitJType_def ASSERT_def is_branch_IsFunct3 IsOpcode_def Emit_append_code)

lemma EmitBranch_bound:
  assumes f: "is_branch funct3" and b: "IsBound l a" and r: "branch_reaches (label_offset l a)"
  shows "branches_to (EmitBranch rs1 rs2 l funct3 distance a) (\<lambda>s. s)
    (\<lambda>s. branch_test funct3 (get_xreg s rs1) (get_xreg s rs2)) l a"
proof -
  let ?d = "label_offset l a"
  obtain inverse3 where inv: "InvertFunct3 funct3 = Inr inverse3" "is_branch inverse3"
    "\<And>a b. branch_test inverse3 a b \<longleftrightarrow> \<not> branch_test funct3 a b"
    using InvertFunct3_is_branch [OF f] by blast
  consider (near) "IsBTypeImm ?d"
    | (jump) "\<not> IsBTypeImm ?d" "IsJTypeImm (?d + 4)" "IsJTypeImm (?d - 4)"
    | (far) "\<not> IsBTypeImm ?d" "\<not> IsJTypeImm (?d + 4)" "IsInt 32 (?d - 4 - split_lo (?d - 4))"
    using r by (auto simp: branch_reaches_def split: if_splits)
  then show ?thesis
  proof cases
    case near
    have "exits (bytes32 (BType ?d rs2 rs1 funct3 op_BRANCH)) (\<lambda>s. s)
        (\<lambda>s. branch_test funct3 (get_xreg s rs1) (get_xreg s rs2)) ?d"
      using BType_step [OF f near, of rs2 rs1] by (intro exits_step) (simp cong: if_cong)
    moreover have "EmitBranch rs1 rs2 l funct3 distance a =
        Inr (append_code (bytes32 (BType ?d rs2 rs1 funct3 op_BRANCH)) a)"
      using b near f by (simp add: EmitBranch_def Emit_branch_eqs)
    ultimately show ?thesis unfolding branches_to_def by blast
  next
    case jump
    have "exits (bytes32 (BType 8 rs2 rs1 inverse3 op_BRANCH) @ bytes32 (JType (?d - 4) ZR op_JAL)) (\<lambda>s. s)
        (\<lambda>s. branch_test funct3 (get_xreg s rs1) (get_xreg s rs2)) ?d"
      using exits_inverted [OF f inv(2,3) _ JType_exits [OF jump(3)], of rs2 rs1]
      by (simp add: IsBTypeImm_lengths)
    moreover have "EmitBranch rs1 rs2 l funct3 distance a = Inr (append_code
        (bytes32 (BType 8 rs2 rs1 inverse3 op_BRANCH) @ bytes32 (JType (?d - 4) ZR op_JAL)) a)"
      using b jump by (simp add: EmitBranch_def inv(1,2) Emit_branch_eqs IsBTypeImm_lengths
          label_offset_append_code append_code_append ASSERT_def Position_append_code)
    ultimately show ?thesis unfolding branches_to_def by blast
  next
    case far
    have "exits (bytes32 (BType 12 rs2 rs1 inverse3 op_BRANCH) @ far_code (?d - 4)) (\<lambda>s. s)
        (\<lambda>s. branch_test funct3 (get_xreg s rs1) (get_xreg s rs2)) ?d"
      using exits_inverted [OF f inv(2,3) _ far_code_exits [OF far(3)], of rs2 rs1]
      by (simp add: IsBTypeImm_lengths length_far_code)
    moreover have "EmitBranch rs1 rs2 l funct3 distance a = Inr (append_code
        (bytes32 (BType 12 rs2 rs1 inverse3 op_BRANCH) @ far_code (?d - 4)) a)"
      using b far by (simp add: EmitBranch_def inv(1,2) Emit_branch_eqs IsBTypeImm_lengths EmitFar_eq
          label_offset_append_code append_code_append ASSERT_def Position_append_code length_far_code)
    ultimately show ?thesis unfolding branches_to_def by blast
  qed
qed

subsection \<open>The contract of a branch operation\<close>

text \<open>A label bound at most 128 KB before the current position.\<close>

definition bound_within :: "label \<Rightarrow> asm \<Rightarrow> bool" where
  "bound_within l a \<longleftrightarrow>
     0 \<le> position (labels a l) \<and> position (labels a l) \<le> Position a \<and>
     Position a - position (labels a l) \<le> 131072"

lemma bound_within_IsBound: "bound_within l a \<Longrightarrow> IsBound l a"
  by (simp add: bound_within_def IsBound_def)

lemma branch_reaches_small:
  assumes "- 262144 \<le> sint d" and "sint d \<le> 0"
  shows "branch_reaches d"
proof -
  have small: "sint (d + word_of_int k) = sint d + k" if "- 4096 \<le> k" "k \<le> 4096" for k
  proof -
    have "d + word_of_int k = word_of_int (sint d + k)" by simp
    moreover have "sint (word_of_int (sint d + k) :: intptr) = sint d + k"
      using assms that by (intro sint_word_of_int_fits) simp_all
    ultimately show ?thesis by simp
  qed
  have p4: "sint (d + 4) = sint d + 4" and m4: "sint (d - 4) = sint d - 4"
    using small [of 4] small [of "- 4"] by simp_all
  have lo: "- 2048 \<le> sint (split_lo (d - 4))" "sint (split_lo (d - 4)) < 2048"
    using IsITypeImm_split_lo [of "d - 4"] by (simp_all add: IsITypeImm_def IsInt_iff_sint)
  have e: "d - 4 - split_lo (d - 4) = d + word_of_int (- 4 - sint (split_lo (d - 4)))" by simp
  have "sint (d - 4 - split_lo (d - 4)) = sint d - 4 - sint (split_lo (d - 4))"
    unfolding e by (subst small) (use lo in simp_all)
  then have far: "IsInt 32 (d - 4 - split_lo (d - 4))"
    using assms lo by (simp add: IsInt_iff_sint)
  have "IsAligned (d - 4) 2" if "IsAligned (d + 4) 2"
  proof -
    have "d + 4 = (d - 4) + 8" by simp
    then have "even (d + 4) = even (d - 4)" by (simp only: even_add) simp
    then show ?thesis using that by (simp add: IsAligned_numeral even_iff_mod_2_eq_zero)
  qed
  then show ?thesis
    using far assms by (auto simp: branch_reaches_def IsJTypeImm_def IsInt_iff_sint p4 m4)
qed

lemma bound_within_reaches:
  assumes "bound_within l a" and "n \<le> 131072"
  shows "branch_reaches (label_offset l a - of_nat n)"
proof -
  let ?k = "position (labels a l) - Position a - int n"
  have k: "- 262144 \<le> ?k" "?k \<le> 0" using assms by (auto simp: bound_within_def)
  have "label_offset l a - of_nat n = word_of_int ?k" by (simp add: label_offset_def)
  moreover have "sint (word_of_int ?k :: intptr) = ?k"
    using k by (intro sint_word_of_int_fits) simp_all
  ultimately show ?thesis using k by (intro branch_reaches_small) simp_all
qed

locale branch_op =
  fixes op :: "Register \<Rightarrow> Register \<Rightarrow> label \<Rightarrow> JumpDistance \<Rightarrow> asm_op"
    and test :: "u64 \<Rightarrow> u64 \<Rightarrow> bool"
  assumes branches_op: "wf_asm a \<Longrightarrow> IsBound l a \<Longrightarrow> branch_reaches (label_offset l a) \<Longrightarrow>
    branches_to (op rs1 rs2 l kFarJump a) (\<lambda>s. s) (\<lambda>s. test (get_xreg s rs1) (get_xreg s rs2)) l a"
begin

lemma branches_after:
  assumes "assembles n r f a" and "wf_asm a" and "bound_within l a" and "n \<le> 131072"
  shows "branches_to (bindE r (op rs1 rs2 l kFarJump)) f
    (\<lambda>s. test (get_xreg (f s) rs1) (get_xreg (f s) rs2)) l a"
proof (rule branches_to_bindE [OF assms(1), where c = "\<lambda>s. test (get_xreg s rs1) (get_xreg s rs2)"])
  show "on_registers (\<lambda>s. test (get_xreg s rs1) (get_xreg s rs2))" by (rule on_registersI)
  fix code :: "u8 list" assume "length code \<le> n"
  then have "branch_reaches (label_offset l a - of_nat (length code))"
    using assms by (intro bound_within_reaches) simp_all
  then show "branches_to (op rs1 rs2 l kFarJump (append_code code a)) (\<lambda>s. s)
      (\<lambda>s. test (get_xreg s rs1) (get_xreg s rs2)) l (append_code code a)"
    using assms by (intro branches_op) (simp_all add: bound_within_IsBound label_offset_append_code)
qed

end

subsection \<open>The branch operations\<close>

lemma exits_cong:
  assumes "exits code f c d" and "\<And>s. zero_ok s \<Longrightarrow> c s = c' s"
  shows "exits code f c' d"
  using assms unfolding exits_def by (auto simp: placed_def)

lemma branches_to_cong:
  assumes "branches_to r f c l a" and "\<And>s. zero_ok s \<Longrightarrow> c s = c' s"
  shows "branches_to r f c' l a"
proof -
  obtain code where "r = Inr (append_code code a)" and "exits code f c (label_offset l a)"
    using assms(1) by (auto simp: branches_to_def)
  moreover have "exits code f c' (label_offset l a)"
    by (rule exits_cong [OF calculation(2)]) (rule assms(2))
  ultimately show ?thesis by (auto simp: branches_to_def)
qed

lemma CB_exits:
  assumes "IsCRs1p r" and "IsCBImm d"
  shows "exits (bytes16 (CB C_BEQZ r d)) (\<lambda>s. s) (\<lambda>s. get_xreg s r = 0) d"
    and "exits (bytes16 (CB C_BNEZ r d)) (\<lambda>s. s) (\<lambda>s. get_xreg s r \<noteq> 0) d"
  by (rule exits_step, rule step_is_16; use assms in \<open>simp add: exec_simps\<close>)+

lemma c_branch_bound:
  assumes "IsBound l a" and "IsCBImm (label_offset l a)" and "IsCRs1p r" and "Supports RV_C a"
  shows "branches_to (c_beqz r l a) (\<lambda>s. s) (\<lambda>s. get_xreg s r = 0) l a"
    and "branches_to (c_bnez r l a) (\<lambda>s. s) (\<lambda>s. get_xreg s r \<noteq> 0) l a"
  using assms CB_exits [OF assms(3,2)]
  by (auto simp: branches_to_def c_beqz_def c_bnez_def EmitCBranch_def ASSERT_def FATAL_unless_def
      Emit_append_code label_offset_def)

lemma beq_branches:
  assumes w: "wf_asm a" and b: "IsBound l a" and r: "branch_reaches (label_offset l a)"
  shows "branches_to (beq rs1 rs2 l kFarJump a) (\<lambda>s. s) (\<lambda>s. get_xreg s rs1 = get_xreg s rs2) l a"
proof -
  have e: "branches_to (EmitBranch rs1 rs2 l f3_BEQ kFarJump a) (\<lambda>s. s)
      (\<lambda>s. get_xreg s rs1 = get_xreg s rs2) l a"
    using EmitBranch_bound [OF _ b r, of f3_BEQ] by (simp add: is_branch_def branch_test_def)
  have z1: "branches_to (c_beqz rs2 l a) (\<lambda>s. s) (\<lambda>s. get_xreg s rs1 = get_xreg s rs2) l a"
    if "Supports RV_C a" "IsCBImm (label_offset l a)" "rs1 = ZR" "IsCRs1p rs2"
    by (rule branches_to_cong [OF c_branch_bound(1) [OF b that(2,4,1)]])
      (auto simp: that(3) zero_ok_def)
  have z2: "branches_to (c_beqz rs1 l a) (\<lambda>s. s) (\<lambda>s. get_xreg s rs1 = get_xreg s rs2) l a"
    if "Supports RV_C a" "IsCBImm (label_offset l a)" "rs2 = ZR" "IsCRs1p rs1"
    by (rule branches_to_cong [OF c_branch_bound(1) [OF b that(2,4,1)]])
      (auto simp: that(3) zero_ok_def)
  show ?thesis
    using w b e z1 z2 by (auto simp: beq_def ASSERT_def wf_asm_Supports)
qed

lemma bne_branches:
  assumes w: "wf_asm a" and b: "IsBound l a" and r: "branch_reaches (label_offset l a)"
  shows "branches_to (bne rs1 rs2 l kFarJump a) (\<lambda>s. s) (\<lambda>s. get_xreg s rs1 \<noteq> get_xreg s rs2) l a"
proof -
  have e: "branches_to (EmitBranch rs1 rs2 l f3_BNE kFarJump a) (\<lambda>s. s)
      (\<lambda>s. get_xreg s rs1 \<noteq> get_xreg s rs2) l a"
    using EmitBranch_bound [OF _ b r, of f3_BNE] by (simp add: is_branch_def branch_test_def)
  have z1: "branches_to (c_bnez rs2 l a) (\<lambda>s. s) (\<lambda>s. get_xreg s rs1 \<noteq> get_xreg s rs2) l a"
    if "Supports RV_C a" "IsCBImm (label_offset l a)" "rs1 = ZR" "IsCRs1p rs2"
    by (rule branches_to_cong [OF c_branch_bound(2) [OF b that(2,4,1)]])
      (auto simp: that(3) zero_ok_def)
  have z2: "branches_to (c_bnez rs1 l a) (\<lambda>s. s) (\<lambda>s. get_xreg s rs1 \<noteq> get_xreg s rs2) l a"
    if "Supports RV_C a" "IsCBImm (label_offset l a)" "rs2 = ZR" "IsCRs1p rs1"
    by (rule branches_to_cong [OF c_branch_bound(2) [OF b that(2,4,1)]])
      (auto simp: that(3) zero_ok_def)
  show ?thesis
    using w b e z1 z2 by (auto simp: bne_def ASSERT_def wf_asm_Supports)
qed

interpretation beq: branch_op beq "(=)"
  by unfold_locales (rule beq_branches)

interpretation bne: branch_op bne "(\<noteq>)"
  by unfold_locales (rule bne_branches)

lemmas plain_branch_simps = ASSERT_def wf_asm_Supports is_branch_def branch_test_def

interpretation blt: branch_op blt "(<s)"
  using EmitBranch_bound [of f3_BLT]
  by unfold_locales (simp add: blt_def plain_branch_simps)

interpretation bge: branch_op bge "\<lambda>a b. b \<le>s a"
  using EmitBranch_bound [of f3_BGE]
  by unfold_locales (simp add: bge_def plain_branch_simps)

interpretation bltu: branch_op bltu "(<)"
  using EmitBranch_bound [of f3_BLTU]
  by unfold_locales (simp add: bltu_def plain_branch_simps)

interpretation bgeu: branch_op bgeu "\<lambda>a b. b \<le> a"
  using EmitBranch_bound [of f3_BGEU]
  by unfold_locales (simp add: bgeu_def plain_branch_simps)

end
