(* ===== verification/Register_Set.thy ===== *)
theory Register_Set
  imports Prelude
begin

text \<open>
  Sets of registers as bit masks: \<open>SmallSet\<close> and \<open>RegisterSet\<close> of
  \<open>runtime/vm/compiler/backend/locations.h\<close>, and the loop of
  \<open>RegisterSet::RegisterCount\<close> (\<open>locations.cc\<close>), shown to count the members.
\<close>

unbundle bit_operations_syntax

subsection \<open>SmallSet\<close>

type_synonym SmallSet = u64

definition ToMask :: "nat \<Rightarrow> u64" where
  "ToMask value = push_bit value 1"

definition SmallSet_Contains :: "SmallSet \<Rightarrow> nat \<Rightarrow> bool" where
  "SmallSet_Contains data value \<longleftrightarrow> data AND ToMask value \<noteq> 0"

definition SmallSet_Add :: "nat \<Rightarrow> SmallSet \<Rightarrow> SmallSet" where
  "SmallSet_Add value data = data OR ToMask value"

definition SmallSet_Remove :: "nat \<Rightarrow> SmallSet \<Rightarrow> SmallSet" where
  "SmallSet_Remove value data = data AND NOT (ToMask value)"

text \<open>The contract of a set of registers.\<close>

locale register_collection =
  fixes empty :: 'c
    and add :: "nat \<Rightarrow> 'c \<Rightarrow> 'c"
    and remove :: "nat \<Rightarrow> 'c \<Rightarrow> 'c"
    and contains :: "'c \<Rightarrow> nat \<Rightarrow> bool"
  assumes contains_empty: "\<not> contains empty r"
    and contains_add: "q < 64 \<Longrightarrow> r < 64 \<Longrightarrow> contains (add q c) r \<longleftrightarrow> r = q \<or> contains c r"
    and contains_remove: "q < 64 \<Longrightarrow> r < 64 \<Longrightarrow> contains (remove q c) r \<longleftrightarrow> r \<noteq> q \<and> contains c r"
begin

lemma contains_fold_add:
  assumes "set qs \<subseteq> {..<64}" and "r < 64"
  shows "contains (fold (\<lambda>q c. if P q then add q c else c) qs c) r \<longleftrightarrow> (r \<in> set qs \<and> P r) \<or> contains c r"
  using assms by (induction qs arbitrary: c) (auto simp: contains_add)

end

lemma SmallSet_Contains_bit: "SmallSet_Contains data value \<longleftrightarrow> bit data value"
  by (simp add: SmallSet_Contains_def ToMask_def and_exp_eq_0_iff_not_bit)

interpretation small_set: register_collection 0 SmallSet_Add SmallSet_Remove SmallSet_Contains
  by unfold_locales
    (auto simp: SmallSet_Contains_bit SmallSet_Add_def SmallSet_Remove_def ToMask_def bit_or_iff
      bit_and_iff bit_not_iff bit_exp_iff)

subsection \<open>RegisterSet\<close>

record RegisterSet =
  cpu_registers :: SmallSet
  untagged_cpu_registers :: SmallSet
  fpu_registers :: SmallSet

definition RegisterSet_empty :: RegisterSet where
  "RegisterSet_empty = \<lparr>cpu_registers = 0, untagged_cpu_registers = 0, fpu_registers = 0\<rparr>"

abbreviation (input) kNumberOfCpuRegisters :: nat where "kNumberOfCpuRegisters \<equiv> 32"
abbreviation (input) kNumberOfFpuRegisters :: nat where "kNumberOfFpuRegisters \<equiv> 32"

definition AddTaggedRegisters :: "u64 \<Rightarrow> u64 \<Rightarrow> RegisterSet \<Rightarrow> RegisterSet" where
  "AddTaggedRegisters cpu_register_mask fpu_register_mask s =
     (let s1 = s\<lparr>cpu_registers :=
                  fold (\<lambda>i c. if bit cpu_register_mask i then SmallSet_Add i c else c)
                    [0..<kNumberOfCpuRegisters] (cpu_registers s)\<rparr>
      in s1\<lparr>fpu_registers :=
              fold (\<lambda>i c. if bit fpu_register_mask i then SmallSet_Add i c else c)
                [0..<kNumberOfFpuRegisters] (fpu_registers s1)\<rparr>)"

definition RegisterSet_of :: "u64 \<Rightarrow> u64 \<Rightarrow> RegisterSet" where
  "RegisterSet_of cpu_register_mask fpu_register_mask =
     AddTaggedRegisters cpu_register_mask fpu_register_mask RegisterSet_empty"

definition ContainsRegister :: "RegisterSet \<Rightarrow> nat \<Rightarrow> bool" where
  "ContainsRegister s reg = SmallSet_Contains (cpu_registers s) reg"

definition ContainsFpuRegister :: "RegisterSet \<Rightarrow> nat \<Rightarrow> bool" where
  "ContainsFpuRegister s fpu_reg = SmallSet_Contains (fpu_registers s) fpu_reg"

lemma RegisterSet_of_registers:
  assumes "r < 64"
  shows "bit (cpu_registers (RegisterSet_of cpu fpu)) r \<longleftrightarrow> r < 32 \<and> bit cpu r"
    and "bit (fpu_registers (RegisterSet_of cpu fpu)) r \<longleftrightarrow> r < 32 \<and> bit fpu r"
proof -
  have "SmallSet_Contains (fold (\<lambda>i c. if bit mask i then SmallSet_Add i c else c) [0..<32] 0) r
      \<longleftrightarrow> (r \<in> set [0..<32] \<and> bit mask r) \<or> SmallSet_Contains 0 r" for mask :: u64
    by (rule small_set.contains_fold_add) (auto simp: assms)
  then have *: "bit (fold (\<lambda>i c. if bit mask i then SmallSet_Add i c else c) [0..<32] 0) r
      \<longleftrightarrow> r < 32 \<and> bit mask r" for mask :: u64
    by (simp only: SmallSet_Contains_bit set_upt atLeastLessThan_iff bit_0_eq bot_apply) simp
  show "bit (cpu_registers (RegisterSet_of cpu fpu)) r \<longleftrightarrow> r < 32 \<and> bit cpu r"
    "bit (fpu_registers (RegisterSet_of cpu fpu)) r \<longleftrightarrow> r < 32 \<and> bit fpu r"
    using * [of cpu] * [of fpu]
    by (simp_all only: RegisterSet_of_def AddTaggedRegisters_def RegisterSet_empty_def Let_def
        RegisterSet.simps)
qed

subsection \<open>Counting the members\<close>

definition members :: "u64 \<Rightarrow> nat set" where
  "members w = {i. bit w i}"

lemma finite_members: "finite (members w)"
  by (rule finite_subset [of _ "{..<64}"]) (auto simp: members_def dest: bit_imp_le_length)

lemma bit_minus_one:
  fixes w :: u64
  assumes "w \<noteq> 0"
  shows "\<exists>n. bit w n \<and> (\<forall>i. bit (w AND (w - 1)) i \<longleftrightarrow> bit w i \<and> i \<noteq> n)"
proof -
  obtain k where "bit w k" using assms by (auto simp: bit_eq_iff)
  define n where "n = (LEAST n. bit w n)"
  have n: "bit w n" unfolding n_def by (rule LeastI) (rule \<open>bit w k\<close>)
  have low: "\<not> bit w i" if "i < n" for i using that not_less_Least unfolding n_def by blast
  define u where "u = drop_bit n w - 1"
  have "odd (drop_bit n w)" using n by (simp add: bit_iff_odd_drop_bit)
  then have "even u" by (simp add: u_def)
  then have v: "drop_bit n w = u OR 1" by (simp add: or_one_eq u_def)
  have "take_bit n w = 0" by (rule bit_eqI) (auto simp: bit_take_bit_iff low)
  then have w: "w = push_bit n u + push_bit n 1"
    using bits_ident [of n w] by (simp add: u_def push_bit_add [symmetric] del: push_bit_of_1)
  have "w - 1 = push_bit n u + mask n" by (simp add: w mask_eq_exp_minus_1)
  also have "\<dots> = push_bit n u OR mask n"
    by (rule disjunctive_add) (auto simp: bit_push_bit_iff bit_mask_iff)
  finally have e: "w - 1 = push_bit n u OR mask n" .
  have "bit (w - 1) i \<longleftrightarrow> bit w i \<and> i \<noteq> n" if "n \<le> i" "bit w i" for i
  proof -
    have "bit w i \<longleftrightarrow> bit (u OR 1) (i - n)" using that(1) by (simp add: v [symmetric] bit_drop_bit_eq)
    moreover have "i < 64" using that(2) by (auto dest: bit_imp_le_length)
    moreover have "\<not> bit u 0" using \<open>even u\<close> by (simp add: bit_0)
    ultimately show ?thesis
      using that by (auto simp: e bit_or_iff bit_push_bit_iff bit_mask_iff bit_1_iff)
  qed
  then show ?thesis using n low by (intro exI [of _ n]) (auto simp: bit_and_iff not_less [symmetric])
qed

lemma members_clear_lowest:
  assumes "w \<noteq> 0"
  obtains n where "n \<in> members w" and "members (w AND (w - 1)) = members w - {n}"
  using bit_minus_one [OF assms] by (auto simp: members_def)

lemma card_members_step:
  assumes "w \<noteq> 0"
  shows "card (members w) = Suc (card (members (w AND (w - 1))))"
proof -
  obtain n where n: "n \<in> members w" "members (w AND (w - 1)) = members w - {n}"
    using assms by (rule members_clear_lowest)
  show ?thesis unfolding n(2) by (rule card.remove [OF finite_members n(1)])
qed

text \<open>Kernighan's loop: each iteration clears the least significant bit set.\<close>

function RegisterCount_loop :: "u64 \<Rightarrow> int \<Rightarrow> int" where
  "RegisterCount_loop registers count =
     (if registers \<noteq> 0 then RegisterCount_loop (registers AND (registers - 1)) (count + 1) else count)"
  by pat_completeness auto

termination
proof (relation "measure (\<lambda>(registers, count). card (members registers))")
  show "wf (measure (\<lambda>(registers, count :: int). card (members registers)))" by simp
next
  fix registers :: u64 and count :: int
  assume "registers \<noteq> 0"
  then show "((registers AND (registers - 1), count + 1), registers, count)
      \<in> measure (\<lambda>(registers, count). card (members registers))"
    using card_members_step by simp
qed

declare RegisterCount_loop.simps [simp del]

definition RegisterCount :: "u64 \<Rightarrow> int" where
  "RegisterCount registers = RegisterCount_loop registers 0"

lemma RegisterCount_loop_simps:
  "RegisterCount_loop 0 count = count"
  "w \<noteq> 0 \<Longrightarrow> RegisterCount_loop w count = RegisterCount_loop (w AND (w - 1)) (count + 1)"
  by (subst RegisterCount_loop.simps, simp) (subst RegisterCount_loop.simps, simp only: if_True simp_thms)

lemma RegisterCount_loop_card: "RegisterCount_loop w count = count + int (card (members w))"
proof (induction "card (members w)" arbitrary: w count)
  case 0
  then have "w = 0" using card_members_step [of w] by auto
  then show ?case by (simp add: RegisterCount_loop_simps(1) members_def)
next
  case (Suc k)
  then have w: "w \<noteq> 0" by (auto simp: members_def)
  then have "card (members (w AND (w - 1))) = k" using Suc(2) card_members_step by simp
  then show ?case using Suc(1) [of "w AND (w - 1)" "count + 1"] Suc(2)
    unfolding RegisterCount_loop_simps(2) [OF w] by simp
qed

lemma RegisterCount_card: "RegisterCount w = int (card (members w))"
  by (simp add: RegisterCount_def RegisterCount_loop_card)

definition CpuRegisterCount :: "RegisterSet \<Rightarrow> int" where
  "CpuRegisterCount s = RegisterCount (cpu_registers s)"

definition FpuRegisterCount :: "RegisterSet \<Rightarrow> int" where
  "FpuRegisterCount s = RegisterCount (fpu_registers s)"

end
