(* ===== verification/Riscv_MacroAssembler.thy ===== *)
theory Riscv_MacroAssembler
  imports Riscv_Branches Register_Set
begin

text \<open>
  The class \<open>Assembler\<close> of \<open>assembler_riscv.cc\<close>, for \<open>XLEN = 64\<close>: the portable
  operations the compiler calls, each a short sequence of instructions.  A
  comparison is deferred: \<open>CompareRegisters\<close> and its relatives only record the
  operands, and the next \<open>BranchIf\<close> or \<open>SetIf\<close> consumes them.

  \<open>int32_t\<close> offsets are 32-bit words.  \<open>kWordSize\<close> and \<open>kFpuRegisterSize\<close> are 8,
  \<open>kSmiTagSize\<close>, \<open>kSmiTagShift\<close>, \<open>kSmiTagMask\<close> and \<open>kHeapObjectTag\<close> are 1.
\<close>

unbundle bit_operations_syntax

datatype OperandSize =
    kByte | kUnsignedByte | kTwoBytes | kUnsignedTwoBytes | kFourBytes | kUnsignedFourBytes | kEightBytes
  | kSWord | kDWord | kWordPair | kRegList | kQWord

subsection \<open>Constants\<close>

text \<open>Each step takes 12 bits off a constant of more than 32 bits.\<close>

lemma sint_signed_drop_bit_12: "sint (signed_drop_bit 12 (x :: intx)) = sint x div 4096"
  by (simp add: sint_signed_drop_bit_eq drop_bit_eq_div)

lemma sint_split_lo: "- 2048 \<le> sint (split_lo x)" "sint (split_lo x) < 2048"
  using IsITypeImm_split_lo [of x] by (simp_all add: IsITypeImm_def IsInt_iff_sint)

lemma sint_minus_split_lo:
  assumes "- (2 ^ 62) \<le> sint imm" and "sint imm < 2 ^ 62"
  shows "sint (imm - split_lo imm) = sint imm - sint (split_lo imm)"
proof -
  have "imm - split_lo imm = word_of_int (sint imm - sint (split_lo imm))" by simp
  moreover have "sint (word_of_int (sint imm - sint (split_lo imm)) :: intx) = sint imm - sint (split_lo imm)"
    using assms sint_split_lo [of imm] by (intro sint_word_of_int_fits) simp_all
  ultimately show ?thesis by simp
qed

lemma abs_div_4096_less:
  fixes x y :: int
  assumes "\<bar>x\<bar> \<le> 2 * \<bar>y\<bar>" and "2 \<le> \<bar>y\<bar>"
  shows "\<bar>x div 4096\<bar> < \<bar>y\<bar>"
  using assms by (auto simp: abs_if split: if_splits)

lemma LoadImmediate_decreases:
  assumes "\<not> IsInt 32 imm"
  shows "\<bar>sint (signed_drop_bit 12 (imm - split_lo imm))\<bar> < \<bar>sint imm\<bar>"
proof -
  have big: "sint imm < - 2147483648 \<or> 2147483648 \<le> sint imm"
    using assms by (auto simp: IsInt_iff_sint)
  have range: "- (2 ^ 63) \<le> sint (imm - split_lo imm)" "sint (imm - split_lo imm) < 2 ^ 63"
    using sint_ge [of "imm - split_lo imm"] sint_lt [of "imm - split_lo imm"] by simp_all
  have "\<bar>sint (imm - split_lo imm)\<bar> \<le> 2 * \<bar>sint imm\<bar>"
  proof (cases "- (2 ^ 62) \<le> sint imm \<and> sint imm < 2 ^ 62")
    case True
    then show ?thesis using sint_minus_split_lo [of imm] sint_split_lo [of imm] big by linarith
  next
    case False
    then have "2 ^ 62 \<le> \<bar>sint imm\<bar>" by linarith
    then show ?thesis using range by simp
  qed
  then show ?thesis
    unfolding sint_signed_drop_bit_12 using big by (intro abs_div_4096_less) linarith+
qed

function LoadImmediate :: "Register \<Rightarrow> intx \<Rightarrow> asm_op" where
  "LoadImmediate reg imm a =
     (let lo = split_lo imm; hi = split_hi imm
      in if \<not> IsInt 32 imm then
           bindE (LoadImmediate reg (signed_drop_bit 12 (imm - lo)) a) (\<lambda>a.
           bindE (slli reg reg 12 a) (\<lambda>a.
           if lo \<noteq> 0 then addi reg reg lo a else Inr a))
         else if hi = 0 then addi reg ZR lo a
         else bindE (lui reg hi a) (\<lambda>a. if lo \<noteq> 0 then addiw reg reg lo a else Inr a))"
  by pat_completeness auto

termination
proof (relation "measure (\<lambda>(reg, imm, a). nat \<bar>sint imm\<bar>)")
  show "wf (measure (\<lambda>(reg :: Register, imm :: intx, a :: asm). nat \<bar>sint imm\<bar>))" by simp
next
  fix reg :: Register and imm lo hi :: intx and a :: asm
  assume "lo = split_lo imm" and "\<not> IsInt 32 imm"
  then show "((reg, signed_drop_bit 12 (imm - lo), a), reg, imm, a)
      \<in> measure (\<lambda>(reg, imm, a). nat \<bar>sint imm\<bar>)"
    using LoadImmediate_decreases [of imm] by simp
qed

declare LoadImmediate.simps [simp del]

definition immediate_operand ::
  "(Register \<Rightarrow> Register \<Rightarrow> intx \<Rightarrow> asm_op) \<Rightarrow> (Register \<Rightarrow> Register \<Rightarrow> Register \<Rightarrow> asm_op) \<Rightarrow>
   Register \<Rightarrow> Register \<Rightarrow> intx \<Rightarrow> asm_op"
where
  "immediate_operand opi op rd rs1 imm a =
     (if IsITypeImm imm then opi rd rs1 imm a
      else ASSERT (rs1 \<noteq> TMP2) (seqE [LoadImmediate TMP2 imm, op rd rs1 TMP2] a))"

definition AddImmediate :: "Register \<Rightarrow> Register \<Rightarrow> intx \<Rightarrow> asm_op" where
  "AddImmediate rd rs1 imm = immediate_operand addi add rd rs1 imm"

definition AndImmediate :: "Register \<Rightarrow> Register \<Rightarrow> intx \<Rightarrow> asm_op" where
  "AndImmediate rd rs1 imm = immediate_operand andi and_rr rd rs1 imm"

definition OrImmediate :: "Register \<Rightarrow> Register \<Rightarrow> intx \<Rightarrow> asm_op" where
  "OrImmediate rd rs1 imm = immediate_operand ori or_rr rd rs1 imm"

definition XorImmediate :: "Register \<Rightarrow> Register \<Rightarrow> intx \<Rightarrow> asm_op" where
  "XorImmediate rd rs1 imm = immediate_operand xori xor_rr rd rs1 imm"

subsection \<open>The stack\<close>

definition PushRegister :: "Register \<Rightarrow> asm_op" where
  "PushRegister r a = ASSERT (r \<noteq> SP) (seqE [subi SP SP 8, sx r (Address SP 0)] a)"

definition PopRegister :: "Register \<Rightarrow> asm_op" where
  "PopRegister r a = ASSERT (r \<noteq> SP) (seqE [lx r (Address SP 0), addi SP SP 8] a)"

definition PushRegisterPair :: "Register \<Rightarrow> Register \<Rightarrow> asm_op" where
  "PushRegisterPair r0 r1 a =
     ASSERT (r0 \<noteq> SP) (ASSERT (r1 \<noteq> SP)
       (seqE [subi SP SP 16, sx r1 (Address SP 8), sx r0 (Address SP 0)] a))"

definition PopRegisterPair :: "Register \<Rightarrow> Register \<Rightarrow> asm_op" where
  "PopRegisterPair r0 r1 a =
     ASSERT (r0 \<noteq> SP) (ASSERT (r1 \<noteq> SP)
       (seqE [lx r1 (Address SP 8), lx r0 (Address SP 0), addi SP SP 16] a))"

text \<open>
  A loop over the registers in a set: each access moves the offset by one word,
  before the access when registers are pushed downwards, after it otherwise.
\<close>

fun for_registers_down ::
  "(nat \<Rightarrow> bool) \<Rightarrow> (nat \<Rightarrow> intptr \<Rightarrow> asm_op) \<Rightarrow> nat list \<Rightarrow> intptr \<Rightarrow> asm \<Rightarrow> asm_error + (intptr \<times> asm)"
where
  "for_registers_down P op [] offset a = Inr (offset, a)"
| "for_registers_down P op (i # is) offset a =
     (if P i then bindE (op i (offset - 8) a) (for_registers_down P op is (offset - 8))
      else for_registers_down P op is offset a)"

fun for_registers_up ::
  "(nat \<Rightarrow> bool) \<Rightarrow> (nat \<Rightarrow> intptr \<Rightarrow> asm_op) \<Rightarrow> nat list \<Rightarrow> intptr \<Rightarrow> asm \<Rightarrow> asm_error + (intptr \<times> asm)"
where
  "for_registers_up P op [] offset a = Inr (offset, a)"
| "for_registers_up P op (i # is) offset a =
     (if P i then bindE (op i offset a) (for_registers_up P op is (offset + 8))
      else for_registers_up P op is offset a)"

definition registers_size :: "RegisterSet \<Rightarrow> intptr" where
  "registers_size regs = word_of_int (CpuRegisterCount regs * 8 + FpuRegisterCount regs * 8)"

abbreviation (input) sx_at :: "nat \<Rightarrow> intptr \<Rightarrow> asm_op" where
  "sx_at i offset \<equiv> sx (of_nat i) (Address SP offset)"
abbreviation (input) lx_at :: "nat \<Rightarrow> intptr \<Rightarrow> asm_op" where
  "lx_at i offset \<equiv> lx (of_nat i) (Address SP offset)"
abbreviation (input) fsd_at :: "nat \<Rightarrow> intptr \<Rightarrow> asm_op" where
  "fsd_at i offset \<equiv> fsd (of_nat i) (Address SP offset)"
abbreviation (input) fld_at :: "nat \<Rightarrow> intptr \<Rightarrow> asm_op" where
  "fld_at i offset \<equiv> fld (of_nat i) (Address SP offset)"

definition PushRegisters :: "RegisterSet \<Rightarrow> asm_op" where
  "PushRegisters regs a =
     (let size = registers_size regs
      in if size = 0 then Inr a
         else bindE (subi SP SP size a) (\<lambda>a.
              bindE (for_registers_down (ContainsFpuRegister regs) fsd_at (rev [0..<32]) size a) (\<lambda>(offset, a).
              bindE (for_registers_down (ContainsRegister regs) sx_at (rev [0..<32]) offset a) (\<lambda>(offset, a).
              ASSERT (offset = 0) (Inr a)))))"

definition PopRegisters :: "RegisterSet \<Rightarrow> asm_op" where
  "PopRegisters regs a =
     (let size = registers_size regs
      in if size = 0 then Inr a
         else bindE (for_registers_up (ContainsRegister regs) lx_at [0..<32] 0 a) (\<lambda>(offset, a).
              bindE (for_registers_up (ContainsFpuRegister regs) fld_at [0..<32] offset a) (\<lambda>(offset, a).
              ASSERT (offset = size) (addi SP SP size a))))"

definition kAbiPreservedFpuRegs :: u32 where
  "kAbiPreservedFpuRegs = RegList [8, 9, 18, 19, 20, 21, 22, 23, 24, 25, 26, 27]"

definition native_callee_saved :: RegisterSet where
  "native_callee_saved = RegisterSet_of (ucast kAbiPreservedCpuRegs) (ucast kAbiPreservedFpuRegs)"

definition PushNativeCalleeSavedRegisters :: asm_op where
  "PushNativeCalleeSavedRegisters a =
     (let regs = native_callee_saved; size = registers_size regs
      in bindE (subi SP SP size a) (\<lambda>a.
         bindE (for_registers_up (ContainsFpuRegister regs) fsd_at [0..<32] 0 a) (\<lambda>(offset, a).
         bindE (for_registers_up (ContainsRegister regs) sx_at [0..<32] offset a) (\<lambda>(offset, a).
         ASSERT (offset = size) (Inr a)))))"

definition PopNativeCalleeSavedRegisters :: asm_op where
  "PopNativeCalleeSavedRegisters a =
     (let regs = native_callee_saved; size = registers_size regs
      in bindE (for_registers_up (ContainsFpuRegister regs) fld_at [0..<32] 0 a) (\<lambda>(offset, a).
         bindE (for_registers_up (ContainsRegister regs) lx_at [0..<32] offset a) (\<lambda>(offset, a).
         ASSERT (offset = size) (addi SP SP size a))))"

definition Drop :: "intptr \<Rightarrow> asm_op" where
  "Drop stack_elements a =
     ASSERT (0 \<le>s stack_elements)
       (if 0 <s stack_elements then AddImmediate SP SP (stack_elements * 8) a else Inr a)"

definition PushImmediate :: "intx \<Rightarrow> asm_op" where
  "PushImmediate immediate a =
     (if immediate = 0 then PushRegister ZR a
      else seqE [LoadImmediate TMP immediate, PushRegister TMP] a)"

definition ReserveAlignedFrameSpace :: "intptr \<Rightarrow> asm_op" where
  "ReserveAlignedFrameSpace frame_space a =
     bindE (if frame_space \<noteq> 0 then addi SP SP (- frame_space) a else Inr a)
       (andi SP SP (NOT (16 - 1)))"

definition EnterFrame :: "intptr \<Rightarrow> asm_op" where
  "EnterFrame frame_size =
     seqE [subi SP SP (frame_size + 2 * 8),
           sx RA (Address SP (frame_size + 1 * 8)),
           sx FP (Address SP (frame_size + 0 * 8)),
           addi FP SP (frame_size + 0 * 8)]"

definition LeaveFrame :: asm_op where
  "LeaveFrame =
     seqE [mv SP FP, lx FP (Address SP (0 * 8)), lx RA (Address SP (1 * 8)), addi SP SP (2 * 8)]"

subsection \<open>Values and tags\<close>

definition SmiUntag :: "Register \<Rightarrow> Register \<Rightarrow> asm_op" where
  "SmiUntag dst src = srai dst src 1"

definition SmiTag :: "Register \<Rightarrow> Register \<Rightarrow> asm_op" where
  "SmiTag dst src = slli dst src 1"

definition ExtendValue :: "Register \<Rightarrow> Register \<Rightarrow> OperandSize \<Rightarrow> asm_op" where
  "ExtendValue rd rn sz a =
     (case sz of
        kEightBytes \<Rightarrow> if rd = rn then Inr a else mv rd rn a
      | kFourBytes \<Rightarrow> sextw rd rn a
      | _ \<Rightarrow> Inl AsmUnimplemented)"

definition ExtendAndSmiTagValue :: "Register \<Rightarrow> Register \<Rightarrow> OperandSize \<Rightarrow> asm_op" where
  "ExtendAndSmiTagValue rd rn sz a =
     (case sz of
        kEightBytes \<Rightarrow> SmiTag rd rn a
      | kUnsignedFourBytes \<Rightarrow> seqE [slli rd rn (64 - 32), srli rd rd (64 - 32 - 1)] a
      | kFourBytes \<Rightarrow> seqE [slli rd rn (64 - 32), srai rd rd (64 - 32 - 1)] a
      | kUnsignedTwoBytes \<Rightarrow> seqE [slli rd rn (64 - 16), srli rd rd (64 - 16 - 1)] a
      | kTwoBytes \<Rightarrow> seqE [slli rd rn (64 - 16), srai rd rd (64 - 16 - 1)] a
      | kUnsignedByte \<Rightarrow> seqE [slli rd rn (64 - 8), srli rd rd (64 - 8 - 1)] a
      | kByte \<Rightarrow> seqE [slli rd rn (64 - 8), srai rd rd (64 - 8 - 1)] a
      | _ \<Rightarrow> Inl AsmUnimplemented)"

text \<open>\<open>kClassIdTagPos\<close> is 16, \<open>kSizeTagPos\<close> and \<open>kSizeTagSize\<close> are 8, objects are aligned to 16 bytes.\<close>

definition ExtractClassIdFromTags :: "Register \<Rightarrow> Register \<Rightarrow> asm_op" where
  "ExtractClassIdFromTags result tags = srliw result tags 16"

definition ExtractInstanceSizeFromTags :: "Register \<Rightarrow> Register \<Rightarrow> asm_op" where
  "ExtractInstanceSizeFromTags result tags =
     seqE [srli result tags 8, andi result result (push_bit 8 1 - 1), slli result result 4]"

subsection \<open>Comparison and branches\<close>

definition CompareRegisters :: "Register \<Rightarrow> Register \<Rightarrow> asm_op" where
  "CompareRegisters rn rm a =
     ASSERT (deferred_compare a = kNone)
       (Inr (a\<lparr>deferred_compare := kCompareReg, deferred_left := rn, deferred_reg := rm\<rparr>))"

definition TestRegisters :: "Register \<Rightarrow> Register \<Rightarrow> asm_op" where
  "TestRegisters rn rm a =
     ASSERT (deferred_compare a = kNone)
       (Inr (a\<lparr>deferred_compare := kTestReg, deferred_left := rn, deferred_reg := rm\<rparr>))"

definition TestImmediate :: "Register \<Rightarrow> intx \<Rightarrow> asm_op" where
  "TestImmediate rn imm a =
     ASSERT (deferred_compare a = kNone)
       (Inr (a\<lparr>deferred_compare := kTestImm, deferred_left := rn, deferred_imm := imm\<rparr>))"

definition CompareImmediate :: "Register \<Rightarrow> intx \<Rightarrow> asm_op" where
  "CompareImmediate rn imm a =
     ASSERT (deferred_compare a = kNone)
       (Inr (a\<lparr>deferred_compare := kCompareImm, deferred_left := rn, deferred_imm := imm\<rparr>))"

definition branch_compare :: "Condition \<Rightarrow> Register \<Rightarrow> Register \<Rightarrow> label \<Rightarrow> JumpDistance \<Rightarrow> asm_op" where
  "branch_compare condition left right l distance a =
     (if condition = EQUAL then beq left right l distance a
      else if condition = NOT_EQUAL then bne left right l distance a
      else if condition = LESS then blt left right l distance a
      else if condition = LESS_EQUAL then ble left right l distance a
      else if condition = GREATER_EQUAL then bge left right l distance a
      else if condition = GREATER then bgt left right l distance a
      else if condition = UNSIGNED_LESS then bltu left right l distance a
      else if condition = UNSIGNED_LESS_EQUAL then bleu left right l distance a
      else if condition = UNSIGNED_GREATER_EQUAL then bgeu left right l distance a
      else if condition = UNSIGNED_GREATER then bgtu left right l distance a
      else if condition = OVERFLOW \<or> condition = NO_OVERFLOW then Inl UseBranchOverflow
      else Inl AsmUnreachable)"

text \<open>The \<open>and\<close> of the deferred operands goes to \<open>TMP2\<close>; \<open>ZERO\<close> is \<open>EQUAL\<close>, \<open>NOT_ZERO\<close> is \<open>NOT_EQUAL\<close>.\<close>

definition deferred_and :: asm_op where
  "deferred_and a =
     (if deferred_compare a = kTestImm then AndImmediate TMP2 (deferred_left a) (deferred_imm a) a
      else and_rr TMP2 (deferred_left a) (deferred_reg a) a)"

definition consume_compare :: "asm \<Rightarrow> asm" where
  "consume_compare a = a\<lparr>deferred_compare := kNone\<rparr>"

definition BranchIf_code :: "Condition \<Rightarrow> label \<Rightarrow> JumpDistance \<Rightarrow> asm_op" where
  "BranchIf_code condition l distance a =
     (case deferred_compare a of
        kCompareImm \<Rightarrow>
          if deferred_imm a = 0 then branch_compare condition (deferred_left a) ZR l distance a
          else bindE (LoadImmediate TMP2 (deferred_imm a) a)
                 (branch_compare condition (deferred_left a) TMP2 l distance)
      | kCompareReg \<Rightarrow> branch_compare condition (deferred_left a) (deferred_reg a) l distance a
      | kNone \<Rightarrow> Inl AsmUnreachable
      | _ \<Rightarrow>
          bindE (deferred_and a) (\<lambda>a.
            if condition = EQUAL then beqz TMP2 l distance a
            else if condition = NOT_EQUAL then bnez TMP2 l distance a
            else Inl AsmUnreachable))"

definition BranchIf :: "Condition \<Rightarrow> label \<Rightarrow> JumpDistance \<Rightarrow> asm_op" where
  "BranchIf condition l distance a =
     ASSERT (deferred_compare a \<noteq> kNone)
       (bindE (BranchIf_code condition l distance a) (\<lambda>a. Inr (consume_compare a)))"

definition SetIf_imm :: "Condition \<Rightarrow> Register \<Rightarrow> Register \<Rightarrow> intx \<Rightarrow> asm_op" where
  "SetIf_imm condition rd left right a =
     (if condition = EQUAL then seqE [xori rd left right, seqz rd rd] a
      else if condition = NOT_EQUAL then seqE [xori rd left right, snez rd rd] a
      else if condition = LESS then slti rd left right a
      else if condition = LESS_EQUAL then slti rd left (right + 1) a
      else if condition = GREATER_EQUAL then seqE [slti rd left right, xori rd rd 1] a
      else if condition = GREATER then seqE [slti rd left (right + 1), xori rd rd 1] a
      else if condition = UNSIGNED_LESS then sltiu rd left right a
      else if condition = UNSIGNED_LESS_EQUAL then sltiu rd left (right + 1) a
      else if condition = UNSIGNED_GREATER_EQUAL then seqE [sltiu rd left right, xori rd rd 1] a
      else if condition = UNSIGNED_GREATER then seqE [sltiu rd left (right + 1), xori rd rd 1] a
      else Inl AsmUnreachable)"

definition SetIf_reg :: "Condition \<Rightarrow> Register \<Rightarrow> Register \<Rightarrow> Register \<Rightarrow> asm_op" where
  "SetIf_reg condition rd left right a =
     (if condition = EQUAL then
        (if right = ZR then seqz rd left a else seqE [xor_rr rd left right, seqz rd rd] a)
      else if condition = NOT_EQUAL then
        (if right = ZR then snez rd left a else seqE [xor_rr rd left right, snez rd rd] a)
      else if condition = LESS then slt rd left right a
      else if condition = LESS_EQUAL then seqE [slt rd right left, xori rd rd 1] a
      else if condition = GREATER_EQUAL then seqE [slt rd left right, xori rd rd 1] a
      else if condition = GREATER then slt rd right left a
      else if condition = UNSIGNED_LESS then sltu rd left right a
      else if condition = UNSIGNED_LESS_EQUAL then seqE [sltu rd right left, xori rd rd 1] a
      else if condition = UNSIGNED_GREATER_EQUAL then seqE [sltu rd left right, xori rd rd 1] a
      else if condition = UNSIGNED_GREATER then sltu rd right left a
      else Inl AsmUnreachable)"

text \<open>
  \<open>SetIf\<close> turns a comparison with 0 or with a long immediate into a comparison of
  registers and calls itself, which is the case \<open>kCompareReg\<close>.
\<close>

definition SetIf :: "Condition \<Rightarrow> Register \<Rightarrow> asm_op" where
  "SetIf condition rd a =
     ASSERT (deferred_compare a \<noteq> kNone)
     (let imm = deferred_imm a; left = deferred_left a;
          with_reg = (\<lambda>right a. SetIf_reg condition rd left right
                                  (a\<lparr>deferred_compare := kCompareReg, deferred_reg := right\<rparr>))
      in bindE
        (case deferred_compare a of
           kCompareImm \<Rightarrow>
             if imm = 0 then with_reg ZR a
             else if \<not> IsITypeImm imm \<or> \<not> IsITypeImm (imm + 1) then
               bindE (LoadImmediate TMP2 imm a) (with_reg TMP2)
             else SetIf_imm condition rd left imm a
         | kCompareReg \<Rightarrow> SetIf_reg condition rd left (deferred_reg a) a
         | kNone \<Rightarrow> Inl AsmUnreachable
         | _ \<Rightarrow>
             bindE (deferred_and a) (\<lambda>a.
               if condition = EQUAL then seqz rd TMP2 a
               else if condition = NOT_EQUAL then snez rd TMP2 a
               else Inl AsmUnreachable))
        (\<lambda>a. Inr (consume_compare a)))"

definition BranchIfZero :: "Register \<Rightarrow> label \<Rightarrow> JumpDistance \<Rightarrow> asm_op" where
  "BranchIfZero rn l distance = beqz rn l distance"

definition BranchIfNotSmi :: "Register \<Rightarrow> label \<Rightarrow> JumpDistance \<Rightarrow> asm_op" where
  "BranchIfNotSmi reg l distance a =
     ASSERT (reg \<noteq> TMP2) (seqE [andi TMP2 reg 1, bnez TMP2 l distance] a)"

definition BranchIfSmi :: "Register \<Rightarrow> label \<Rightarrow> JumpDistance \<Rightarrow> asm_op" where
  "BranchIfSmi reg l distance a =
     ASSERT (reg \<noteq> TMP2) (seqE [andi TMP2 reg 1, beqz TMP2 l distance] a)"

definition Jump :: "Address \<Rightarrow> asm_op" where
  "Jump address = seqE [lx TMP2 address, jr TMP2 0]"

definition Call :: "Address \<Rightarrow> asm_op" where
  "Call target = seqE [lx RA target, jalr_ra RA 0]"

subsection \<open>Memory\<close>

text \<open>
  An offset that is no 12-bit immediate: its high part plus the base goes to
  \<open>TMP2\<close>, its low part stays in the instruction.
\<close>

definition at_offset :: "Register \<Rightarrow> u32 \<Rightarrow> (Address \<Rightarrow> asm_op) \<Rightarrow> asm_op" where
  "at_offset base offset access a =
     ASSERT (base \<noteq> TMP2)
     (let imm = (scast offset :: intx)
      in if \<not> IsITypeImm imm then
           (let lo = split_lo imm; hi = split_hi imm
            in if hi = 0 then Inl AsmUnreachable
               else seqE [lui TMP2 hi, add TMP2 TMP2 base, access (Address TMP2 lo)] a)
         else access (Address base imm) a)"

definition LoadFromOffset :: "Register \<Rightarrow> Register \<Rightarrow> u32 \<Rightarrow> OperandSize \<Rightarrow> asm_op" where
  "LoadFromOffset dest base offset sz =
     at_offset base offset (\<lambda>address.
       case sz of
         kEightBytes \<Rightarrow> ld dest address
       | kUnsignedFourBytes \<Rightarrow> lwu dest address
       | kFourBytes \<Rightarrow> lw dest address
       | kUnsignedTwoBytes \<Rightarrow> lhu dest address
       | kTwoBytes \<Rightarrow> lh dest address
       | kUnsignedByte \<Rightarrow> lbu dest address
       | kByte \<Rightarrow> lb dest address
       | _ \<Rightarrow> (\<lambda>a. Inl AsmUnreachable))"

definition StoreToOffset :: "Register \<Rightarrow> Register \<Rightarrow> u32 \<Rightarrow> OperandSize \<Rightarrow> asm_op" where
  "StoreToOffset src base offset sz =
     at_offset base offset (\<lambda>address.
       case sz of
         kEightBytes \<Rightarrow> sd src address
       | kUnsignedFourBytes \<Rightarrow> sw src address
       | kFourBytes \<Rightarrow> sw src address
       | kUnsignedTwoBytes \<Rightarrow> sh src address
       | kTwoBytes \<Rightarrow> sh src address
       | kUnsignedByte \<Rightarrow> sb src address
       | kByte \<Rightarrow> sb src address
       | _ \<Rightarrow> (\<lambda>a. Inl AsmUnreachable))"

definition LoadSFromOffset :: "FRegister \<Rightarrow> Register \<Rightarrow> u32 \<Rightarrow> asm_op" where
  "LoadSFromOffset dest base offset = at_offset base offset (flw dest)"

definition LoadDFromOffset :: "FRegister \<Rightarrow> Register \<Rightarrow> u32 \<Rightarrow> asm_op" where
  "LoadDFromOffset dest base offset = at_offset base offset (fld dest)"

definition StoreSToOffset :: "FRegister \<Rightarrow> Register \<Rightarrow> u32 \<Rightarrow> asm_op" where
  "StoreSToOffset src base offset = at_offset base offset (fsw src)"

definition StoreDToOffset :: "FRegister \<Rightarrow> Register \<Rightarrow> u32 \<Rightarrow> asm_op" where
  "StoreDToOffset src base offset = at_offset base offset (fsd src)"

definition LoadFieldFromOffset :: "Register \<Rightarrow> Register \<Rightarrow> u32 \<Rightarrow> OperandSize \<Rightarrow> asm_op" where
  "LoadFieldFromOffset dest base offset sz = LoadFromOffset dest base (offset - 1) sz"

definition StoreFieldToOffset :: "Register \<Rightarrow> Register \<Rightarrow> u32 \<Rightarrow> OperandSize \<Rightarrow> asm_op" where
  "StoreFieldToOffset src base offset sz = StoreToOffset src base (offset - 1) sz"

definition LoadIndexedPayload ::
  "Register \<Rightarrow> Register \<Rightarrow> u32 \<Rightarrow> Register \<Rightarrow> intptr \<Rightarrow> OperandSize \<Rightarrow> asm_op"
where
  "LoadIndexedPayload dest base payload_offset index scale sz =
     seqE [slli TMP index scale, add TMP TMP base, LoadFromOffset dest TMP (payload_offset - 1) sz]"

definition LoadAcquire :: "Register \<Rightarrow> Register \<Rightarrow> u32 \<Rightarrow> asm_op" where
  "LoadAcquire dst address offset a =
     ASSERT (dst \<noteq> address)
       (seqE [LoadFromOffset dst address offset kEightBytes, fence kRead (kRead OR kWrite)] a)"

definition StoreRelease :: "Register \<Rightarrow> Register \<Rightarrow> u32 \<Rightarrow> asm_op" where
  "StoreRelease src address offset =
     seqE [fence (kRead OR kWrite) kRead, StoreToOffset src address offset kEightBytes]"

definition LoadFieldAddressForRegOffset :: "Register \<Rightarrow> Register \<Rightarrow> Register \<Rightarrow> asm_op" where
  "LoadFieldAddressForRegOffset address instance_reg offset_in_words_as_smi =
     seqE [slli TMP offset_in_words_as_smi (3 - 1), add TMP TMP instance_reg, addi address TMP (- 1)]"

subsection \<open>Arithmetic with a test for overflow\<close>

definition AddImmediateBranchOverflow :: "Register \<Rightarrow> Register \<Rightarrow> intx \<Rightarrow> label \<Rightarrow> asm_op" where
  "AddImmediateBranchOverflow rd rs1 imm overflow a =
     ASSERT (rd \<noteq> TMP2)
     (let old = (if rd = rs1 then TMP2 else rs1);
          branch = (if 0 <s imm then blt rd old overflow kFarJump
                    else if imm <s 0 then bgt rd old overflow kFarJump
                    else Inr)
      in if rd = rs1 then seqE [mv TMP2 rs1, AddImmediate rd rs1 imm, branch] a
         else seqE [AddImmediate rd rs1 imm, branch] a)"

definition SubtractImmediateBranchOverflow :: "Register \<Rightarrow> Register \<Rightarrow> intx \<Rightarrow> label \<Rightarrow> asm_op" where
  "SubtractImmediateBranchOverflow rd rs1 imm overflow =
     AddImmediateBranchOverflow rd rs1 (- imm) overflow"

definition MultiplyImmediateBranchOverflow :: "Register \<Rightarrow> Register \<Rightarrow> intx \<Rightarrow> label \<Rightarrow> asm_op" where
  "MultiplyImmediateBranchOverflow rd rs1 imm overflow a =
     ASSERT (rd \<noteq> TMP \<and> rd \<noteq> TMP2 \<and> rs1 \<noteq> TMP \<and> rs1 \<noteq> TMP2)
       (seqE [LoadImmediate TMP2 imm, mulh TMP rs1 TMP2, mul rd rs1 TMP2, srai TMP2 rd (64 - 1),
              bne TMP TMP2 overflow kFarJump] a)"

definition AddBranchOverflow :: "Register \<Rightarrow> Register \<Rightarrow> Register \<Rightarrow> label \<Rightarrow> asm_op" where
  "AddBranchOverflow rd rs1 rs2 overflow a =
     ASSERT (rd \<noteq> TMP \<and> rd \<noteq> TMP2 \<and> rs1 \<noteq> TMP \<and> rs1 \<noteq> TMP2 \<and> rs2 \<noteq> TMP \<and> rs2 \<noteq> TMP2)
     (if rd = rs1 \<and> rd = rs2 then
        seqE [mv TMP rs1, add rd rs1 rs2, xor_rr TMP TMP rd, bltz TMP overflow kFarJump] a
      else if rs1 = rs2 then
        seqE [add rd rs1 rs2, xor_rr TMP rd rs1, bltz TMP overflow kFarJump] a
      else if rd = rs1 then
        seqE [slti TMP rs1 0, add rd rs1 rs2, slt TMP2 rd rs2, bne TMP TMP2 overflow kFarJump] a
      else if rd = rs2 then
        seqE [slti TMP rs2 0, add rd rs1 rs2, slt TMP2 rd rs1, bne TMP TMP2 overflow kFarJump] a
      else
        seqE [add rd rs1 rs2, slti TMP rs2 0, slt TMP2 rd rs1, bne TMP TMP2 overflow kFarJump] a)"

definition SubtractBranchOverflow :: "Register \<Rightarrow> Register \<Rightarrow> Register \<Rightarrow> label \<Rightarrow> asm_op" where
  "SubtractBranchOverflow rd rs1 rs2 overflow a =
     ASSERT (rd \<noteq> TMP \<and> rd \<noteq> TMP2 \<and> rs1 \<noteq> TMP \<and> rs1 \<noteq> TMP2 \<and> rs2 \<noteq> TMP \<and> rs2 \<noteq> TMP2)
     (if rd = rs1 \<and> rd = rs2 then
        seqE [mv TMP rs1, sub rd rs1 rs2, xor_rr TMP TMP rd, bltz TMP overflow kFarJump] a
      else if rs1 = rs2 then
        seqE [sub rd rs1 rs2, xor_rr TMP rd rs1, bltz TMP overflow kFarJump] a
      else if rd = rs1 then
        seqE [slti TMP rs1 0, sub rd rs1 rs2, slt TMP2 rd rs2, bne TMP TMP2 overflow kFarJump] a
      else if rd = rs2 then
        seqE [slti TMP rs2 0, sub rd rs1 rs2, slt TMP2 rd rs1, bne TMP TMP2 overflow kFarJump] a
      else
        seqE [sub rd rs1 rs2, slti TMP rs2 0, slt TMP2 rs1 rd, bne TMP TMP2 overflow kFarJump] a)"

definition MultiplyBranchOverflow :: "Register \<Rightarrow> Register \<Rightarrow> Register \<Rightarrow> label \<Rightarrow> asm_op" where
  "MultiplyBranchOverflow rd rs1 rs2 overflow a =
     ASSERT (rd \<noteq> TMP \<and> rd \<noteq> TMP2 \<and> rs1 \<noteq> TMP \<and> rs1 \<noteq> TMP2 \<and> rs2 \<noteq> TMP \<and> rs2 \<noteq> TMP2)
       (seqE [mulh TMP rs1 rs2, mul rd rs1 rs2, srai TMP2 rd (64 - 1), bne TMP TMP2 overflow kFarJump] a)"

end
