(* ===== verification/Riscv_Constants_Load.thy ===== *)
theory Riscv_Constants_Load
  imports Riscv_MacroAssembler
begin

text \<open>
  \<open>LoadImmediate\<close> and the operations with a constant operand: what the generated
  code computes, for every 64-bit constant, and how long it is.
\<close>

unbundle bit_operations_syntax

subsection \<open>Sequences\<close>

lemma assembles_weaken: "assembles m r f a \<Longrightarrow> m \<le> n \<Longrightarrow> assembles n r f a"
  by (fastforce simp: assembles_def)

lemma assembles_zero_cong:
  assumes "assembles n r f a" and "\<And>s. zero_ok s \<Longrightarrow> f s = g s" and "frame g"
  shows "assembles n r g a"
proof -
  obtain code where c: "r = Inr (append_code code a)" "runs code f" "length code \<le> n"
    using assms(1) by (auto simp: assembles_def)
  have "runs code g"
    using c(2) assms(2) by (auto simp: runs_def placed_def)
  then show ?thesis using c assms(3) by (auto simp: assembles_def)
qed

lemma bindE_Inr_right: "bindE r Inr = r"
  by (cases r) simp_all

lemma assembles_Nil: "assembles 0 (seqE [] a) (\<lambda>s. s) a"
  by (simp add: assembles_Inr)

lemma assembles_Cons:
  assumes "assembles m (op a) f a" and "wf_asm a"
    and "\<And>a'. wf_asm a' \<Longrightarrow> assembles n (seqE ops a') g a'"
  shows "assembles (m + n) (seqE (op # ops) a) (\<lambda>s. g (f s)) a"
  using assembles_bindE [OF assms] by simp

lemma assembles_ASSERT: "c \<Longrightarrow> assembles n r f a \<Longrightarrow> assembles n (ASSERT c r) f a"
  by (simp add: ASSERT_def)

lemma frame_set_xreg_const [simp]: "frame (set_xreg rd v)"
  using frame_set_xreg [of "\<lambda>s. v" rd] by simp

lemma assembles_li_const:
  assumes "wf_asm a" and "IsITypeImm imm"
  shows "assembles 4 (li rd imm a) (set_xreg rd imm) a"
  by (rule assembles_zero_cong [OF assembles_li [OF assms]]) (simp_all add: zero_ok_get_xreg)

lemma set_xreg_twice [simp]: "set_xreg rd v (set_xreg rd w s) = set_xreg rd v s"
  by (simp add: set_xreg_def)

lemma get_set_same: "rd \<noteq> ZR \<Longrightarrow> get_xreg (set_xreg rd v s) rd = v"
  by simp

text \<open>The effect of a sequence of instructions that each write one register.\<close>

fun effects :: "(Register \<times> (sim \<Rightarrow> u64)) list \<Rightarrow> sim \<Rightarrow> sim" where
  "effects [] s = s"
| "effects ((rd, e) # es) s = effects es (set_xreg rd (e s) s)"

lemma assembles_effects_Nil: "assembles 0 (seqE [] a) (effects []) a"
proof -
  have "effects [] = (\<lambda>s. s)" by (rule ext) simp
  then show ?thesis by (simp add: assembles_Inr)
qed

lemma assembles_effects:
  assumes "assembles m (op a) (\<lambda>s. set_xreg rd (e s) s) a" and "wf_asm a"
    and "\<And>a'. wf_asm a' \<Longrightarrow> assembles n (seqE ops a') (effects es) a'"
  shows "assembles (m + n) (seqE (op # ops) a) (effects ((rd, e) # es)) a"
proof (rule assembles_cong)
  show "assembles (m + n) (seqE (op # ops) a) (\<lambda>s. effects es (set_xreg rd (e s) s)) a"
    by (rule assembles_Cons) (fact assms)+
qed simp

lemma memory_effects: "memory (effects es s) = memory s"
  by (induction es s rule: effects.induct) simp_all

lemma get_effects_other: "q \<notin> fst ` set es \<Longrightarrow> get_xreg (effects es s) q = get_xreg s q"
  by (induction es s rule: effects.induct) simp_all

lemma seqE_single: "seqE [op] a = op a"
  by (cases "op a") simp_all

lemma seqE_snoc: "seqE (ops @ [op]) a = bindE (seqE ops a) op"
proof -
  have "seqE [op] = op" by (rule ext) (rule seqE_single)
  then show ?thesis by (simp add: seqE_append)
qed

subsection \<open>Constants of 32 bits\<close>

lemma IsInt_split_hi: "IsInt 32 (split_hi x)"
  unfolding split_hi_eq using IsInt_signed_take_bit [of 32] by simp

lemma sign_extend32_split:
  assumes "IsInt 32 imm"
  shows "sign_extend32 (ucast (split_hi imm) + ucast (split_lo imm)) = imm"
  by (simp only: ucast_split) (rule sign_extend32_ucast [OF assms]; simp)

lemma IsInt_split_lo: "IsInt 32 (split_lo x)"
  using sint_split_lo [of x] by (simp add: IsInt_iff_sint)

lemma split_hi_0:
  assumes "IsInt 32 imm" and "split_hi imm = 0"
  shows "split_lo imm = imm"
  using sign_extend32_split [OF assms(1)] sign_extend32_ucast [OF IsInt_split_lo] assms(2) by simp

lemma split_lo_0:
  assumes "IsInt 32 imm" and "split_lo imm = 0"
  shows "split_hi imm = imm"
  using sign_extend32_split [OF assms(1)] sign_extend32_ucast [OF IsInt_split_hi] assms(2) by simp

lemma LoadImmediate_32:
  assumes "IsInt 32 imm" and "wf_asm a" and "reg \<noteq> ZR"
  shows "assembles 8 (LoadImmediate reg imm a) (set_xreg reg imm) a"
proof (cases "split_hi imm = 0")
  case True
  have "LoadImmediate reg imm a = li reg imm a"
    using assms(1) True by (simp add: LoadImmediate.simps split_hi_0 Let_def)
  moreover have "IsITypeImm imm"
    using IsITypeImm_split_lo [of imm] split_hi_0 [OF assms(1) True] by simp
  ultimately show ?thesis
    using assembles_weaken [OF assembles_li_const [OF assms(2)]] by simp
next
  case False
  note hi = assembles_lui [OF assms(2) IsUTypeImm_split_hi False]
  show ?thesis
  proof (cases "split_lo imm = 0")
    case True
    have "LoadImmediate reg imm a = bindE (lui reg (split_hi imm) a) Inr"
      using assms(1) True False by (simp add: LoadImmediate.simps Let_def)
    also have "\<dots> = lui reg (split_hi imm) a"
      by (cases "lui reg (split_hi imm) a") simp_all
    finally show ?thesis
      using assembles_weaken [OF hi] split_lo_0 [OF assms(1) True] by simp
  next
    case lo: False
    have "LoadImmediate reg imm a = bindE (lui reg (split_hi imm) a) (addiw reg reg (split_lo imm))"
      using assms(1) lo False by (simp add: LoadImmediate.simps Let_def)
    moreover have "assembles (4 + 4) (bindE (lui reg (split_hi imm) a) (addiw reg reg (split_lo imm)))
      (\<lambda>s. set_xreg reg (sign_extend32 (ucast (get_xreg (set_xreg reg (split_hi imm) s) reg) + ucast (split_lo imm)))
        (set_xreg reg (split_hi imm) s)) a"
      by (rule assembles_bindE [OF hi assms(2)], rule addiw.assembles_op, assumption, rule IsITypeImm_split_lo)
    ultimately show ?thesis
      using assms(3) by (simp add: get_set_same sign_extend32_split [OF assms(1)])
  qed
qed

subsection \<open>Constants of 64 bits\<close>

text \<open>One level of the recursion: 12 bits are shifted in.\<close>

lemma push_signed_drop_12:
  fixes x :: intx
  assumes "take_bit 12 x = 0"
  shows "push_bit 12 (signed_drop_bit 12 x) = x"
proof (rule bit_word_eqI)
  fix n assume n: "n < LENGTH(64)"
  show "bit (push_bit 12 (signed_drop_bit 12 x)) n = bit x n"
  proof (cases "n < 12")
    case True
    then have "\<not> bit x n" using assms bit_take_bit_iff [of 12 x n] by simp
    then show ?thesis using True by (simp add: bit_push_bit_iff)
  next
    case False
    then have "12 \<le> n" "12 + (n - 12) = n" "\<not> 52 \<le> n - 12" using n by simp_all
    then show ?thesis using n by (simp add: bit_push_bit_iff bit_signed_drop_bit_iff)
  qed
qed

lemma LoadImmediate_level:
  assumes "\<not> IsInt 32 imm" and "wf_asm a" and "reg \<noteq> ZR"
    and "assembles n (LoadImmediate reg (signed_drop_bit 12 (imm - split_lo imm)) a)
      (set_xreg reg (signed_drop_bit 12 (imm - split_lo imm))) a"
  shows "assembles (n + (if split_lo imm = 0 then 4 else 8)) (LoadImmediate reg imm a) (set_xreg reg imm) a"
proof -
  let ?x = "imm - split_lo imm"
  have x: "push_bit 12 (signed_drop_bit 12 ?x) = ?x"
    by (rule push_signed_drop_12) (rule take_bit_minus_split_lo)
  have shift: "assembles 4 (slli reg reg 12 a') (\<lambda>s. set_xreg reg (push_bit 12 (get_xreg s reg)) s) a'"
    if "wf_asm a'" for a'
    using slli.assembles_op [OF that, of 12 reg reg] by (simp add: word_sless_alt)
  have two: "assembles (n + 4) (bindE (LoadImmediate reg (signed_drop_bit 12 ?x) a) (slli reg reg 12))
      (set_xreg reg ?x) a"
    using assembles_bindE [OF assms(4,2) shift] assms(3) by (simp add: get_set_same x)
  have e: "LoadImmediate reg imm a = bindE (LoadImmediate reg (signed_drop_bit 12 ?x) a) (\<lambda>a.
      bindE (slli reg reg 12 a) (\<lambda>a. if split_lo imm \<noteq> 0 then addi reg reg (split_lo imm) a else Inr a))"
    using assms(1) by (subst LoadImmediate.simps) (simp add: Let_def)
  show ?thesis
  proof (cases "split_lo imm = 0")
    case True
    have "LoadImmediate reg imm a = bindE (LoadImmediate reg (signed_drop_bit 12 ?x) a) (slli reg reg 12)"
      unfolding e using True by (simp add: bindE_Inr_right)
    then show ?thesis using two True by simp
  next
    case False
    have "LoadImmediate reg imm a =
        bindE (bindE (LoadImmediate reg (signed_drop_bit 12 ?x) a) (slli reg reg 12)) (addi reg reg (split_lo imm))"
      unfolding e using False by (simp add: bindE_assoc)
    moreover have "assembles (n + 4 + 4)
      (bindE (bindE (LoadImmediate reg (signed_drop_bit 12 ?x) a) (slli reg reg 12)) (addi reg reg (split_lo imm)))
      (\<lambda>s. set_xreg reg (get_xreg (set_xreg reg ?x s) reg + split_lo imm) (set_xreg reg ?x s)) a"
      by (rule assembles_bindE [OF two assms(2)], rule addi.assembles_op, assumption, rule IsITypeImm_split_lo)
    ultimately show ?thesis using False assms(3) by (simp add: get_set_same add.assoc)
  qed
qed

text \<open>
  A constant of at most \<open>31 + 12 * k\<close> bits takes \<open>k\<close> levels above the last one.  The
  power of two at the end of the range needs a level more but no \<open>addi\<close>.
\<close>

lemma LoadImmediate_power_31:
  assumes "wf_asm a" and "reg \<noteq> ZR"
  shows "assembles 8 (LoadImmediate reg 0x80000000 a) (set_xreg reg 0x80000000) a"
proof -
  have lo: "split_lo 0x80000000 = 0" by (simp add: split_lo_eq signed_take_bit_eq_if_positive)
  have i: "IsInt 32 (0x80000 :: intx)" and ni: "\<not> IsInt 32 (0x80000000 :: intx)"
    by (simp_all add: IsInt_iff_sint)
  have lo': "split_lo 0x80000 = 0" by (simp add: split_lo_eq)
  have sh: "signed_drop_bit 12 (0x80000000 - split_lo 0x80000000) = 0x80000" by (simp add: lo)
  have "LoadImmediate reg 0x80000 a = lui reg 0x80000 a"
    using i lo' split_lo_0 [OF i lo'] by (subst LoadImmediate.simps) (simp add: Let_def bindE_Inr_right)
  then have "assembles 4 (LoadImmediate reg 0x80000 a) (set_xreg reg 0x80000) a"
    using assembles_lui [OF assms(1), of "0x80000"] IsUTypeImm_split_hi [of "0x80000"] split_lo_0 [OF i lo']
    by simp
  then show ?thesis
    using LoadImmediate_level [OF ni assms, of 4] by (simp add: sh lo)
qed

lemma sint_minus_split_lo_dvd: "4096 dvd sint (x - split_lo x)"
proof -
  have "take_bit 12 (sint (x - split_lo x)) = take_bit 12 (uint (x - split_lo x))"
    by (simp add: sint_uint take_bit_signed_take_bit)
  also have "\<dots> = uint (take_bit 12 (x - split_lo x))"
    by (simp add: unsigned_take_bit_eq)
  finally have "take_bit 12 (sint (x - split_lo x)) = 0"
    by (simp add: take_bit_minus_split_lo)
  then show ?thesis by (simp add: take_bit_eq_mod dvd_eq_mod_eq_0)
qed

lemma LoadImmediate_next:
  fixes k :: nat and imm :: intx
  defines "y \<equiv> sint (signed_drop_bit 12 (imm - split_lo imm))"
  assumes "- (2 ^ (43 + 12 * k)) \<le> sint imm" and "sint imm \<le> 2 ^ (43 + 12 * k)"
  shows "- (2 ^ (31 + 12 * k)) \<le> y" and "y \<le> 2 ^ (31 + 12 * k)"
proof -
  obtain m where m: "sint (imm - split_lo imm) = 4096 * m"
    using sint_minus_split_lo_dvd [of imm] by (rule dvdE)
  then have y: "y = m" by (simp add: y_def sint_signed_drop_bit_12)
  have p: "(2 :: int) ^ (43 + 12 * k) = 4096 * 2 ^ (31 + 12 * k)" by (simp add: power_add)
  have range: "- (2 ^ 63) \<le> 4096 * m" "4096 * m < 2 ^ 63"
    using sint_ge [of "imm - split_lo imm"] sint_lt [of "imm - split_lo imm"] by (simp_all add: m)
  show "- (2 ^ (31 + 12 * k)) \<le> y" "y \<le> 2 ^ (31 + 12 * k)"
  proof (atomize (full), cases "- (2 ^ 62) \<le> sint imm \<and> sint imm < 2 ^ 62")
    case True
    then have "4096 * m = sint imm - sint (split_lo imm)" using sint_minus_split_lo [of imm] m by simp
    then show "- (2 ^ (31 + 12 * k)) \<le> y \<and> y \<le> 2 ^ (31 + 12 * k)"
      using assms(2,3) sint_split_lo [of imm] unfolding y p by linarith
  next
    case False
    then have "(2 :: int) ^ 62 \<le> 2 ^ (43 + 12 * k)" using assms(2,3) by linarith
    then have "62 \<le> 43 + 12 * k" by (simp only: power_increasing_iff one_less_numeral_iff semiring_norm)
    then have "51 \<le> 31 + 12 * k" by presburger
    then have "(2 :: int) ^ 51 \<le> 2 ^ (31 + 12 * k)" by (rule power_increasing) simp
    then show "- (2 ^ (31 + 12 * k)) \<le> y \<and> y \<le> 2 ^ (31 + 12 * k)" using range unfolding y by simp
  qed
qed

lemma LoadImmediate_range:
  assumes "- (2 ^ (31 + 12 * k)) \<le> sint imm" and "sint imm \<le> 2 ^ (31 + 12 * k)"
    and "wf_asm a" and "reg \<noteq> ZR"
  shows "assembles (8 + 8 * k) (LoadImmediate reg imm a) (set_xreg reg imm) a"
  using assms(1,2)
proof (induction k arbitrary: imm)
  case 0
  then consider "IsInt 32 imm" | "sint imm = 0x80000000"
    by (cases "sint imm = 0x80000000") (auto simp: IsInt_iff_sint)
  then show ?case
  proof cases
    case 2
    have "word_of_int (sint imm) = imm" by simp
    then have "imm = 0x80000000" unfolding 2 by simp
    then show ?thesis using LoadImmediate_power_31 [OF assms(3,4)] by simp
  qed (use LoadImmediate_32 [OF _ assms(3,4)] in simp)
next
  case (Suc k)
  show ?case
  proof (cases "IsInt 32 imm")
    case True
    then show ?thesis
      by (rule assembles_weaken [OF LoadImmediate_32 [OF _ assms(3,4)]]) simp
  next
    case False
    let ?y = "signed_drop_bit 12 (imm - split_lo imm)"
    have "assembles (8 + 8 * k) (LoadImmediate reg ?y a) (set_xreg reg ?y) a"
      by (rule Suc.IH) (use LoadImmediate_next [of k imm] Suc.prems in simp_all)
    then show ?thesis
      by (rule assembles_weaken [OF LoadImmediate_level [OF False assms(3,4)]]) simp
  qed
qed

lemma LoadImmediate_assembles:
  assumes "wf_asm a" and "reg \<noteq> ZR"
  shows "assembles 32 (LoadImmediate reg imm a) (set_xreg reg imm) a"
proof -
  have "- (2 ^ 67) \<le> sint imm" "sint imm \<le> 2 ^ 67"
    using sint_ge [of imm] sint_lt [of imm] by simp_all
  then show ?thesis using LoadImmediate_range [of 3 imm, OF _ _ assms] by simp
qed

subsection \<open>Constant operands\<close>

text \<open>
  An operation with an immediate form and a register form of the same function
  has a form for every constant; a long constant goes through \<open>TMP2\<close>.
\<close>

locale constant_operand = im: immediate_op opi IsITypeImm f + rr: register_op op valid f
  for opi :: "Register \<Rightarrow> Register \<Rightarrow> intptr \<Rightarrow> asm_op"
    and op :: "Register \<Rightarrow> Register \<Rightarrow> Register \<Rightarrow> asm_op"
    and valid :: "Register \<Rightarrow> Register \<Rightarrow> Register \<Rightarrow> bool"
    and f :: "u64 \<Rightarrow> u64 \<Rightarrow> u64" +
  assumes valid_TMP2: "rd \<noteq> ZR \<Longrightarrow> rs1 \<noteq> ZR \<Longrightarrow> rs1 \<noteq> TMP2 \<Longrightarrow> valid rd rs1 TMP2"
begin

lemma assembles_constant:
  assumes "wf_asm a" and "rd \<noteq> ZR" and "rs1 \<noteq> ZR" and "rs1 \<noteq> TMP2"
  shows "assembles 36 (immediate_operand opi op rd rs1 imm a)
    (\<lambda>s. set_xreg rd (f (get_xreg s rs1) imm) (if IsITypeImm imm then s else set_xreg TMP2 imm s)) a"
proof (cases "IsITypeImm imm")
  case True
  then show ?thesis
    using assembles_weaken [OF im.assembles_op [OF assms(1) True, of rd rs1]]
    by (simp add: immediate_operand_def)
next
  case False
  have "assembles (32 + (4 + 0)) (seqE [LoadImmediate TMP2 imm, op rd rs1 TMP2] a)
    (\<lambda>s. set_xreg rd (f (get_xreg (set_xreg TMP2 imm s) rs1) (get_xreg (set_xreg TMP2 imm s) TMP2))
      (set_xreg TMP2 imm s)) a"
    by (intro assembles_Cons assembles_Nil LoadImmediate_assembles rr.assembles_op valid_TMP2 assms)
      (simp_all add: assms)
  then show ?thesis
    using False assms(4) by (simp add: immediate_operand_def ASSERT_def)
qed

end

interpretation AddImmediate: constant_operand addi add
  "\<lambda>rd rs1 rs2. rd \<noteq> ZR \<and> (rd = rs1 \<longrightarrow> rs2 \<noteq> ZR) \<and> (rd = rs2 \<longrightarrow> rs1 \<noteq> ZR)" "(+)"
  by unfold_locales auto

interpretation AndImmediate: constant_operand andi and_rr "\<lambda>rd rs1 rs2. True" "(AND)"
  by unfold_locales simp

interpretation OrImmediate: constant_operand ori or_rr "\<lambda>rd rs1 rs2. True" "(OR)"
  by unfold_locales simp

interpretation XorImmediate: constant_operand xori xor_rr "\<lambda>rd rs1 rs2. True" "(XOR)"
  by unfold_locales simp

end
