(* ===== verification/Riscv_Overflow.thy ===== *)
theory Riscv_Overflow
  imports Riscv_Constants_Load
begin

text \<open>
  The arithmetic operations that branch on signed overflow: which code paths
  branch exactly when the mathematical result does not fit into 64 bits, and
  which do not.
\<close>

unbundle bit_operations_syntax

subsection \<open>Signed overflow\<close>

lemma sint_add_64:
  fixes x y :: u64
  obtains "sint (x + y) = sint x + sint y" | "sint (x + y) = sint x + sint y - 2 ^ 64" "2 ^ 63 \<le> sint x + sint y"
  | "sint (x + y) = sint x + sint y + 2 ^ 64" "sint x + sint y < - (2 ^ 63)"
proof -
  have x: "- (2 ^ 63) \<le> sint x" "sint x < 2 ^ 63" and y: "- (2 ^ 63) \<le> sint y" "sint y < 2 ^ 63"
    using sint_ge [of x] sint_lt [of x] sint_ge [of y] sint_lt [of y] by simp_all
  have fit: "sint (x + y) = sint x + sint y + k" if "k \<in> {0, 2 ^ 64, - (2 ^ 64)}"
    "- (2 ^ 63) \<le> sint x + sint y + k" "sint x + sint y + k < 2 ^ 63" for k :: int
  proof -
    have "word_of_int k = (0 :: u64)" using that(1) by auto
    then have "x + y = word_of_int (sint x + sint y + k)" by simp
    then show ?thesis using that sint_word_of_int_fits [of "sint x + sint y + k", where 'a = 64] by simp
  qed
  consider "- (2 ^ 63) \<le> sint x + sint y" "sint x + sint y < 2 ^ 63"
    | "2 ^ 63 \<le> sint x + sint y" | "sint x + sint y < - (2 ^ 63)" by linarith
  then show ?thesis
  proof cases
    case 1
    then show ?thesis using that(1) fit [of 0] by simp
  next
    case 2
    then show ?thesis using that(2) fit [of "- (2 ^ 64)"] x y by simp
  next
    case 3
    then show ?thesis using that(3) fit [of "2 ^ 64"] x y by simp
  qed
qed

definition add_overflows :: "u64 \<Rightarrow> u64 \<Rightarrow> bool" where
  "add_overflows x y \<longleftrightarrow> sint (x + y) \<noteq> sint x + sint y"

definition sub_overflows :: "u64 \<Rightarrow> u64 \<Rightarrow> bool" where
  "sub_overflows x y \<longleftrightarrow> sint (x - y) \<noteq> sint x - sint y"

definition mul_overflows :: "u64 \<Rightarrow> u64 \<Rightarrow> bool" where
  "mul_overflows x y \<longleftrightarrow> sint (x * y) \<noteq> sint x * sint y"

lemma add_overflows_iff: "add_overflows x y \<longleftrightarrow> (x + y <s x) \<noteq> (y <s 0)"
  using sint_ge [of x] sint_lt [of x] sint_ge [of y] sint_lt [of y]
  by (cases rule: sint_add_64 [of x y]) (auto simp: add_overflows_def word_sless_alt)

lemma add_overflows_commute: "add_overflows x y = add_overflows y x"
  by (simp add: add_overflows_def add.commute)

lemma sless_0_bit: "(x :: u64) <s 0 \<longleftrightarrow> bit x 63"
  using bit_last_iff [of x] by (simp add: word_sless_alt)

lemma xor_sless_0: "(x XOR y :: u64) <s 0 \<longleftrightarrow> (x <s 0) \<noteq> (y <s 0)"
  by (simp add: sless_0_bit bit_xor_iff)

lemma add_overflows_self: "add_overflows x x \<longleftrightarrow> (x <s 0) \<noteq> (x + x <s 0)"
  using sint_ge [of x] sint_lt [of x]
  by (cases rule: sint_add_64 [of x x]) (auto simp: add_overflows_def word_sless_alt)

lemma sub_overflows_iff: "sub_overflows x y \<longleftrightarrow> (x <s x - y) \<noteq> (y <s 0)"
proof -
  have "x - y + y = x" by simp
  then show ?thesis
    using sint_ge [of "x - y"] sint_lt [of "x - y"] sint_ge [of y] sint_lt [of y]
    by (cases rule: sint_add_64 [of "x - y" y]) (auto simp: sub_overflows_def word_sless_alt)
qed

lemma signed_drop_bit_63: "signed_drop_bit 63 (x :: u64) = (if x <s 0 then - 1 else 0)"
proof (rule bit_word_eqI)
  fix n assume "n < LENGTH(64)"
  then show "bit (signed_drop_bit 63 x) n = bit (if x <s 0 then - 1 else (0 :: u64)) n"
    by (cases "n = 0") (simp_all add: sless_0_bit bit_signed_drop_bit_iff)
qed

lemma sint_mul_64: "sint (x * y :: u64) = signed_take_bit 63 (sint x * sint y)"
proof -
  have "x * y = word_of_int (sint x * sint y)" by simp
  then show ?thesis by (simp only: sint_sbintrunc') simp
qed

lemma signed_take_bit_63_eq:
  fixes p :: int
  shows "signed_take_bit 63 p = p \<longleftrightarrow> p div 2 ^ 64 = (if signed_take_bit 63 p < 0 then - 1 else 0)"
proof -
  define t where "t = signed_take_bit 63 p"
  define q where "q = (p + 2 ^ 63) div 2 ^ 64"
  have t_eq: "t = (p + 2 ^ 63) mod 2 ^ 64 - 2 ^ 63"
    by (simp add: t_def signed_take_bit_eq_take_bit_shift take_bit_eq_mod)
  have "2 ^ 64 * q + (p + 2 ^ 63) mod 2 ^ 64 = p + 2 ^ 63"
    unfolding q_def by (rule mult_div_mod_eq)
  then have p: "p = 2 ^ 64 * q + t" unfolding t_eq by simp
  have t: "- (2 ^ 63) \<le> t" "t < 2 ^ 63"
    unfolding t_eq by simp_all
  have "p div 2 ^ 64 = q + t div 2 ^ 64" unfolding p by simp
  moreover have "t div 2 ^ 64 = (if t < 0 then - 1 else 0)"
    using t by (auto intro!: int_div_pos_eq [of _ _ _ "t + 2 ^ 64"] div_pos_pos_trivial)
  ultimately have "p div 2 ^ 64 = q + (if t < 0 then - 1 else 0)" by simp
  moreover have "t = p \<longleftrightarrow> q = 0" using p by auto
  ultimately show ?thesis unfolding t_def [symmetric] by simp
qed

lemma sint_mult_bounds: "- (2 ^ 126) \<le> sint (x :: u64) * sint (y :: u64)" "sint x * sint y \<le> 2 ^ 126"
proof -
  have "\<bar>sint x\<bar> \<le> 2 ^ 63" "\<bar>sint y\<bar> \<le> 2 ^ 63"
    using sint_ge [of x] sint_lt [of x] sint_ge [of y] sint_lt [of y] by (simp_all add: abs_le_iff)
  then have "\<bar>sint x\<bar> * \<bar>sint y\<bar> \<le> 2 ^ 63 * 2 ^ 63" by (intro mult_mono) simp_all
  then have "\<bar>sint x * sint y\<bar> \<le> 2 ^ 126" by (simp add: abs_mult)
  then show "- (2 ^ 126) \<le> sint x * sint y" "sint x * sint y \<le> 2 ^ 126" by (simp_all add: abs_le_iff)
qed

lemma mul_overflows_iff: "mul_overflows x y \<longleftrightarrow> sim_mulh x y \<noteq> signed_drop_bit 63 (x * y)"
proof -
  let ?p = "sint x * sint y"
  let ?h = "?p div 2 ^ 64"
  let ?e = "if sint (x * y) < 0 then - 1 else (0 :: int)"
  have "- (2 ^ 63) \<le> ?h" "?h < 2 ^ 63"
    by (rule int_div_lower, simp, use sint_mult_bounds [of x y] in simp,
        rule int_div_upper, simp, use sint_mult_bounds [of x y] in simp)
  then have h: "sint (word_of_int ?h :: u64) = ?h"
    by (intro sint_word_of_int_fits) simp_all
  have e: "sint (word_of_int ?e :: u64) = ?e" by simp
  have "sim_mulh x y = signed_drop_bit 63 (x * y) \<longleftrightarrow> (word_of_int ?h :: u64) = word_of_int ?e"
    unfolding sim_mulh_eq signed_drop_bit_63 word_sless_alt by simp
  also have "\<dots> \<longleftrightarrow> ?h = ?e"
    using h e arg_cong [of "word_of_int ?h" "word_of_int ?e :: u64" sint] by auto
  also have "\<dots> \<longleftrightarrow> sint (x * y) = ?p"
    using signed_take_bit_63_eq [of ?p] by (simp add: sint_mul_64)
  finally show ?thesis unfolding mul_overflows_def by blast
qed

subsection \<open>Code that branches on overflow\<close>

text \<open>
  \<open>computes_or_branches r rd v c l a\<close>: the code goes to \<open>l\<close> if \<open>c\<close> holds; either
  way \<open>rd\<close> is \<open>v\<close> at its end, memory is unchanged, and of the other registers only
  \<open>TMP\<close> and \<open>TMP2\<close> (and \<open>FAR_TMP\<close>, if the branch is a far one) change.
\<close>

definition computes_or_branches ::
  "asm_error + asm \<Rightarrow> Register \<Rightarrow> (sim \<Rightarrow> u64) \<Rightarrow> (sim \<Rightarrow> bool) \<Rightarrow> label \<Rightarrow> asm \<Rightarrow> bool"
where
  "computes_or_branches r rd v c l a \<longleftrightarrow>
     (\<exists>f. branches_to r f c l a \<and>
        (\<forall>s. get_xreg (f s) rd = v s \<and> memory (f s) = memory s \<and>
           (\<forall>q. q \<notin> {rd, TMP, TMP2} \<longrightarrow> get_xreg (f s) q = get_xreg s q)))"

lemma computes_or_branchesI:
  assumes "branches_to r f c' l a"
    and "\<And>s. zero_ok s \<Longrightarrow> c' s = c s"
    and "\<And>s. get_xreg (f s) rd = v s" and "\<And>s. memory (f s) = memory s"
    and "\<And>s q. q \<notin> {rd, TMP, TMP2} \<Longrightarrow> get_xreg (f s) q = get_xreg s q"
  shows "computes_or_branches r rd v c l a"
  unfolding computes_or_branches_def using branches_to_cong [OF assms(1,2)] assms(3-5) by blast

context branch_op
begin

lemma computes_or_branches:
  assumes "assembles n (seqE ops a) (effects es) a" and "wf_asm a" and "bound_within l a" and "n \<le> 131072"
    and "fst ` set es \<subseteq> {rd, TMP, TMP2}"
    and "\<And>s. zero_ok s \<Longrightarrow> test (get_xreg (effects es s) rs1) (get_xreg (effects es s) rs2) = c s"
    and "\<And>s. get_xreg (effects es s) rd = v s"
  shows "computes_or_branches (seqE (ops @ [op rs1 rs2 l kFarJump]) a) rd v c l a"
proof (rule computes_or_branchesI [OF _ assms(6,7) memory_effects])
  show "branches_to (seqE (ops @ [op rs1 rs2 l kFarJump]) a) (effects es)
    (\<lambda>s. test (get_xreg (effects es s) rs1) (get_xreg (effects es s) rs2)) l a"
    unfolding seqE_snoc by (rule branches_after [OF assms(1-4)])
  show "get_xreg (effects es s) q = get_xreg s q" if "q \<notin> {rd, TMP, TMP2}" for s q
    by (rule get_effects_other) (use that assms(5) in blast)
qed

end

lemmas effects_intros = assembles_effects assembles_effects_Nil assembles_mv
  add.assembles_op sub.assembles_op xor_rr.assembles_op slt.assembles_op mul.assembles_op mulh.assembles_op
  slti.assembles_op srai.assembles_op

definition plain :: "Register \<Rightarrow> bool" where
  "plain r \<longleftrightarrow> r \<notin> {ZR, TMP, TMP2}"

lemma IsITypeImm_0: "IsITypeImm 0"
  by (simp add: IsITypeImm_def IsInt_iff_sint)

lemmas overflow_simps = ASSERT_def plain_def sub_overflows_iff mul_overflows_iff xor_sless_0 IsITypeImm_0 zero_ok_get_xreg sim_mul_def

text \<open>
  \<open>AddBranchOverflow\<close>, by the registers that coincide.
\<close>

lemma AddBranchOverflow_distinct:
  assumes "wf_asm a" and "bound_within l a" and "plain rd" and "plain rs1" and "plain rs2"
    and "rd \<noteq> rs1" "rd \<noteq> rs2" "rs1 \<noteq> rs2"
  shows "computes_or_branches (AddBranchOverflow rd rs1 rs2 l a) rd (\<lambda>s. get_xreg s rs1 + get_xreg s rs2)
    (\<lambda>s. add_overflows (get_xreg s rs1) (get_xreg s rs2)) l a"
proof -
  have "assembles (4 + (4 + (4 + 0))) (seqE [add rd rs1 rs2, slti TMP rs2 0, slt TMP2 rd rs1] a)
    (effects [(rd, \<lambda>s. get_xreg s rs1 + get_xreg s rs2), (TMP, \<lambda>s. if get_xreg s rs2 <s 0 then 1 else 0),
       (TMP2, \<lambda>s. if get_xreg s rd <s get_xreg s rs1 then 1 else 0)]) a"
    by (intro effects_intros assms IsITypeImm_0) (use assms in \<open>auto simp: plain_def\<close>)
  note bne.computes_or_branches [OF this assms(1,2), where ?rs1.0 = TMP and ?rs2.0 = TMP2 and rd = rd
      and v = "\<lambda>s. get_xreg s rs1 + get_xreg s rs2"
      and c = "\<lambda>s. add_overflows (get_xreg s rs1) (get_xreg s rs2)"]
  then show ?thesis
    using assms by (simp add: AddBranchOverflow_def overflow_simps add_overflows_iff)
qed

lemma AddBranchOverflow_rd_rs1:
  assumes "wf_asm a" and "bound_within l a" and "plain rd" and "plain rs2" and "rd \<noteq> rs2"
  shows "computes_or_branches (AddBranchOverflow rd rd rs2 l a) rd (\<lambda>s. get_xreg s rd + get_xreg s rs2)
    (\<lambda>s. add_overflows (get_xreg s rs2) (get_xreg s rd)) l a"
proof -
  have "assembles (4 + (4 + (4 + 0))) (seqE [slti TMP rd 0, add rd rd rs2, slt TMP2 rd rs2] a)
    (effects [(TMP, \<lambda>s. if get_xreg s rd <s 0 then 1 else 0), (rd, \<lambda>s. get_xreg s rd + get_xreg s rs2),
       (TMP2, \<lambda>s. if get_xreg s rd <s get_xreg s rs2 then 1 else 0)]) a"
    by (intro effects_intros assms IsITypeImm_0) (use assms in \<open>auto simp: plain_def\<close>)
  note bne.computes_or_branches [OF this assms(1,2), where ?rs1.0 = TMP and ?rs2.0 = TMP2 and rd = rd
      and v = "\<lambda>s. get_xreg s rd + get_xreg s rs2"
      and c = "\<lambda>s. add_overflows (get_xreg s rs2) (get_xreg s rd)"]
  then show ?thesis
    using assms by (simp add: AddBranchOverflow_def overflow_simps add_overflows_iff add.commute [of "get_xreg _ rd"])
qed

lemma AddBranchOverflow_rd_rs2:
  assumes "wf_asm a" and "bound_within l a" and "plain rd" and "plain rs1" and "rd \<noteq> rs1"
  shows "computes_or_branches (AddBranchOverflow rd rs1 rd l a) rd (\<lambda>s. get_xreg s rs1 + get_xreg s rd)
    (\<lambda>s. add_overflows (get_xreg s rs1) (get_xreg s rd)) l a"
proof -
  have "assembles (4 + (4 + (4 + 0))) (seqE [slti TMP rd 0, add rd rs1 rd, slt TMP2 rd rs1] a)
    (effects [(TMP, \<lambda>s. if get_xreg s rd <s 0 then 1 else 0), (rd, \<lambda>s. get_xreg s rs1 + get_xreg s rd),
       (TMP2, \<lambda>s. if get_xreg s rd <s get_xreg s rs1 then 1 else 0)]) a"
    by (intro effects_intros assms IsITypeImm_0) (use assms in \<open>auto simp: plain_def\<close>)
  note bne.computes_or_branches [OF this assms(1,2), where ?rs1.0 = TMP and ?rs2.0 = TMP2 and rd = rd
      and v = "\<lambda>s. get_xreg s rs1 + get_xreg s rd"
      and c = "\<lambda>s. add_overflows (get_xreg s rs1) (get_xreg s rd)"]
  then show ?thesis
    using assms by (simp add: AddBranchOverflow_def overflow_simps add_overflows_iff)
qed

lemma AddBranchOverflow_rs1_rs2:
  assumes "wf_asm a" and "bound_within l a" and "plain rd" and "plain rs" and "rd \<noteq> rs"
  shows "computes_or_branches (AddBranchOverflow rd rs rs l a) rd (\<lambda>s. get_xreg s rs + get_xreg s rs)
    (\<lambda>s. add_overflows (get_xreg s rs) (get_xreg s rs)) l a"
proof -
  have "assembles (4 + (4 + 0)) (seqE [add rd rs rs, xor_rr TMP rd rs] a)
    (effects [(rd, \<lambda>s. get_xreg s rs + get_xreg s rs), (TMP, \<lambda>s. get_xreg s rd XOR get_xreg s rs)]) a"
    by (intro effects_intros assms) (use assms in \<open>auto simp: plain_def\<close>)
  note blt.computes_or_branches [OF this assms(1,2), where ?rs1.0 = TMP and ?rs2.0 = ZR and rd = rd
      and v = "\<lambda>s. get_xreg s rs + get_xreg s rs"
      and c = "\<lambda>s. add_overflows (get_xreg s rs) (get_xreg s rs)"]
  then show ?thesis
    using assms by (auto simp: AddBranchOverflow_def overflow_simps add_overflows_self)
qed

lemma AddBranchOverflow_same:
  assumes "wf_asm a" and "bound_within l a" and "plain rd"
  shows "computes_or_branches (AddBranchOverflow rd rd rd l a) rd (\<lambda>s. get_xreg s rd + get_xreg s rd)
    (\<lambda>s. add_overflows (get_xreg s rd) (get_xreg s rd)) l a"
proof -
  have "assembles (4 + (4 + (4 + 0))) (seqE [mv TMP rd, add rd rd rd, xor_rr TMP TMP rd] a)
    (effects [(TMP, \<lambda>s. get_xreg s rd), (rd, \<lambda>s. get_xreg s rd + get_xreg s rd),
      (TMP, \<lambda>s. get_xreg s TMP XOR get_xreg s rd)]) a"
    by (intro effects_intros assms) (use assms in \<open>auto simp: plain_def\<close>)
  note blt.computes_or_branches [OF this assms(1,2), where ?rs1.0 = TMP and ?rs2.0 = ZR and rd = rd
      and v = "\<lambda>s. get_xreg s rd + get_xreg s rd"
      and c = "\<lambda>s. add_overflows (get_xreg s rd) (get_xreg s rd)"]
  then show ?thesis
    using assms by (simp add: AddBranchOverflow_def overflow_simps add_overflows_self)
qed

lemma AddBranchOverflow_correct:
  assumes "wf_asm a" and "bound_within l a" and "plain rd" and "plain rs1" and "plain rs2"
  shows "computes_or_branches (AddBranchOverflow rd rs1 rs2 l a) rd (\<lambda>s. get_xreg s rs1 + get_xreg s rs2)
    (\<lambda>s. add_overflows (get_xreg s rs1) (get_xreg s rs2)) l a"
proof -
  consider "rd = rs1" "rd = rs2" | "rs1 = rs2" "rd \<noteq> rs1" | "rd = rs1" "rd \<noteq> rs2" | "rd = rs2" "rd \<noteq> rs1"
    | "rd \<noteq> rs1" "rd \<noteq> rs2" "rs1 \<noteq> rs2" by blast
  then show ?thesis
  proof cases
    case 1
    then show ?thesis using AddBranchOverflow_same [OF assms(1,2,3)] by simp
  next
    case 2
    then show ?thesis using AddBranchOverflow_rs1_rs2 [OF assms(1-4)] by simp
  next
    case 3
    then show ?thesis
      using AddBranchOverflow_rd_rs1 [OF assms(1-3,5)] by (simp add: add_overflows_commute [of "get_xreg _ rs2"])
  next
    case 4
    then show ?thesis using AddBranchOverflow_rd_rs2 [OF assms(1-4)] by simp
  next
    case 5
    then show ?thesis by (rule AddBranchOverflow_distinct [OF assms])
  qed
qed

text \<open>\<open>SubtractBranchOverflow\<close> on three different registers.\<close>

lemma SubtractBranchOverflow_distinct:
  assumes "wf_asm a" and "bound_within l a" and "plain rd" and "plain rs1" and "plain rs2"
    and "rd \<noteq> rs1" "rd \<noteq> rs2" "rs1 \<noteq> rs2"
  shows "computes_or_branches (SubtractBranchOverflow rd rs1 rs2 l a) rd (\<lambda>s. get_xreg s rs1 - get_xreg s rs2)
    (\<lambda>s. sub_overflows (get_xreg s rs1) (get_xreg s rs2)) l a"
proof -
  have "assembles (4 + (4 + (4 + 0))) (seqE [sub rd rs1 rs2, slti TMP rs2 0, slt TMP2 rs1 rd] a)
    (effects [(rd, \<lambda>s. get_xreg s rs1 - get_xreg s rs2), (TMP, \<lambda>s. if get_xreg s rs2 <s 0 then 1 else 0),
       (TMP2, \<lambda>s. if get_xreg s rs1 <s get_xreg s rd then 1 else 0)]) a"
    by (intro effects_intros assms IsITypeImm_0) (use assms in \<open>auto simp: plain_def\<close>)
  note bne.computes_or_branches [OF this assms(1,2), where ?rs1.0 = TMP and ?rs2.0 = TMP2 and rd = rd
      and v = "\<lambda>s. get_xreg s rs1 - get_xreg s rs2"
      and c = "\<lambda>s. sub_overflows (get_xreg s rs1) (get_xreg s rs2)"]
  then show ?thesis
    using assms by (simp add: SubtractBranchOverflow_def overflow_simps)
qed

text \<open>
  When \<open>rd\<close> is \<open>rs1\<close>, the code compares the difference with the subtrahend
  instead: what it branches on is not overflow.
\<close>

lemma SubtractBranchOverflow_rd_rs1:
  assumes "wf_asm a" and "bound_within l a" and "plain rd" and "plain rs2" and "rd \<noteq> rs2"
  shows "computes_or_branches (SubtractBranchOverflow rd rd rs2 l a) rd (\<lambda>s. get_xreg s rd - get_xreg s rs2)
    (\<lambda>s. (get_xreg s rd <s 0) \<noteq> (get_xreg s rd - get_xreg s rs2 <s get_xreg s rs2)) l a"
proof -
  have "assembles (4 + (4 + (4 + 0))) (seqE [slti TMP rd 0, sub rd rd rs2, slt TMP2 rd rs2] a)
    (effects [(TMP, \<lambda>s. if get_xreg s rd <s 0 then 1 else 0), (rd, \<lambda>s. get_xreg s rd - get_xreg s rs2),
       (TMP2, \<lambda>s. if get_xreg s rd <s get_xreg s rs2 then 1 else 0)]) a"
    by (intro effects_intros assms IsITypeImm_0) (use assms in \<open>auto simp: plain_def\<close>)
  note bne.computes_or_branches [OF this assms(1,2), where ?rs1.0 = TMP and ?rs2.0 = TMP2 and rd = rd
      and v = "\<lambda>s. get_xreg s rd - get_xreg s rs2"
      and c = "\<lambda>s. (get_xreg s rd <s 0) \<noteq> (get_xreg s rd - get_xreg s rs2 <s get_xreg s rs2)"]
  then show ?thesis
    using assms by (simp add: SubtractBranchOverflow_def overflow_simps)
qed

subsection \<open>Multiplication\<close>

lemma shift_63_valid: "0 <s (63 :: intptr) \<and> 63 <s (64 :: intptr)"
  by (simp add: word_sless_alt)

lemma MultiplyBranchOverflow_correct:
  assumes "wf_asm a" and "bound_within l a" and "plain rd" and "plain rs1" and "plain rs2"
  shows "computes_or_branches (MultiplyBranchOverflow rd rs1 rs2 l a) rd (\<lambda>s. get_xreg s rs1 * get_xreg s rs2)
    (\<lambda>s. mul_overflows (get_xreg s rs1) (get_xreg s rs2)) l a"
proof -
  have "assembles (4 + (4 + (4 + 0))) (seqE [mulh TMP rs1 rs2, mul rd rs1 rs2, srai TMP2 rd 63] a)
    (effects [(TMP, \<lambda>s. sim_mulh (get_xreg s rs1) (get_xreg s rs2)),
       (rd, \<lambda>s. sim_mul (get_xreg s rs1) (get_xreg s rs2)),
       (TMP2, \<lambda>s. signed_drop_bit (unat (63 :: intptr)) (get_xreg s rd))]) a"
    by (intro effects_intros assms shift_63_valid TrueI)
  note bne.computes_or_branches [OF this assms(1,2), where ?rs1.0 = TMP and ?rs2.0 = TMP2 and rd = rd
      and v = "\<lambda>s. get_xreg s rs1 * get_xreg s rs2"
      and c = "\<lambda>s. mul_overflows (get_xreg s rs1) (get_xreg s rs2)"]
  then show ?thesis
    using assms by (simp add: MultiplyBranchOverflow_def overflow_simps)
qed

lemma MultiplyImmediateBranchOverflow_correct:
  assumes "wf_asm a" and "bound_within l a" and "plain rd" and "plain rs1"
  shows "computes_or_branches (MultiplyImmediateBranchOverflow rd rs1 imm l a) rd (\<lambda>s. get_xreg s rs1 * imm)
    (\<lambda>s. mul_overflows (get_xreg s rs1) imm) l a"
proof -
  have "assembles (32 + (4 + (4 + (4 + 0))))
    (seqE [LoadImmediate TMP2 imm, mulh TMP rs1 TMP2, mul rd rs1 TMP2, srai TMP2 rd 63] a)
    (effects [(TMP2, \<lambda>s. imm), (TMP, \<lambda>s. sim_mulh (get_xreg s rs1) (get_xreg s TMP2)),
       (rd, \<lambda>s. sim_mul (get_xreg s rs1) (get_xreg s TMP2)),
       (TMP2, \<lambda>s. signed_drop_bit (unat (63 :: intptr)) (get_xreg s rd))]) a"
    by (intro effects_intros LoadImmediate_assembles assms shift_63_valid TrueI) simp
  note bne.computes_or_branches [OF this assms(1,2), where ?rs1.0 = TMP and ?rs2.0 = TMP2 and rd = rd
      and v = "\<lambda>s. get_xreg s rs1 * imm"
      and c = "\<lambda>s. mul_overflows (get_xreg s rs1) imm"]
  then show ?thesis
    using assms by (simp add: MultiplyImmediateBranchOverflow_def overflow_simps)
qed

subsection \<open>Addition of a constant\<close>

lemma no_branch:
  assumes "assembles n r f a"
  shows "branches_to r f (\<lambda>s. False) l a"
proof -
  obtain code where code: "r = Inr (append_code code a)" "runs code f"
    using assms by (auto simp: assembles_def)
  have "exits code f (\<lambda>s. False) (label_offset l a)"
    unfolding exits_def
  proof (intro allI impI)
    fix h s assume "placed code s"
    then show "\<exists>v. reaches h s ((set_xreg FAR_TMP v (f s))\<lparr>pc := pc s +
        (if False then label_offset l a else of_nat (length code))\<rparr>)"
      using runsD [OF code(2)] by (intro exI [of _ "get_xreg (f s) FAR_TMP"]) (simp add: set_get_xreg)
  qed
  then show ?thesis using code(1) by (auto simp: branches_to_def)
qed

lemma AddImmediate_effects:
  assumes "wf_asm a" and "rd \<noteq> ZR" and "rs1 \<noteq> ZR" and "rs1 \<noteq> TMP2"
  shows "assembles 36 (seqE [AddImmediate rd rs1 imm] a)
    (effects (if IsITypeImm imm then [(rd, \<lambda>s. get_xreg s rs1 + imm)]
              else [(TMP2, \<lambda>s. imm), (rd, \<lambda>s. get_xreg s rs1 + imm)])) a"
proof (rule assembles_cong)
  show "assembles 36 (seqE [AddImmediate rd rs1 imm] a)
    (\<lambda>s. set_xreg rd (get_xreg s rs1 + imm) (if IsITypeImm imm then s else set_xreg TMP2 imm s)) a"
    unfolding seqE_single AddImmediate_def by (rule AddImmediate.assembles_constant [OF assms])
qed (use assms in simp)

lemma add_overflows_sign:
  "0 <s y \<Longrightarrow> add_overflows x y \<longleftrightarrow> x + y <s x"
  "y <s 0 \<Longrightarrow> add_overflows x y \<longleftrightarrow> x <s x + y"
  using sint_ge [of x] sint_lt [of x] sint_ge [of y] sint_lt [of y]
  by (cases rule: sint_add_64 [of x y], auto simp: add_overflows_def word_sless_alt)+

definition overflow_branch :: "Register \<Rightarrow> Register \<Rightarrow> intx \<Rightarrow> label \<Rightarrow> asm_op" where
  "overflow_branch rd old imm l =
     (if 0 <s imm then blt rd old l kFarJump else if imm <s 0 then bgt rd old l kFarJump else Inr)"

lemma overflow_branch_correct:
  assumes "assembles n (seqE ops a) (effects es) a" and "wf_asm a" and "bound_within l a" and "n \<le> 131072"
    and "fst ` set es \<subseteq> {rd, TMP, TMP2}"
    and "\<And>s. get_xreg (effects es s) rd = get_xreg s rs1 + imm"
    and "\<And>s. get_xreg (effects es s) old = get_xreg s rs1"
  shows "computes_or_branches (seqE (ops @ [overflow_branch rd old imm l]) a) rd (\<lambda>s. get_xreg s rs1 + imm)
    (\<lambda>s. add_overflows (get_xreg s rs1) imm) l a"
proof -
  have "word_of_int (sint imm) = imm" by simp
  then have "imm = 0" if "sint imm = 0" using that by simp
  then consider "0 <s imm" | "imm <s 0" "\<not> 0 <s imm" | "imm = 0" "\<not> imm <s 0" "\<not> 0 <s imm"
    using less_linear [of 0 "sint imm"] by (auto simp: word_sless_alt)
  then show ?thesis
  proof cases
    case 1
    then show ?thesis
      using blt.computes_or_branches [OF assms(1-5), where ?rs1.0 = rd and ?rs2.0 = old]
      by (simp add: overflow_branch_def assms(6,7) add_overflows_sign)
  next
    case 2
    then show ?thesis
      using blt.computes_or_branches [OF assms(1-5), where ?rs1.0 = old and ?rs2.0 = rd]
      by (simp add: overflow_branch_def assms(6,7) add_overflows_sign)
  next
    case 3
    have "seqE (ops @ [overflow_branch rd old imm l]) a = seqE ops a"
      using 3 by (simp add: overflow_branch_def seqE_snoc bindE_Inr_right)
    moreover have "computes_or_branches (seqE ops a) rd (\<lambda>s. get_xreg s rs1 + imm)
        (\<lambda>s. add_overflows (get_xreg s rs1) imm) l a"
    proof (rule computes_or_branchesI [OF no_branch [OF assms(1)] _ assms(6) memory_effects])
      show "get_xreg (effects es s) q = get_xreg s q" if "q \<notin> {rd, TMP, TMP2}" for s q
        by (rule get_effects_other) (use that assms(5) in blast)
    qed (simp add: add_overflows_def 3(1))
    ultimately show ?thesis by simp
  qed
qed

text \<open>
  Correct unless \<open>rd\<close> is \<open>rs1\<close> and the constant is long: then \<open>AddImmediate\<close>
  overwrites \<open>TMP2\<close>, where the old value was kept.
\<close>

lemma AddImmediateBranchOverflow_correct:
  assumes "wf_asm a" and "bound_within l a" and "plain rd" and "plain rs1" and "rd \<noteq> rs1 \<or> IsITypeImm imm"
  shows "computes_or_branches (AddImmediateBranchOverflow rd rs1 imm l a) rd (\<lambda>s. get_xreg s rs1 + imm)
    (\<lambda>s. add_overflows (get_xreg s rs1) imm) l a"
proof (cases "rd = rs1")
  case False
  note overflow_branch_correct [OF AddImmediate_effects assms(1,2), of rd rs1 imm rd rs1 imm rs1]
  then show ?thesis
    using False assms
    by (auto simp: AddImmediateBranchOverflow_def overflow_branch_def ASSERT_def plain_def Let_def)
next
  case True
  have "assembles (4 + 36) (seqE [mv TMP2 rd, AddImmediate rd rd imm] a)
    (effects [(TMP2, \<lambda>s. get_xreg s rd), (rd, \<lambda>s. get_xreg s rd + imm)]) a"
    by (intro assembles_effects assembles_mv assms)
      (use True assms AddImmediate_effects [of _ rd rd imm] in \<open>simp add: plain_def\<close>)
  note overflow_branch_correct [OF this assms(1,2), of rd rd imm TMP2]
  then show ?thesis
    using True assms
    by (simp add: AddImmediateBranchOverflow_def overflow_branch_def ASSERT_def plain_def Let_def)
qed

lemma AddImmediateBranchOverflow_long_same:
  assumes "wf_asm a" and "bound_within l a" and "plain rd" and "\<not> IsITypeImm imm" and "0 <s imm"
  shows "computes_or_branches (AddImmediateBranchOverflow rd rd imm l a) rd (\<lambda>s. get_xreg s rd + imm)
    (\<lambda>s. get_xreg s rd + imm <s imm) l a"
proof -
  have "assembles (4 + 36) (seqE [mv TMP2 rd, AddImmediate rd rd imm] a)
    (effects [(TMP2, \<lambda>s. get_xreg s rd), (TMP2, \<lambda>s. imm), (rd, \<lambda>s. get_xreg s rd + imm)]) a"
    by (intro assembles_effects assembles_mv assms)
      (use assms AddImmediate_effects [of _ rd rd imm] in \<open>simp add: plain_def\<close>)
  note blt.computes_or_branches [OF this assms(1,2), where ?rs1.0 = rd and ?rs2.0 = TMP2 and rd = rd
      and v = "\<lambda>s. get_xreg s rd + imm" and c = "\<lambda>s. get_xreg s rd + imm <s imm"]
  then show ?thesis
    using assms by (simp add: AddImmediateBranchOverflow_def ASSERT_def plain_def Let_def)
qed

end
