(* ===== verification/Riscv_Compare.thy ===== *)
theory Riscv_Compare
  imports Riscv_Overflow
begin

text \<open>
  Deferred comparisons: \<open>CompareRegisters\<close>, \<open>CompareImmediate\<close>, \<open>TestRegisters\<close>
  and \<open>TestImmediate\<close> record an operation, \<open>SetIf\<close> and \<open>BranchIf\<close> consume it.
  The result is the condition on the operands, read as signed or unsigned words.
\<close>

unbundle bit_operations_syntax

subsection \<open>Conditions\<close>

definition condition_holds :: "Condition \<Rightarrow> u64 \<Rightarrow> u64 \<Rightarrow> bool" where
  "condition_holds condition x y =
     (if condition = EQUAL then x = y
      else if condition = NOT_EQUAL then x \<noteq> y
      else if condition = LESS then x <s y
      else if condition = LESS_EQUAL then x \<le>s y
      else if condition = GREATER_EQUAL then y \<le>s x
      else if condition = GREATER then y <s x
      else if condition = UNSIGNED_LESS then x < y
      else if condition = UNSIGNED_LESS_EQUAL then x \<le> y
      else if condition = UNSIGNED_GREATER_EQUAL then y \<le> x
      else y < x)"

definition comparable :: "Condition \<Rightarrow> bool" where
  "comparable condition \<longleftrightarrow> condition \<in> {EQUAL, NOT_EQUAL, LESS, LESS_EQUAL, GREATER_EQUAL, GREATER,
     UNSIGNED_LESS, UNSIGNED_LESS_EQUAL, UNSIGNED_GREATER_EQUAL, UNSIGNED_GREATER}"

lemmas condition_simps = comparable_def condition_holds_def

lemma InvertCondition_holds:
  assumes "comparable condition"
  shows "\<exists>inverse. InvertCondition condition = Some inverse \<and> comparable inverse \<and>
    (\<forall>x y. condition_holds inverse x y \<longleftrightarrow> \<not> condition_holds condition x y)"
  using assms
  by (auto simp: condition_simps InvertCondition_def not_less not_le word_sless_alt word_sle_eq)

subsection \<open>SetIf\<close>

abbreviation flag :: "bool \<Rightarrow> u64" where
  "flag b \<equiv> if b then 1 else 0"

lemma flag_facts:
  "flag b XOR 1 = flag (\<not> b)"
  "(x :: u64) < 1 \<longleftrightarrow> x = 0" "0 < x \<longleftrightarrow> x \<noteq> 0"
  by (auto simp: word_gt_0)

lemma xor_eq_0: "x XOR y = 0 \<longleftrightarrow> x = (y :: u64)"
  by (auto simp: bit_eq_iff bit_xor_iff)

lemma IsITypeImm_1: "IsITypeImm 1"
  by (simp add: IsITypeImm_def IsInt_iff_sint)

lemma frame_set_xreg_of: "frame (\<lambda>s. set_xreg rd (g (get_xreg s r1) (get_xreg s r2)) s)"
  by (rule frame_set_xreg; simp add: get_xreg_def)

text \<open>A flag inverted, and a difference turned into a flag.\<close>

lemma invert_flag:
  assumes "assembles m (op a) (\<lambda>s. set_xreg rd (flag (P s)) s) a" and "wf_asm a" and "rd \<noteq> ZR"
  shows "assembles (m + (4 + 0)) (seqE [op, xori rd rd 1] a) (\<lambda>s. set_xreg rd (flag (\<not> P s)) s) a"
proof (rule assembles_cong)
  show "assembles (m + (4 + 0)) (seqE [op, xori rd rd 1] a)
    (effects [(rd, \<lambda>s. flag (P s)), (rd, \<lambda>s. get_xreg s rd XOR 1)]) a"
    by (intro assembles_effects assembles_effects_Nil xori.assembles_op assms IsITypeImm_1)
qed (use assms(3) in \<open>simp add: flag_facts\<close>)

lemma zero_flags:
  assumes "wf_asm a"
  shows "assembles 4 (seqz rd rs a) (\<lambda>s. set_xreg rd (flag (get_xreg s rs = 0)) s) a"
    and "assembles 4 (snez rd rs a) (\<lambda>s. set_xreg rd (flag (get_xreg s rs \<noteq> 0)) s) a"
proof -
  show "assembles 4 (seqz rd rs a) (\<lambda>s. set_xreg rd (flag (get_xreg s rs = 0)) s) a"
    by (rule assembles_cong [OF sltiu.assembles_op [OF assms IsITypeImm_1]]) (simp add: flag_facts)
  show "assembles 4 (snez rd rs a) (\<lambda>s. set_xreg rd (flag (get_xreg s rs \<noteq> 0)) s) a"
    using frame_set_xreg_of [of rd "\<lambda>x y. flag (x \<noteq> 0)"]
    by (intro assembles_zero_cong [OF sltu.assembles_op [OF assms TrueI]])
      (simp_all add: flag_facts zero_ok_get_xreg)
qed

lemma equality_flags:
  assumes "assembles 4 (op a) (\<lambda>s. set_xreg rd (e s XOR e' s) s) a" and "wf_asm a" and "rd \<noteq> ZR"
  shows "assembles 8 (seqE [op, seqz rd rd] a) (\<lambda>s. set_xreg rd (flag (e s = e' s)) s) a"
    and "assembles 8 (seqE [op, snez rd rd] a) (\<lambda>s. set_xreg rd (flag (e s \<noteq> e' s)) s) a"
proof -
  have "assembles (4 + (4 + 0)) (seqE [op, seqz rd rd] a)
    (effects [(rd, \<lambda>s. e s XOR e' s), (rd, \<lambda>s. flag (get_xreg s rd = 0))]) a"
    by (intro assembles_effects assembles_effects_Nil zero_flags assms)
  from assembles_cong [OF this, where g = "\<lambda>s. set_xreg rd (flag (e s = e' s)) s"]
  show "assembles 8 (seqE [op, seqz rd rd] a) (\<lambda>s. set_xreg rd (flag (e s = e' s)) s) a"
    using assms(3) by (simp add: xor_eq_0)
  have "assembles (4 + (4 + 0)) (seqE [op, snez rd rd] a)
    (effects [(rd, \<lambda>s. e s XOR e' s), (rd, \<lambda>s. flag (get_xreg s rd \<noteq> 0))]) a"
    by (intro assembles_effects assembles_effects_Nil zero_flags assms)
  from assembles_cong [OF this, where g = "\<lambda>s. set_xreg rd (flag (e s \<noteq> e' s)) s"]
  show "assembles 8 (seqE [op, snez rd rd] a) (\<lambda>s. set_xreg rd (flag (e s \<noteq> e' s)) s) a"
    using assms(3) by (simp add: xor_eq_0)
qed

text \<open>Registers compared.\<close>

lemma SetIf_reg_assembles:
  assumes "wf_asm a" and "comparable condition" and "rd \<noteq> ZR"
  shows "assembles 8 (SetIf_reg condition rd left right a)
    (\<lambda>s. set_xreg rd (flag (condition_holds condition (get_xreg s left) (get_xreg s right))) s) a"
proof -
  note w = assms(1) and one = assembles_weaken [where n = 8]
  note lt = slt.assembles_op [OF w TrueI] and ltu = sltu.assembles_op [OF w TrueI]
  note eq = equality_flags [where op = "xor_rr rd left right" and e = "\<lambda>s. get_xreg s left"
      and e' = "\<lambda>s. get_xreg s right", OF xor_rr.assembles_op [OF w TrueI] w assms(3)]
  have z: "assembles 8 (seqz rd left a) (\<lambda>s. set_xreg rd (flag (get_xreg s left = get_xreg s ZR)) s) a"
    "assembles 8 (snez rd left a) (\<lambda>s. set_xreg rd (flag (get_xreg s left \<noteq> get_xreg s ZR)) s) a"
    using frame_set_xreg_of [of rd "\<lambda>x y. flag (x = y)" left ZR]
      frame_set_xreg_of [of rd "\<lambda>x y. flag (x \<noteq> y)" left ZR]
    by (intro one [OF assembles_zero_cong [OF zero_flags(1) [OF w]]]
          one [OF assembles_zero_cong [OF zero_flags(2) [OF w]]]; simp add: zero_ok_get_xreg)+
  have neg: "\<not> x <s y \<longleftrightarrow> y \<le>s x" for x y :: u64 by (auto simp: word_sless_alt word_sle_eq)
  show ?thesis
    using assms(2) one [OF lt] one [OF ltu] eq z
      invert_flag [where op = "slt rd left right" and P = "\<lambda>s. get_xreg s left <s get_xreg s right", OF lt w assms(3)]
      invert_flag [where op = "slt rd right left" and P = "\<lambda>s. get_xreg s right <s get_xreg s left", OF lt w assms(3)]
      invert_flag [where op = "sltu rd left right" and P = "\<lambda>s. get_xreg s left < get_xreg s right", OF ltu w assms(3)]
      invert_flag [where op = "sltu rd right left" and P = "\<lambda>s. get_xreg s right < get_xreg s left", OF ltu w assms(3)]
    by (auto simp: condition_simps SetIf_reg_def neg not_less)
qed

text \<open>
  A register compared with a 12-bit immediate.  The successor of \<open>- 1\<close> is not
  above it as an unsigned number, so two conditions are wrong there.
\<close>

definition immediate_comparable :: "Condition \<Rightarrow> intx \<Rightarrow> bool" where
  "immediate_comparable condition imm \<longleftrightarrow>
     comparable condition \<and>
     \<not> (imm = - 1 \<and> condition \<in> {UNSIGNED_LESS_EQUAL, UNSIGNED_GREATER})"

lemma less_successor:
  "IsITypeImm y \<Longrightarrow> x <s y + 1 \<longleftrightarrow> x \<le>s y"
  "y \<noteq> - 1 \<Longrightarrow> x < y + 1 \<longleftrightarrow> x \<le> (y :: u64)"
  "y \<noteq> - 1 \<Longrightarrow> y + 1 \<le> x \<longleftrightarrow> (y :: u64) < x"
proof -
  assume "IsITypeImm y"
  then have "- 2048 \<le> sint y" "sint y < 2048" by (simp_all add: IsITypeImm_def IsInt_iff_sint)
  then have "sint (y + 1) = sint y + 1"
    using sint_ge [of y] by (cases rule: sint_add_64 [of y 1]) simp_all
  then show "x <s y + 1 \<longleftrightarrow> x \<le>s y" by (simp add: word_sless_alt word_sle_eq)
next
  assume "y \<noteq> - 1"
  then have "1 + y \<noteq> 0" by (simp add: add_eq_0_iff)
  then have "unat (y + 1) = Suc (unat y)" using unatSuc [of y] by (simp add: add.commute)
  then show "x < y + 1 \<longleftrightarrow> x \<le> y" "y + 1 \<le> x \<longleftrightarrow> y < x"
    by (simp_all add: word_less_nat_alt word_le_nat_alt less_Suc_eq_le Suc_le_eq)
qed

lemma SetIf_imm_assembles:
  assumes "wf_asm a" and "immediate_comparable condition imm" and "rd \<noteq> ZR"
    and "IsITypeImm imm" and "IsITypeImm (imm + 1)"
  shows "assembles 8 (SetIf_imm condition rd left imm a)
    (\<lambda>s. set_xreg rd (flag (condition_holds condition (get_xreg s left) imm)) s) a"
proof -
  note w = assms(1) and one = assembles_weaken [where n = 8]
  note lt = slti.assembles_op [OF w] and ltu = sltiu.assembles_op [OF w]
  note eq = equality_flags [where op = "xori rd left imm" and e = "\<lambda>s. get_xreg s left"
      and e' = "\<lambda>s. imm", OF xori.assembles_op [OF w assms(4)] w assms(3)]
  have neg: "\<not> x <s y \<longleftrightarrow> y \<le>s x" "\<not> x \<le>s y \<longleftrightarrow> y <s x" for x y :: u64
    by (auto simp: word_sless_alt word_sle_eq)
  show ?thesis
    using assms(2) one [OF lt [OF assms(4)]] one [OF ltu [OF assms(4)]] eq
      one [OF lt [OF assms(5)]] one [OF ltu [OF assms(5)]]
      invert_flag [where op = "slti rd left imm" and P = "\<lambda>s. get_xreg s left <s imm",
        OF lt [OF assms(4)] w assms(3)]
      invert_flag [where op = "slti rd left (imm + 1)" and P = "\<lambda>s. get_xreg s left <s imm + 1",
        OF lt [OF assms(5)] w assms(3)]
      invert_flag [where op = "sltiu rd left imm" and P = "\<lambda>s. get_xreg s left < imm",
        OF ltu [OF assms(4)] w assms(3)]
      invert_flag [where op = "sltiu rd left (imm + 1)" and P = "\<lambda>s. get_xreg s left < imm + 1",
        OF ltu [OF assms(5)] w assms(3)]
    by (auto simp: immediate_comparable_def condition_simps SetIf_imm_def neg not_less
        less_successor(1) [OF assms(4)] less_successor(2,3))
qed

subsection \<open>The deferred operation\<close>

text \<open>What the recorded comparison or test means, and when \<open>TMP2\<close> may hold its operands.\<close>

definition deferred_holds :: "Condition \<Rightarrow> asm \<Rightarrow> sim \<Rightarrow> bool" where
  "deferred_holds condition a s =
     (let x = get_xreg s (deferred_left a)
      in case deferred_compare a of
           kCompareReg \<Rightarrow> condition_holds condition x (get_xreg s (deferred_reg a))
         | kCompareImm \<Rightarrow> condition_holds condition x (deferred_imm a)
         | kTestReg \<Rightarrow> condition_holds condition (x AND get_xreg s (deferred_reg a)) 0
         | kTestImm \<Rightarrow> condition_holds condition (x AND deferred_imm a) 0
         | kNone \<Rightarrow> False)"

definition wf_deferred :: "Condition \<Rightarrow> asm \<Rightarrow> bool" where
  "wf_deferred condition a \<longleftrightarrow>
     (case deferred_compare a of
        kCompareReg \<Rightarrow> comparable condition
      | kCompareImm \<Rightarrow> comparable condition \<and> deferred_left a \<noteq> TMP2
      | kTestReg \<Rightarrow> condition \<in> {EQUAL, NOT_EQUAL}
      | kTestImm \<Rightarrow> condition \<in> {EQUAL, NOT_EQUAL} \<and> deferred_left a \<noteq> TMP2 \<and> deferred_left a \<noteq> ZR
      | kNone \<Rightarrow> False)"

text \<open>
  \<open>sets_flag r rd P a\<close>: assembling succeeded and consumed the comparison; the code
  it appended leaves in \<open>rd\<close> whether \<open>P\<close> held, and changes no other register but
  \<open>TMP2\<close>.
\<close>

definition preserves :: "Register set \<Rightarrow> (sim \<Rightarrow> sim) \<Rightarrow> bool" where
  "preserves rs f \<longleftrightarrow> (\<forall>s. memory (f s) = memory s \<and> (\<forall>q. q \<notin> rs \<longrightarrow> get_xreg (f s) q = get_xreg s q))"

definition sets_flag :: "asm_error + asm \<Rightarrow> Register \<Rightarrow> (sim \<Rightarrow> bool) \<Rightarrow> asm \<Rightarrow> bool" where
  "sets_flag r rd P a \<longleftrightarrow>
     (\<exists>a' code f. r = Inr a' \<and> buffer a' = buffer a @ code \<and> deferred_compare a' = kNone \<and> runs code f \<and>
        preserves {rd, TMP2} f \<and> (\<forall>s. zero_ok s \<longrightarrow> get_xreg (f s) rd = flag (P s)))"

lemma preserves_effects: "fst ` set es \<subseteq> rs \<Longrightarrow> preserves rs (effects es)"
  unfolding preserves_def by (auto simp: memory_effects intro!: get_effects_other)

lemma preserves_set_xreg: "rd \<in> rs \<Longrightarrow> preserves rs (\<lambda>s. set_xreg rd (e s) s)"
  by (simp add: preserves_def)

lemma sets_flagI:
  assumes "assembles n r f b" and "buffer b = buffer a" and "preserves {rd, TMP2} f"
    and "\<And>s. zero_ok s \<Longrightarrow> get_xreg (f s) rd = flag (P s)"
  shows "sets_flag (bindE r (\<lambda>a. Inr (consume_compare a))) rd P a"
proof -
  obtain code where "r = Inr (append_code code b)" "runs code f"
    using assms(1) by (auto simp: assembles_def)
  then show ?thesis
    using assms(2-4) unfolding sets_flag_def
    by (intro exI [of _ "consume_compare (append_code code b)"] exI [of _ code] exI [of _ f])
      (simp add: consume_compare_def)
qed

text \<open>The operands of a test go to \<open>TMP2\<close>.\<close>

lemma deferred_and_effects:
  assumes "wf_asm a" and "deferred_compare a \<in> {kTestReg, kTestImm}" and "wf_deferred condition a"
  obtains es v where "assembles 36 (deferred_and a) (effects es) a" and "fst ` set es \<subseteq> {TMP2}"
    and "\<And>s. get_xreg (effects es s) TMP2 = get_xreg s (deferred_left a) AND v s"
    and "v = (if deferred_compare a = kTestImm then (\<lambda>s. deferred_imm a) else (\<lambda>s. get_xreg s (deferred_reg a)))"
proof (cases "deferred_compare a = kTestImm")
  case True
  let ?imm = "deferred_imm a"
  let ?left = "deferred_left a"
  let ?es = "if IsITypeImm ?imm then [(TMP2, \<lambda>s. get_xreg s ?left AND ?imm)]
             else [(TMP2, \<lambda>s. ?imm), (TMP2, \<lambda>s. get_xreg s ?left AND ?imm)]"
  have left: "?left \<noteq> TMP2" "?left \<noteq> ZR" using True assms(3) by (simp_all add: wf_deferred_def)
  have "assembles 36 (AndImmediate TMP2 ?left ?imm a) (effects ?es) a"
    unfolding AndImmediate_def
    by (rule assembles_cong [OF AndImmediate.assembles_constant [OF assms(1)]]) (use left in simp_all)
  then have "assembles 36 (deferred_and a) (effects ?es) a" using True by (simp add: deferred_and_def)
  then show ?thesis
    by (rule that [where v = "\<lambda>s. ?imm"]) (use True left in auto)
next
  case False
  let ?es = "[(TMP2, \<lambda>s. get_xreg s (deferred_left a) AND get_xreg s (deferred_reg a))]"
  have "assembles 4 (deferred_and a) (effects ?es) a"
    using assembles_cong [OF and_rr.assembles_op [OF assms(1) TrueI], of TMP2 "deferred_left a" "deferred_reg a" "effects ?es"] False
    by (simp add: deferred_and_def)
  then have "assembles 36 (deferred_and a) (effects ?es) a" by (rule assembles_weaken) simp
  then show ?thesis
    by (rule that [where v = "\<lambda>s. get_xreg s (deferred_reg a)"]) (use False in auto)
qed

lemma wf_asm_with_reg [simp]: "wf_asm (a\<lparr>deferred_compare := k, deferred_reg := r\<rparr>) = wf_asm a"
  by (simp add: wf_asm_def)

lemma sets_flag_after:
  assumes "assembles m r g a" and "wf_asm a"
    and "\<And>b. wf_asm b \<Longrightarrow> assembles n (k b) f (u b)" and "\<And>b. buffer (u b) = buffer b"
    and "preserves {rd, TMP2} (\<lambda>s. f (g s))"
    and "\<And>s. zero_ok s \<Longrightarrow> get_xreg (f (g s)) rd = flag (P s)"
  shows "sets_flag (bindE (bindE r k) (\<lambda>a. Inr (consume_compare a))) rd P a"
proof -
  obtain xs where xs: "r = Inr (append_code xs a)" "runs xs g" "frame g"
    using assms(1) by (auto simp: assembles_def)
  obtain ys where ys: "k (append_code xs a) = Inr (append_code ys (u (append_code xs a)))" "runs ys f" "frame f"
    using assms(2) assms(3) [of "append_code xs a"] by (auto simp: assembles_def)
  have "runs (xs @ ys) (\<lambda>s. f (g s))" using xs ys by (simp add: runs_append)
  then show ?thesis
    using xs(1) ys(1) assms(4-6) unfolding sets_flag_def
    by (intro exI [of _ "consume_compare (append_code ys (u (append_code xs a)))"] exI [of _ "xs @ ys"]
        exI [of _ "\<lambda>s. f (g s)"]) (simp add: consume_compare_def)
qed

lemma condition_holds_0:
  "condition_holds EQUAL x 0 \<longleftrightarrow> x = 0" "condition_holds NOT_EQUAL x 0 \<longleftrightarrow> x \<noteq> 0"
  by (simp_all add: condition_holds_def)

text \<open>
  \<open>SetIf\<close> computes the condition, but for the two unsigned conditions on the
  immediate \<open>- 1\<close>.
\<close>

lemma SetIf_test:
  assumes "wf_asm a" and "wf_deferred condition a" and "rd \<noteq> ZR"
    and "deferred_compare a \<in> {kTestReg, kTestImm}"
  shows "sets_flag (SetIf condition rd a) rd (deferred_holds condition a) a"
proof -
  obtain es v where es: "assembles 36 (deferred_and a) (effects es) a" "fst ` set es \<subseteq> {TMP2}"
    "\<And>s. get_xreg (effects es s) TMP2 = get_xreg s (deferred_left a) AND v s"
    and v: "v = (if deferred_compare a = kTestImm then (\<lambda>s. deferred_imm a) else (\<lambda>s. get_xreg s (deferred_reg a)))"
    using deferred_and_effects [OF assms(1,4,2)] by blast
  have d: "deferred_holds condition a s \<longleftrightarrow> condition_holds condition (get_xreg s (deferred_left a) AND v s) 0" for s
    using assms(4) by (auto simp: deferred_holds_def v)
  let ?k = "\<lambda>b. if condition = EQUAL then seqz rd TMP2 b else if condition = NOT_EQUAL then snez rd TMP2 b
    else Inl AsmUnreachable"
  have "condition = EQUAL \<or> condition = NOT_EQUAL"
    using assms(2,4) by (auto simp: wf_deferred_def)
  then have k: "assembles 4 (?k b) (\<lambda>s. set_xreg rd (flag (condition_holds condition (get_xreg s TMP2) 0)) s) b"
    if "wf_asm b" for b
    using zero_flags [OF that, of rd TMP2] by (auto simp: condition_holds_0)
  have "sets_flag (bindE (bindE (deferred_and a) ?k) (\<lambda>a. Inr (consume_compare a))) rd (deferred_holds condition a) a"
  proof (rule sets_flag_after [OF es(1) assms(1) k])
    show "preserves {rd, TMP2} (\<lambda>s. set_xreg rd (flag (condition_holds condition (get_xreg (effects es s) TMP2) 0)) (effects es s))"
      using preserves_effects [OF es(2)] by (simp add: preserves_def)
  qed (use assms(3) d es(3) in simp_all)
  then show ?thesis using assms(4) by (auto simp: SetIf_def ASSERT_def Let_def)
qed

lemma SetIf_correct:
  assumes "wf_asm a" and "wf_deferred condition a" and "rd \<noteq> ZR"
    and "deferred_compare a = kCompareImm \<Longrightarrow> immediate_comparable condition (deferred_imm a)"
  shows "sets_flag (SetIf condition rd a) rd (deferred_holds condition a) a"
proof (cases "deferred_compare a")
  case kNone
  then show ?thesis using assms(2) by (simp add: wf_deferred_def)
next
  case kTestReg
  then show ?thesis using SetIf_test [OF assms(1-3)] by simp
next
  case kTestImm
  then show ?thesis using SetIf_test [OF assms(1-3)] by simp
next
  case kCompareReg
  have c: "comparable condition" using assms(2) kCompareReg by (simp add: wf_deferred_def)
  have "sets_flag (bindE (SetIf_reg condition rd (deferred_left a) (deferred_reg a) a)
      (\<lambda>a. Inr (consume_compare a))) rd (deferred_holds condition a) a"
    by (rule sets_flagI [OF SetIf_reg_assembles [OF assms(1) c assms(3)] refl])
      (use assms(3) kCompareReg in \<open>simp_all add: deferred_holds_def preserves_set_xreg\<close>)
  then show ?thesis using kCompareReg by (simp add: SetIf_def ASSERT_def)
next
  case kCompareImm
  let ?imm = "deferred_imm a" and ?left = "deferred_left a"
  have c: "comparable condition" and left: "?left \<noteq> TMP2"
    using assms(2) kCompareImm by (simp_all add: wf_deferred_def)
  note reg = SetIf_reg_assembles [OF _ c assms(3)]
  have d: "deferred_holds condition a s \<longleftrightarrow> condition_holds condition (get_xreg s ?left) ?imm" for s
    using kCompareImm by (simp add: deferred_holds_def)
  consider (zero) "?imm = 0" | (long) "?imm \<noteq> 0" "\<not> IsITypeImm ?imm \<or> \<not> IsITypeImm (?imm + 1)"
    | (short) "?imm \<noteq> 0" "IsITypeImm ?imm" "IsITypeImm (?imm + 1)" by blast
  then show ?thesis
  proof cases
    case zero
    let ?b = "a\<lparr>deferred_compare := kCompareReg, deferred_reg := ZR\<rparr>"
    have "sets_flag (bindE (SetIf_reg condition rd ?left ZR ?b) (\<lambda>a. Inr (consume_compare a))) rd
        (deferred_holds condition a) a"
      by (rule sets_flagI [OF reg]) (use assms zero d in \<open>simp_all add: preserves_set_xreg zero_ok_get_xreg\<close>)
    then show ?thesis using kCompareImm zero by (simp add: SetIf_def ASSERT_def Let_def)
  next
    case long
    let ?u = "\<lambda>b. b\<lparr>deferred_compare := kCompareReg, deferred_reg := TMP2\<rparr>"
    have k: "assembles 8 (SetIf_reg condition rd ?left TMP2 (?u b))
      (\<lambda>s. set_xreg rd (flag (condition_holds condition (get_xreg s ?left) (get_xreg s TMP2))) s) (?u b)"
      if "wf_asm b" for b
      by (rule reg) (simp add: that)
    have "sets_flag (bindE (bindE (LoadImmediate TMP2 ?imm a) (\<lambda>b. SetIf_reg condition rd ?left TMP2 (?u b)))
        (\<lambda>a. Inr (consume_compare a))) rd (deferred_holds condition a) a"
      by (rule sets_flag_after [OF LoadImmediate_assembles [OF assms(1)] assms(1) k])
        (use assms left d in \<open>simp_all add: preserves_def\<close>)
    then show ?thesis using kCompareImm long by (auto simp: SetIf_def ASSERT_def Let_def)
  next
    case short
    have "sets_flag (bindE (SetIf_imm condition rd ?left ?imm a) (\<lambda>a. Inr (consume_compare a))) rd
        (deferred_holds condition a) a"
      by (rule sets_flagI [OF SetIf_imm_assembles [OF assms(1) assms(4) [OF kCompareImm] assms(3) short(2,3)] refl])
        (use assms(3) d in \<open>simp_all add: preserves_set_xreg\<close>)
    then show ?thesis using kCompareImm short by (simp add: SetIf_def ASSERT_def Let_def)
  qed
qed

subsection \<open>BranchIf\<close>

definition takes_branch :: "asm_error + asm \<Rightarrow> (sim \<Rightarrow> bool) \<Rightarrow> label \<Rightarrow> asm \<Rightarrow> bool" where
  "takes_branch r P l a \<longleftrightarrow>
     (\<exists>a' code f. r = Inr a' \<and> buffer a' = buffer a @ code \<and> deferred_compare a' = kNone \<and>
        exits code f P (label_offset l a) \<and> preserves {TMP2} f)"

lemma takes_branchI:
  assumes "branches_to r f P l a" and "preserves {TMP2} f"
  shows "takes_branch (bindE r (\<lambda>a. Inr (consume_compare a))) P l a"
proof -
  obtain code where "r = Inr (append_code code a)" "exits code f P (label_offset l a)"
    using assms(1) by (auto simp: branches_to_def)
  then show ?thesis
    using assms(2) unfolding takes_branch_def
    by (intro exI [of _ "consume_compare (append_code code a)"] exI [of _ code] exI [of _ f])
      (simp add: consume_compare_def)
qed

text \<open>A branch on a condition after straight-line code.\<close>

lemma branch_compare_after:
  assumes "assembles n r f a" and "wf_asm a" and "bound_within l a" and "n \<le> 131072" and "comparable condition"
  shows "branches_to (bindE r (branch_compare condition left right l kFarJump)) f
    (\<lambda>s. condition_holds condition (get_xreg (f s) left) (get_xreg (f s) right)) l a"
  using assms(5) beq.branches_after [OF assms(1-4)] bne.branches_after [OF assms(1-4)]
    blt.branches_after [OF assms(1-4)] bge.branches_after [OF assms(1-4)]
    bltu.branches_after [OF assms(1-4)] bgeu.branches_after [OF assms(1-4)]
  unfolding comparable_def
  by (elim insertE emptyE) (simp_all add: branch_compare_def [abs_def] condition_holds_def)

lemma branch_compare_now:
  assumes "wf_asm a" and "bound_within l a" and "comparable condition"
  shows "branches_to (branch_compare condition left right l kFarJump a) (\<lambda>s. s)
    (\<lambda>s. condition_holds condition (get_xreg s left) (get_xreg s right)) l a"
  using branch_compare_after [OF assembles_Inr assms(1,2) _ assms(3), of left right] by simp

lemma preserves_id: "preserves rs (\<lambda>s. s)"
  by (simp add: preserves_def)

lemma BranchIf_test:
  assumes "wf_asm a" and "bound_within l a" and "wf_deferred condition a"
    and "deferred_compare a \<in> {kTestReg, kTestImm}"
  shows "\<exists>f. branches_to (BranchIf_code condition l kFarJump a) f (deferred_holds condition a) l a \<and> preserves {TMP2} f"
proof -
  obtain es v where es: "assembles 36 (deferred_and a) (effects es) a" "fst ` set es \<subseteq> {TMP2}"
    "\<And>s. get_xreg (effects es s) TMP2 = get_xreg s (deferred_left a) AND v s"
    and v: "v = (if deferred_compare a = kTestImm then (\<lambda>s. deferred_imm a) else (\<lambda>s. get_xreg s (deferred_reg a)))"
    using deferred_and_effects [OF assms(1,4,3)] by blast
  have d: "deferred_holds condition a s \<longleftrightarrow> condition_holds condition (get_xreg s (deferred_left a) AND v s) 0" for s
    using assms(4) by (auto simp: deferred_holds_def v)
  have c: "condition = EQUAL \<or> condition = NOT_EQUAL" using assms(3,4) by (auto simp: wf_deferred_def)
  let ?test = "\<lambda>s. condition_holds condition (get_xreg (effects es s) TMP2) (get_xreg (effects es s) ZR)"
  have b: "branches_to (bindE (deferred_and a) (branch_compare condition TMP2 ZR l kFarJump)) (effects es) ?test l a"
    by (rule branch_compare_after [OF es(1) assms(1,2)]) (use c in \<open>auto simp: comparable_def\<close>)
  have z: "get_xreg (effects es s) ZR = get_xreg s ZR" for s
    by (rule get_effects_other) (use es(2) in auto)
  have "branches_to (bindE (deferred_and a) (branch_compare condition TMP2 ZR l kFarJump)) (effects es)
      (deferred_holds condition a) l a"
    by (rule branches_to_cong [OF b]) (simp add: d es(3) z zero_ok_get_xreg)
  moreover have "BranchIf_code condition l kFarJump a = bindE (deferred_and a) (branch_compare condition TMP2 ZR l kFarJump)"
    using assms(4) c by (auto simp: BranchIf_code_def branch_compare_def [abs_def])
  ultimately show ?thesis using preserves_effects [OF es(2)] by auto
qed

lemma BranchIf_correct:
  assumes "wf_asm a" and "bound_within l a" and "wf_deferred condition a"
  shows "takes_branch (BranchIf condition l kFarJump a) (deferred_holds condition a) l a"
proof -
  have "\<exists>f. branches_to (BranchIf_code condition l kFarJump a) f (deferred_holds condition a) l a \<and> preserves {TMP2} f"
  proof (cases "deferred_compare a")
    case kNone
    then show ?thesis using assms(3) by (simp add: wf_deferred_def)
  next
    case kCompareReg
    then show ?thesis
      using branch_compare_now [OF assms(1,2)] assms(3)
      by (intro exI [of _ "\<lambda>s. s"])
        (simp add: BranchIf_code_def deferred_holds_def [abs_def] wf_deferred_def preserves_id)
  next
    case kCompareImm
    let ?imm = "deferred_imm a" and ?left = "deferred_left a"
    have c: "comparable condition" and left: "?left \<noteq> TMP2"
      using assms(3) kCompareImm by (simp_all add: wf_deferred_def)
    have d: "deferred_holds condition a = (\<lambda>s. condition_holds condition (get_xreg s ?left) ?imm)"
      using kCompareImm by (simp add: deferred_holds_def [abs_def])
    show ?thesis
    proof (cases "?imm = 0")
      case True
      have "branches_to (BranchIf_code condition l kFarJump a) (\<lambda>s. s) (deferred_holds condition a) l a"
        using branches_to_cong [OF branch_compare_now [OF assms(1,2) c, of ?left ZR]] kCompareImm True
        by (simp add: BranchIf_code_def d zero_ok_get_xreg)
      then show ?thesis using preserves_id by blast
    next
      case False
      have "branches_to (BranchIf_code condition l kFarJump a) (set_xreg TMP2 ?imm) (deferred_holds condition a) l a"
        using branch_compare_after [OF LoadImmediate_assembles [OF assms(1)] assms(1,2) _ c, of TMP2 ?imm ?left TMP2]
          kCompareImm False left
        by (simp add: BranchIf_code_def d)
      then show ?thesis using preserves_set_xreg [of TMP2 "{TMP2}" "\<lambda>s. ?imm"] by blast
    qed
  qed (use BranchIf_test [OF assms] in simp_all)
  then show ?thesis
    using assms(3) takes_branchI
    by (auto simp: BranchIf_def ASSERT_def wf_deferred_def split: DeferredCompareType.splits)
qed

end
