(* ===== verification/Riscv_Stack.thy ===== *)
theory Riscv_Stack
  imports Riscv_Compare
begin

text \<open>
  Code that accesses memory.  A guarded effect is a partial function on states
  that takes a set of protected addresses: it is undefined where the simulator
  rejects an access and where a store would hit a protected address.  Code whose
  own bytes are protected has its effect; pieces of code compose.  With this, the
  stack operations are inverse to each other: push and pop, \<open>EnterFrame\<close> and
  \<open>LeaveFrame\<close>.
\<close>

unbundle bit_operations_syntax

subsection \<open>Guarded effects\<close>

type_synonym guarded = "u64 set \<Rightarrow> sim \<Rightarrow> sim option"

definition guarded_effect :: "guarded \<Rightarrow> bool" where
  "guarded_effect X \<longleftrightarrow>
     (\<forall>P s t. X P s = Some t \<longrightarrow> (\<forall>x \<in> P. memory t x = memory s x) \<and> zero_ok t = zero_ok s) \<and>
     (\<forall>P s p k. X P (s\<lparr>pc := p, instret := k\<rparr>) = map_option (\<lambda>t. t\<lparr>pc := p, instret := k\<rparr>) (X P s)) \<and>
     (\<forall>P Q s t. X P s = Some t \<longrightarrow> Q \<subseteq> P \<longrightarrow> X Q s = Some t)"

definition seqG :: "guarded \<Rightarrow> guarded \<Rightarrow> guarded" where
  "seqG X Y P s = Option.bind (X P s) (Y P)"

definition pureG :: "(sim \<Rightarrow> sim) \<Rightarrow> guarded" where
  "pureG f P s = Some (f s)"

definition readG :: "nat \<Rightarrow> (Register \<Rightarrow> u64 \<Rightarrow> sim \<Rightarrow> sim) \<Rightarrow> Register \<Rightarrow> Register \<Rightarrow> intptr \<Rightarrow> guarded" where
  "readG sz put rd base imm P s =
     (case MemoryRead sz (get_xreg s base + imm) base s of Inl e \<Rightarrow> None | Inr v \<Rightarrow> Some (put rd v s))"

definition area :: "u64 \<Rightarrow> nat \<Rightarrow> u64 set" where
  "area p n = {p + of_nat i |i. i < n}"

definition writeG :: "nat \<Rightarrow> (sim \<Rightarrow> Register \<Rightarrow> u64) \<Rightarrow> Register \<Rightarrow> Register \<Rightarrow> intptr \<Rightarrow> guarded" where
  "writeG sz get rs2 base imm P s =
     (let addr = get_xreg s base + imm
      in if area addr sz \<inter> P \<noteq> {} then None
         else case MemoryWrite sz addr (get s rs2) base s of Inl e \<Rightarrow> None | Inr t \<Rightarrow> Some t)"

lemma area_image: "area p n = (\<lambda>i. p + of_nat i) ` {..<n}"
  by (auto simp: area_def)

lemma area_append: "area p (m + n) = area p m \<union> area (p + of_nat m) n"
proof -
  have "{..<m + n} = {..<m} \<union> (\<lambda>i. m + i) ` {..<n}"
    by (simp add: lessThan_atLeast0 image_add_atLeastLessThan ivl_disj_un_two(3) add.commute)
  then show ?thesis unfolding area_image by (simp add: image_Un image_image add.assoc)
qed

lemma guardedD:
  assumes "guarded_effect X"
  shows "X P s = Some t \<Longrightarrow> x \<in> P \<Longrightarrow> memory t x = memory s x"
    and "X P s = Some t \<Longrightarrow> zero_ok t = zero_ok s"
    and "X P (s\<lparr>pc := p, instret := k\<rparr>) = map_option (\<lambda>t. t\<lparr>pc := p, instret := k\<rparr>) (X P s)"
    and "X P s = Some t \<Longrightarrow> Q \<subseteq> P \<Longrightarrow> X Q s = Some t"
  using assms unfolding guarded_effect_def by blast+

lemma guarded_pure: "frame f \<Longrightarrow> guarded_effect (pureG f)"
  by (simp add: guarded_effect_def pureG_def frame_simps)

lemma guarded_seq:
  assumes X: "guarded_effect X" and Y: "guarded_effect Y"
  shows "guarded_effect (seqG X Y)"
  unfolding guarded_effect_def
proof (intro conjI allI impI)
  fix P Q s t assume "seqG X Y P s = Some t"
  then obtain u where u: "X P s = Some u" "Y P u = Some t" by (auto simp: seqG_def bind_eq_Some_conv)
  show "\<forall>x\<in>P. memory t x = memory s x" using guardedD(1) [OF X u(1)] guardedD(1) [OF Y u(2)] by simp
  show "zero_ok t = zero_ok s" using guardedD(2) [OF X u(1)] guardedD(2) [OF Y u(2)] by simp
  show "seqG X Y Q s = Some t" if "Q \<subseteq> P"
    using guardedD(4) [OF X u(1) that] guardedD(4) [OF Y u(2) that] by (simp add: seqG_def)
next
  fix P s p k
  show "seqG X Y P (s\<lparr>pc := p, instret := k\<rparr>) = map_option (\<lambda>t. t\<lparr>pc := p, instret := k\<rparr>) (seqG X Y P s)"
    unfolding seqG_def guardedD(3) [OF X] by (cases "X P s") (simp_all add: guardedD(3) [OF Y])
qed

lemma CheckAccess_pc [simp]: "CheckAccess sz addr base (s\<lparr>pc := p, instret := k\<rparr>) = CheckAccess sz addr base s"
  by (simp add: CheckAccess_def get_xreg_def)

lemma guarded_read:
  assumes "\<And>v s. memory (put rd v s) = memory s" and "\<And>v s. zero_ok (put rd v s) = zero_ok s"
    and "\<And>v s p k. put rd v (s\<lparr>pc := p, instret := k\<rparr>) = (put rd v s)\<lparr>pc := p, instret := k\<rparr>"
  shows "guarded_effect (readG sz put rd base imm)"
  using assms
  by (auto simp: guarded_effect_def readG_def MemoryRead_def get_xreg_def split: option.splits sum.splits)

lemma guarded_write:
  assumes "\<And>s p k. get (s\<lparr>pc := p, instret := k\<rparr>) rs2 = get s rs2"
  shows "guarded_effect (writeG sz get rs2 base imm)"
proof -
  have other: "store sz addr v m x = m x" if "area addr sz \<inter> P = {}" "x \<in> P" for addr v m x P
    by (rule store_other) (use that in \<open>auto simp: area_def\<close>)
  show ?thesis
    using other assms
    by (auto simp: guarded_effect_def writeG_def MemoryWrite_def Let_def get_xreg_def zero_ok_def
        split: option.splits sum.splits if_splits)
qed

subsection \<open>Code with a guarded effect\<close>

definition transforms :: "nat \<Rightarrow> asm_error + asm \<Rightarrow> guarded \<Rightarrow> asm \<Rightarrow> bool" where
  "transforms n r X a \<longleftrightarrow>
     (\<exists>code. r = Inr (append_code code a) \<and> length code \<le> n \<and>
        (\<forall>h s t. placed code s \<longrightarrow> X (area (pc s) (length code)) s = Some t \<longrightarrow>
           reaches h s (t\<lparr>pc := pc s + of_nat (length code)\<rparr>))) \<and>
     guarded_effect X"

lemma transforms_assembles: "assembles n r f a \<Longrightarrow> transforms n r (pureG f) a"
  unfolding assembles_def transforms_def by (auto simp: guarded_pure runs_def pureG_def)

lemma transforms_mono: "transforms m r X a \<Longrightarrow> m \<le> n \<Longrightarrow> transforms n r X a"
  unfolding transforms_def by (elim conjE exE) (intro conjI exI, assumption, rule le_trans)

lemma code_at_area:
  assumes "code_at m p code" and "\<And>x. x \<in> area p (length code) \<Longrightarrow> m' x = m x"
  shows "code_at m' p code"
  using assms
proof (induction code arbitrary: p)
  case (Cons b bs)
  have "area (p + 1) (length bs) \<subseteq> area p (length (b # bs))"
    using area_append [of p 1 "length bs"] by simp
  moreover have "p \<in> area p (length (b # bs))" by (auto simp: area_def intro: exI [of _ 0])
  ultimately show ?case using Cons by auto
qed simp

lemma transforms_bindE:
  assumes "transforms m r X a" and "wf_asm a" and "\<And>b. wf_asm b \<Longrightarrow> transforms n (k b) Y b"
  shows "transforms (m + n) (bindE r k) (seqG X Y) a"
proof -
  obtain xs where xs: "r = Inr (append_code xs a)" "length xs \<le> m" and X: "guarded_effect X"
    and x: "\<And>h s t. placed xs s \<Longrightarrow> X (area (pc s) (length xs)) s = Some t \<Longrightarrow>
      reaches h s (t\<lparr>pc := pc s + of_nat (length xs)\<rparr>)"
    using assms(1) unfolding transforms_def by blast
  obtain ys where ys: "k (append_code xs a) = Inr (append_code ys (append_code xs a))" "length ys \<le> n"
    and Y: "guarded_effect Y"
    and y: "\<And>h s t. placed ys s \<Longrightarrow> Y (area (pc s) (length ys)) s = Some t \<Longrightarrow>
      reaches h s (t\<lparr>pc := pc s + of_nat (length ys)\<rparr>)"
    using assms(3) [of "append_code xs a"] assms(2) unfolding transforms_def by auto
  have "reaches h s (t\<lparr>pc := pc s + of_nat (length (xs @ ys))\<rparr>)"
    if p: "placed (xs @ ys) s" and t: "seqG X Y (area (pc s) (length (xs @ ys))) s = Some t" for h s t
  proof -
    let ?P = "area (pc s) (length (xs @ ys))"
    have P: "?P = area (pc s) (length xs) \<union> area (pc s + of_nat (length xs)) (length ys)"
      by (simp add: area_append)
    obtain u where u: "X ?P s = Some u" "Y ?P u = Some t" using t by (auto simp: seqG_def bind_eq_Some_conv)
    have "X (area (pc s) (length xs)) s = Some u" by (rule guardedD(4) [OF X u(1)]) (simp add: area_append)
    from x [OF placed_append(1) [OF p] this, of h] obtain j
      where j: "(loop_step h)\<^sup>*\<^sup>* s (u\<lparr>pc := pc s + of_nat (length xs), instret := j\<rparr>)" by (auto simp: reaches_def)
    let ?u = "u\<lparr>pc := pc s + of_nat (length xs), instret := j\<rparr>"
    have "code_at (memory u) (pc s + of_nat (length xs)) ys"
      by (rule code_at_area [where m = "memory s"])
        (use p P guardedD(1) [OF X u(1)] in \<open>auto simp: placed_def code_at_append\<close>)
    then have "placed ys ?u"
      using p guardedD(2) [OF X u(1)] by (auto simp: placed_def unat_pc_add)
    moreover have "Y (area (pc ?u) (length ys)) u = Some t"
      by (rule guardedD(4) [OF Y u(2)]) (simp add: area_append)
    then have "Y (area (pc ?u) (length ys)) ?u = Some (t\<lparr>pc := pc s + of_nat (length xs), instret := j\<rparr>)"
      by (simp add: guardedD(3) [OF Y])
    ultimately have "reaches h ?u ((t\<lparr>pc := pc s + of_nat (length xs), instret := j\<rparr>)
        \<lparr>pc := pc ?u + of_nat (length ys)\<rparr>)"
      by (rule y)
    moreover have "(t\<lparr>pc := pc s + of_nat (length xs), instret := j\<rparr>)\<lparr>pc := pc ?u + of_nat (length ys)\<rparr> =
        (t\<lparr>pc := pc s + of_nat (length (xs @ ys))\<rparr>)\<lparr>instret := j\<rparr>" by (simp add: add.assoc)
    ultimately have "reaches h ?u (t\<lparr>pc := pc s + of_nat (length (xs @ ys))\<rparr>)"
      by (simp only: reaches_instret)
    then show ?thesis by (rule reaches_then [OF j])
  qed
  then show ?thesis
    using xs ys guarded_seq [OF X Y] unfolding transforms_def
    by (intro conjI exI [of _ "xs @ ys"]) (auto simp: append_code_append)
qed

lemma transforms_Nil: "transforms 0 (seqE [] a) (pureG (\<lambda>s. s)) a"
  using transforms_assembles [OF assembles_Inr] by simp

lemma transforms_Cons:
  assumes "transforms m (op a) X a" and "wf_asm a" and "\<And>b. wf_asm b \<Longrightarrow> transforms n (seqE ops b) Y b"
  shows "transforms (m + n) (seqE (op # ops) a) (seqG X Y) a"
  using transforms_bindE [OF assms] by simp

text \<open>Loads and stores.\<close>

lemma emits_transforms:
  assumes e: "emits r X a" and g: "guarded_effect G"
    and X: "\<And>P h s t. G P s = Some t \<Longrightarrow> X h s = Inr t \<and> pc t = pc s"
  shows "transforms 4 r G a"
proof -
  obtain code where c: "r = Inr (append_code code a)" "step_is code (in_sequence X code)" "length code \<le> 4"
    using e by (auto simp: emits_def)
  have "reaches h s (t\<lparr>pc := pc s + of_nat (length code)\<rparr>)"
    if p: "placed code s" and t: "G (area (pc s) (length code)) s = Some t" for h s t
  proof (rule step_is_reaches [OF c(2) p])
    show "in_sequence X code h s = Inr (t\<lparr>pc := pc s + of_nat (length code)\<rparr>)"
      using X [OF t, of h] by (simp add: in_sequence_def pc_add_def)
  qed
  then show ?thesis using c g unfolding transforms_def by blast
qed

context load_op
begin

lemma transforms_load:
  assumes "wf_asm a" and "IsITypeImm imm" and "guarded_effect (readG sz put rd base imm)"
  shows "transforms 4 (op rd (Address base imm) a) (readG sz put rd base imm) a"
  by (rule emits_transforms [OF emits_op [OF assms(1,2)] assms(3)])
    (auto simp: readG_def put_pc split: sum.splits)

end

context store_op
begin

lemma transforms_store:
  assumes "wf_asm a" and "IsSTypeImm imm" and "guarded_effect (writeG sz get rs2 base imm)"
  shows "transforms 4 (op rs2 (Address base imm) a) (writeG sz get rs2 base imm) a"
  by (rule emits_transforms [OF emits_op [OF assms(1,2)] assms(3)])
    (auto simp: writeG_def Let_def MemoryWrite_pc split: sum.splits if_splits)

end

lemma guarded_integer:
  "guarded_effect (readG 8 set_xreg rd base imm)" "guarded_effect (writeG 8 get_xreg rs2 base imm)"
  by (rule guarded_read; simp add: set_xreg_update) (rule guarded_write; simp add: get_xreg_def)

lemma guarded_double:
  "guarded_effect (readG 8 set_fregd rd base imm)" "guarded_effect (writeG 8 get_fregd rs2 base imm)"
  by (rule guarded_read; simp add: set_fregd_def) (rule guarded_write; simp add: get_fregd_def)

lemma transforms_lx: "wf_asm a \<Longrightarrow> IsITypeImm imm \<Longrightarrow>
    transforms 4 (lx rd (Address base imm) a) (readG 8 set_xreg rd base imm) a"
  by (rule ld.transforms_load) (simp_all add: guarded_integer)

lemma transforms_sx: "wf_asm a \<Longrightarrow> IsITypeImm imm \<Longrightarrow>
    transforms 4 (sx rs2 (Address base imm) a) (writeG 8 get_xreg rs2 base imm) a"
  by (rule sd.transforms_store) (simp_all add: guarded_integer IsITypeImm_def IsSTypeImm_def)

lemma transforms_fld: "wf_asm a \<Longrightarrow> IsITypeImm imm \<Longrightarrow>
    transforms 4 (fld rd (Address base imm) a) (readG 8 set_fregd rd base imm) a"
  by (rule fld.transforms_load) (simp_all add: guarded_double)

lemma transforms_fsd: "wf_asm a \<Longrightarrow> IsITypeImm imm \<Longrightarrow>
    transforms 4 (fsd rs2 (Address base imm) a) (writeG 8 get_fregd rs2 base imm) a"
  by (rule fsd.transforms_store) (simp_all add: guarded_double IsITypeImm_def IsSTypeImm_def)

lemma transforms_addi: "wf_asm a \<Longrightarrow> IsITypeImm imm \<Longrightarrow>
    transforms 4 (addi rd rs1 imm a) (pureG (\<lambda>s. set_xreg rd (get_xreg s rs1 + imm) s)) a"
  by (intro transforms_assembles addi.assembles_op)

lemmas transforms_intros = transforms_Cons transforms_Nil transforms_lx transforms_sx transforms_fld
  transforms_fsd transforms_addi

subsection \<open>Push and pop\<close>

lemma IsITypeImm_small: "IsITypeImm 0" "IsITypeImm 8" "IsITypeImm (- 8)" "IsITypeImm 16" "IsITypeImm (- 16)"
  by (simp_all add: IsITypeImm_def IsInt_iff_sint)

text \<open>A word of the stack is free for a push: inside the stack and apart from protected memory.\<close>

definition free_slot :: "u64 \<Rightarrow> u64 set \<Rightarrow> sim \<Rightarrow> bool" where
  "free_slot addr P s \<longleftrightarrow> addr + 8 \<le> stack_base s \<and> area addr 8 \<inter> P = {}"

definition push :: "(sim \<Rightarrow> u64) \<Rightarrow> sim \<Rightarrow> sim" where
  "push v s = (let sp = get_xreg s SP - 8 in (set_xreg SP sp s)\<lparr>memory := store 8 sp (v s) (memory s)\<rparr>)"

definition pop :: "Register \<Rightarrow> sim \<Rightarrow> sim" where
  "pop r s = set_xreg SP (get_xreg s SP + 8) (set_xreg r (load 8 (memory s) (get_xreg s SP)) s)"

lemma PushRegister_transforms:
  assumes "wf_asm a" and "r \<noteq> SP"
  shows "transforms 8 (PushRegister r a)
    (\<lambda>P s. if free_slot (get_xreg s SP - 8) P s then Some (push (\<lambda>s. get_xreg s r) s) else None) a"
proof -
  have "transforms (4 + (4 + 0)) (seqE [subi SP SP 8, sx r (Address SP 0)] a)
    (seqG (pureG (\<lambda>s. set_xreg SP (get_xreg s SP + - 8) s)) (seqG (writeG 8 get_xreg r SP 0) (pureG (\<lambda>s. s)))) a"
    by (intro transforms_intros assms IsITypeImm_small)
  moreover have "seqG (pureG (\<lambda>s. set_xreg SP (get_xreg s SP + - 8) s)) (seqG (writeG 8 get_xreg r SP 0) (pureG (\<lambda>s. s)))
    = (\<lambda>P s. if free_slot (get_xreg s SP - 8) P s then Some (push (\<lambda>s. get_xreg s r) s) else None)"
    using assms(2)
    by (intro ext) (auto simp: seqG_def pureG_def writeG_def Let_def MemoryWrite_def CheckAccess_def free_slot_def
        push_def not_less)
  ultimately show ?thesis using assms(2) by (simp add: PushRegister_def ASSERT_def)
qed

lemma PopRegister_transforms:
  assumes "wf_asm a" and "r \<noteq> SP"
  shows "transforms 8 (PopRegister r a)
    (\<lambda>P s. if get_xreg s SP + 8 \<le> stack_base s then Some (pop r s) else None) a"
proof -
  have "transforms (4 + (4 + 0)) (seqE [lx r (Address SP 0), addi SP SP 8] a)
    (seqG (readG 8 set_xreg r SP 0) (seqG (pureG (\<lambda>s. set_xreg SP (get_xreg s SP + 8) s)) (pureG (\<lambda>s. s)))) a"
    by (intro transforms_intros assms IsITypeImm_small)
  moreover have "seqG (readG 8 set_xreg r SP 0) (seqG (pureG (\<lambda>s. set_xreg SP (get_xreg s SP + 8) s)) (pureG (\<lambda>s. s)))
    = (\<lambda>P s. if get_xreg s SP + 8 \<le> stack_base s then Some (pop r s) else None)"
    using assms(2)
    by (intro ext) (auto simp: seqG_def pureG_def readG_def MemoryRead_def CheckAccess_def pop_def not_less)
  ultimately show ?thesis using assms(2) by (simp add: PopRegister_def ASSERT_def)
qed

text \<open>What is pushed is popped.\<close>

lemma load_store_8: "load 8 (store 8 addr v m) addr = v"
  using load_store [of 8 addr v m] by (simp add: take_bit_word_eq_self)

lemma pop_push:
  assumes "r \<noteq> SP"
  shows "pop r (push v s) = (set_xreg r (v s) s)\<lparr>memory := store 8 (get_xreg s SP - 8) (v s) (memory s)\<rparr>"
proof -
  have sp: "(xregs s)(SP := x, r := v s, SP := xregs s SP) = (xregs s)(r := v s)" for x
    using assms by (auto simp: fun_eq_iff)
  show ?thesis
    using assms by (auto simp: pop_def push_def Let_def set_xreg_def get_xreg_def load_store_8 sp)
qed

lemma push_pop_transforms:
  assumes "wf_asm a" and "r \<noteq> SP" and "q \<noteq> SP"
  shows "transforms 16 (bindE (PushRegister r a) (PopRegister q))
    (\<lambda>P s. if free_slot (get_xreg s SP - 8) P s \<and> get_xreg s SP \<le> stack_base s
       then Some ((set_xreg q (get_xreg s r) s)
              \<lparr>memory := store 8 (get_xreg s SP - 8) (get_xreg s r) (memory s)\<rparr>) else None) a"
proof -
  note transforms_bindE [OF PushRegister_transforms [OF assms(1,2)] assms(1) PopRegister_transforms [OF _ assms(3)]]
  moreover have "seqG (\<lambda>P s. if free_slot (get_xreg s SP - 8) P s then Some (push (\<lambda>s. get_xreg s r) s) else None)
      (\<lambda>P s. if get_xreg s SP + 8 \<le> stack_base s then Some (pop q s) else None)
    = (\<lambda>P s. if free_slot (get_xreg s SP - 8) P s \<and> get_xreg s SP \<le> stack_base s
       then Some ((set_xreg q (get_xreg s r) s)
              \<lparr>memory := store 8 (get_xreg s SP - 8) (get_xreg s r) (memory s)\<rparr>) else None)"
    using assms(3)
    by (intro ext) (auto simp: seqG_def pop_push, simp_all add: push_def Let_def)
  ultimately show ?thesis by simp
qed

subsection \<open>Frames\<close>

text \<open>The frame of a function: return address and caller's frame pointer above the locals.\<close>

definition enter_frame :: "u64 \<Rightarrow> sim \<Rightarrow> sim" where
  "enter_frame frame_size s =
     (let sp = get_xreg s SP
      in (set_xreg FP (sp - 16) (set_xreg SP (sp - (frame_size + 16)) s))
           \<lparr>memory := store 8 (sp - 16) (get_xreg s FP) (store 8 (sp - 8) (get_xreg s RA) (memory s))\<rparr>)"

definition frame_free :: "u64 \<Rightarrow> u64 set \<Rightarrow> sim \<Rightarrow> bool" where
  "frame_free frame_size P s \<longleftrightarrow>
     (let sp = get_xreg s SP; bottom = sp - (frame_size + 16)
      in bottom \<le> sp - 16 \<and> bottom \<le> sp - 8 \<and> sp - 8 \<le> stack_base s \<and> sp \<le> stack_base s \<and>
         area (sp - 16) 8 \<inter> P = {} \<and> area (sp - 8) 8 \<inter> P = {})"

definition leave_frame :: "sim \<Rightarrow> sim" where
  "leave_frame s =
     (let fp = get_xreg s FP
      in set_xreg SP (fp + 16) (set_xreg RA (load 8 (memory s) (fp + 8)) (set_xreg FP (load 8 (memory s) fp) s)))"

lemma set_xreg_memory: "set_xreg r v (s\<lparr>memory := m\<rparr>) = (set_xreg r v s)\<lparr>memory := m\<rparr>"
  by (simp add: set_xreg_def)

lemma writeG_SP:
  "writeG 8 get_xreg r SP imm P s =
     (if area (get_xreg s SP + imm) 8 \<inter> P = {} \<and> get_xreg s SP + imm + 8 \<le> stack_base s \<and>
         get_xreg s SP \<le> get_xreg s SP + imm
      then Some (s\<lparr>memory := store 8 (get_xreg s SP + imm) (get_xreg s r) (memory s)\<rparr>) else None)"
  by (auto simp: writeG_def Let_def MemoryWrite_def CheckAccess_def not_less)

lemma EnterFrame_transforms:
  assumes "wf_asm a" and "IsITypeImm (- (frame_size + 16))" and "IsITypeImm (frame_size + 8)"
    and "IsITypeImm frame_size"
  shows "transforms 16 (EnterFrame frame_size a)
    (\<lambda>P s. if frame_free frame_size P s then Some (enter_frame frame_size s) else None) a"
proof -
  let ?X = "seqG (pureG (\<lambda>s. set_xreg SP (get_xreg s SP + - (frame_size + 16)) s))
    (seqG (writeG 8 get_xreg RA SP (frame_size + 8)) (seqG (writeG 8 get_xreg FP SP frame_size)
    (seqG (pureG (\<lambda>s. set_xreg FP (get_xreg s SP + frame_size) s)) (pureG (\<lambda>s. s)))))"
  have "transforms (4 + (4 + (4 + (4 + 0)))) (seqE [subi SP SP (frame_size + 16), sx RA (Address SP (frame_size + 8)),
      sx FP (Address SP frame_size), addi FP SP frame_size] a) ?X a"
    by (intro transforms_intros assms)
  moreover have "?X = (\<lambda>P s. if frame_free frame_size P s then Some (enter_frame frame_size s) else None)"
  proof (intro ext)
    fix P s
    have e: "x - (frame_size + 16) + (frame_size + 8) = x - 8" "x - (frame_size + 16) + frame_size = x - 16"
      for x :: u64 by simp_all
    show "?X P s = (if frame_free frame_size P s then Some (enter_frame frame_size s) else None)"
      by (auto simp: seqG_def pureG_def writeG_SP e frame_free_def enter_frame_def Let_def set_xreg_memory
          simp del: diff_diff_eq minus_add_distrib diff_add_eq_diff_diff_swap)
  qed
  ultimately show ?thesis by (simp add: EnterFrame_def)
qed

lemma LeaveFrame_transforms:
  assumes "wf_asm a"
  shows "transforms 16 (LeaveFrame a)
    (\<lambda>P s. if get_xreg s FP \<le> get_xreg s FP + 8 \<and> get_xreg s FP + 8 \<le> stack_base s \<and> get_xreg s FP + 16 \<le> stack_base s
       then Some (leave_frame s) else None) a"
proof -
  let ?X = "seqG (pureG (\<lambda>s. set_xreg SP (get_xreg s FP + 0) s)) (seqG (readG 8 set_xreg FP SP 0)
    (seqG (readG 8 set_xreg RA SP 8) (seqG (pureG (\<lambda>s. set_xreg SP (get_xreg s SP + 16) s)) (pureG (\<lambda>s. s)))))"
  have "transforms (4 + (4 + (4 + (4 + 0)))) (seqE [mv SP FP, lx FP (Address SP 0), lx RA (Address SP 8),
      addi SP SP 16] a) ?X a"
    by (intro transforms_intros assms IsITypeImm_small)
  moreover have "?X = (\<lambda>P s. if get_xreg s FP \<le> get_xreg s FP + 8 \<and> get_xreg s FP + 8 \<le> stack_base s \<and>
      get_xreg s FP + 16 \<le> stack_base s then Some (leave_frame s) else None)"
    by (intro ext) (auto simp: seqG_def pureG_def readG_def Let_def MemoryRead_def CheckAccess_def
        leave_frame_def not_less set_xreg_def get_xreg_def add.assoc fun_upd_twist)
  ultimately show ?thesis by (simp add: LeaveFrame_def)
qed

text \<open>
  Whatever the function body does, if it keeps the frame pointer and the two saved
  words, \<open>LeaveFrame\<close> restores the caller's registers.
\<close>

lemma slots_disjoint: "i < 8 \<Longrightarrow> j < 8 \<Longrightarrow> (p - 8 :: u64) + of_nat i \<noteq> p - 16 + of_nat j"
proof
  assume ij: "i < 8" "j < 8" and e: "p - 8 + of_nat i = p - 16 + of_nat j"
  have "(of_nat (8 + i) :: u64) = of_nat j" using arg_cong [OF e, of "\<lambda>x. x - p + 16"] by simp
  then have "unat (of_nat (8 + i) :: u64) = unat (of_nat j :: u64)" by (simp only:)
  then have "8 + i = j" using ij by (simp only: unat_of_nat) (simp add: take_bit_nat_eq_self)
  then show False using ij by simp
qed

lemma leave_enter_frame:
  assumes "get_xreg t FP = get_xreg (enter_frame frame_size s) FP"
    and "\<And>x. x \<in> area (get_xreg s SP - 16) 16 \<Longrightarrow> memory t x = memory (enter_frame frame_size s) x"
  shows "get_xreg (leave_frame t) SP = get_xreg s SP" and "get_xreg (leave_frame t) FP = get_xreg s FP"
    and "get_xreg (leave_frame t) RA = get_xreg s RA"
    and "r \<notin> {SP, FP, RA} \<Longrightarrow> get_xreg (leave_frame t) r = get_xreg t r"
proof -
  let ?sp = "get_xreg s SP"
  let ?m = "store 8 (?sp - 16) (get_xreg s FP) (store 8 (?sp - 8) (get_xreg s RA) (memory s))"
  have fp: "get_xreg t FP = ?sp - 16" using assms(1) by (simp add: enter_frame_def Let_def)
  have split: "area (?sp - 16) 16 = area (?sp - 16) 8 \<union> area (?sp - 8) 8"
    using area_append [of "?sp - 16" 8 8] by simp
  have mem: "memory t x = ?m x" if "x \<in> area (?sp - 16) 16" for x
    using assms(2) [OF that] by (simp add: enter_frame_def Let_def)
  have "load 8 (memory t) (?sp - 16) = load 8 ?m (?sp - 16)"
    by (rule load_cong, rule mem) (auto simp: split area_def)
  then have l1: "load 8 (memory t) (?sp - 16) = get_xreg s FP" by (simp add: load_store_8)
  have "load 8 (memory t) (?sp - 8) = load 8 ?m (?sp - 8)"
    by (rule load_cong, rule mem, unfold split) (auto simp: area_def)
  also have "\<dots> = load 8 (store 8 (?sp - 8) (get_xreg s RA) (memory s)) (?sp - 8)"
    by (rule load_cong, rule store_other) (rule slots_disjoint)
  finally have l2: "load 8 (memory t) (?sp - 8) = get_xreg s RA" by (simp add: load_store_8)
  show "get_xreg (leave_frame t) SP = ?sp" "get_xreg (leave_frame t) FP = get_xreg s FP"
    "get_xreg (leave_frame t) RA = get_xreg s RA"
    using l1 l2 by (simp_all add: leave_frame_def Let_def fp)
  show "get_xreg (leave_frame t) r = get_xreg t r" if "r \<notin> {SP, FP, RA}"
    using that by (simp add: leave_frame_def Let_def)
qed

text \<open>A function body between \<open>EnterFrame\<close> and \<open>LeaveFrame\<close>.\<close>

definition keeps_frame :: "sim \<Rightarrow> sim \<Rightarrow> bool" where
  "keeps_frame s u \<longleftrightarrow>
     get_xreg u FP = get_xreg s FP \<and> stack_base u = stack_base s \<and>
     (\<forall>x \<in> area (get_xreg s FP) 16. memory u x = memory s x)"

lemma framed_body:
  assumes "wf_asm a" and "IsITypeImm (- (frame_size + 16))" and "IsITypeImm (frame_size + 8)"
    and "IsITypeImm frame_size" and body: "\<And>b. wf_asm b \<Longrightarrow> transforms n (body b) B b"
  shows "\<exists>G. transforms (n + 32) (seqE [EnterFrame frame_size, body, LeaveFrame] a) G a \<and>
    (\<forall>P s u. 16 \<le> get_xreg s SP \<longrightarrow> frame_free frame_size P s \<longrightarrow> B P (enter_frame frame_size s) = Some u \<longrightarrow>
       keeps_frame (enter_frame frame_size s) u \<longrightarrow>
       (\<exists>t. G P s = Some t \<and> memory t = memory u \<and>
          (\<forall>r. get_xreg t r = (if r \<in> {SP, FP, RA} then get_xreg s r else get_xreg u r))))"
proof -
  let ?E = "\<lambda>P s. if frame_free frame_size P s then Some (enter_frame frame_size s) else None"
  let ?L = "\<lambda>(P :: u64 set) s. if get_xreg s FP \<le> get_xreg s FP + 8 \<and> get_xreg s FP + 8 \<le> stack_base s \<and>
      get_xreg s FP + 16 \<le> stack_base s then Some (leave_frame s) else None"
  let ?G = "seqG ?E (seqG B (seqG ?L (pureG (\<lambda>s. s))))"
  have "transforms (16 + (n + (16 + 0))) (seqE [EnterFrame frame_size, body, LeaveFrame] a) ?G a"
    by (intro transforms_Cons transforms_Nil EnterFrame_transforms LeaveFrame_transforms body assms(1-4))
  moreover have "\<exists>t. ?G P s = Some t \<and> memory t = memory u \<and>
      (\<forall>r. get_xreg t r = (if r \<in> {SP, FP, RA} then get_xreg s r else get_xreg u r))"
    if p: "16 \<le> get_xreg s SP" "frame_free frame_size P s" "B P (enter_frame frame_size s) = Some u"
      and k: "keeps_frame (enter_frame frame_size s) u" for P s u
  proof -
    let ?sp = "get_xreg s SP"
    have e: "get_xreg (enter_frame frame_size s) FP = ?sp - 16" "stack_base (enter_frame frame_size s) = stack_base s"
      by (simp_all add: enter_frame_def Let_def)
    have "?sp - 16 \<le> ?sp - 8" using p(1) by (simp add: word_le_def uint_sub_if')
    then have L: "?L P u = Some (leave_frame u)"
      using k p(2) by (simp add: keeps_frame_def e frame_free_def Let_def)
    have mem: "\<And>x. x \<in> area (?sp - 16) 16 \<Longrightarrow> memory u x = memory (enter_frame frame_size s) x"
      and fp: "get_xreg u FP = get_xreg (enter_frame frame_size s) FP" using k by (simp_all add: keeps_frame_def e)
    show ?thesis
      using p(2,3) L leave_enter_frame [OF fp mem]
      by (intro exI [of _ "leave_frame u"]) (auto simp: seqG_def pureG_def leave_frame_def Let_def)
  qed
  ultimately show ?thesis by (intro exI [of _ ?G]) (simp add: add.commute)
qed

end
