(* ===== verification/Riscv_Save.thy ===== *)
theory Riscv_Save
  imports Riscv_Stack
begin

text \<open>
  Saving a set of registers: \<open>PushRegisters\<close> and \<open>PopRegisters\<close>.

  A saved register is a slot of the stack; the slots of a set are its integer
  registers, then its floating-point registers, in ascending order.  The loops of
  the two operations are shown to emit one store or load per slot at consecutive
  offsets (whichever direction they run in), and popping restores every register
  of the set, whatever happened to the registers in between.
\<close>

unbundle bit_operations_syntax

subsection \<open>Slots\<close>

datatype saved_reg = XR nat | FR nat

definition saved_regs :: "RegisterSet \<Rightarrow> saved_reg list" where
  "saved_regs regs = map XR (filter (ContainsRegister regs) [0..<32]) @ map FR (filter (ContainsFpuRegister regs) [0..<32])"

fun get_slot :: "sim \<Rightarrow> saved_reg \<Rightarrow> u64" where
  "get_slot s (XR i) = get_xreg s (of_nat i)"
| "get_slot s (FR i) = get_fregd s (of_nat i)"

fun put_slot :: "saved_reg \<Rightarrow> u64 \<Rightarrow> sim \<Rightarrow> sim" where
  "put_slot (XR i) v s = set_xreg (of_nat i) v s"
| "put_slot (FR i) v s = set_fregd (of_nat i) v s"

fun store_slot :: "saved_reg \<times> intptr \<Rightarrow> asm_op" where
  "store_slot (XR i, offset) = sx (of_nat i) (Address SP offset)"
| "store_slot (FR i, offset) = fsd (of_nat i) (Address SP offset)"

fun load_slot :: "saved_reg \<times> intptr \<Rightarrow> asm_op" where
  "load_slot (XR i, offset) = lx (of_nat i) (Address SP offset)"
| "load_slot (FR i, offset) = fld (of_nat i) (Address SP offset)"

fun place :: "intptr \<Rightarrow> saved_reg list \<Rightarrow> (saved_reg \<times> intptr) list" where
  "place offset [] = []"
| "place offset (r # rs) = (r, offset) # place (offset + 8) rs"

lemma place_append: "place offset (rs @ qs) = place offset rs @ place (offset + 8 * of_nat (length rs)) qs"
  by (induction rs arbitrary: offset) (simp_all add: algebra_simps)

subsection \<open>The loops\<close>

lemma for_registers_up_eq:
  "for_registers_up P (\<lambda>i offset. op (f i, offset)) is offset a =
     bindE (seqE (map op (place offset (map f (filter P is)))) a)
       (\<lambda>a. Inr (offset + 8 * of_nat (length (filter P is)), a))"
proof (induction "is" arbitrary: offset a)
  case (Cons i "is")
  show ?case
  proof (cases "P i")
    case True
    then show ?thesis by (cases "op (f i, offset) a") (simp_all add: Cons algebra_simps)
  qed (simp add: Cons)
qed simp

lemma for_registers_down_Nil: "for_registers_down P op [] offset = (\<lambda>a. Inr (offset, a))"
  by (rule ext) simp

lemma for_registers_down_eq:
  "for_registers_down P (\<lambda>i offset. op (f i, offset)) (rev is) offset a =
     bindE (seqE (map op (rev (place (offset - 8 * of_nat (length (filter P is))) (map f (filter P is))))) a)
       (\<lambda>a. Inr (offset - 8 * of_nat (length (filter P is)), a))"
proof -
  have app: "for_registers_down P g (xs @ ys) offset a =
      bindE (for_registers_down P g xs offset a) (\<lambda>(offset, a). for_registers_down P g ys offset a)"
    for g :: "nat \<Rightarrow> intptr \<Rightarrow> asm_op" and xs ys offset a
  proof (induction xs arbitrary: offset a)
    case (Cons x xs)
    show ?case by (cases "P x"; cases "g x (offset - 8) a") (simp_all add: Cons.IH)
  qed simp
  show ?thesis
  proof (induction "is" arbitrary: offset a)
    case (Cons i "is")
    show ?case
      by (simp add: app Cons.IH bindE_assoc seqE_append split_def for_registers_down_Nil algebra_simps)
  qed simp
qed

text \<open>A set of registers of the machine; the stack pointer and the zero register cannot be saved.\<close>

definition wf_regs :: "RegisterSet \<Rightarrow> bool" where
  "wf_regs regs \<longleftrightarrow>
     take_bit 32 (cpu_registers regs) = cpu_registers regs \<and> take_bit 32 (fpu_registers regs) = fpu_registers regs \<and>
     \<not> ContainsRegister regs 0 \<and> \<not> ContainsRegister regs 2"

lemma count_filter:
  assumes "take_bit 32 w = w"
  shows "RegisterCount w = int (length (filter (bit w) [0..<32]))"
proof -
  have "members w = set (filter (bit w) [0..<32])"
    using assms by (auto simp: members_def) (metis bit_take_bit_iff)
  then show ?thesis
    unfolding RegisterCount_card by (simp only: distinct_card distinct_filter distinct_upt)
qed

lemma registers_size_eq:
  assumes "wf_regs regs"
  shows "registers_size regs = 8 * of_nat (length (saved_regs regs))"
proof -
  have "ContainsRegister regs = bit (cpu_registers regs)" "ContainsFpuRegister regs = bit (fpu_registers regs)"
    by (simp_all add: fun_eq_iff ContainsRegister_def ContainsFpuRegister_def SmallSet_Contains_bit)
  then show ?thesis
    using assms by (simp add: registers_size_def CpuRegisterCount_def FpuRegisterCount_def wf_regs_def
        count_filter saved_regs_def algebra_simps)
qed

lemma length_saved_regs: "length (saved_regs regs) \<le> 64"
  using length_filter_le [of "ContainsRegister regs" "[0..<32]"]
    length_filter_le [of "ContainsFpuRegister regs" "[0..<32]"] by (simp add: saved_regs_def)

lemma registers_size_0:
  assumes "wf_regs regs"
  shows "registers_size regs = 0 \<longleftrightarrow> saved_regs regs = []"
proof -
  have "registers_size regs = of_nat (8 * length (saved_regs regs))" by (simp add: registers_size_eq [OF assms])
  moreover have "8 * length (saved_regs regs) < 2 ^ 64" using length_saved_regs [of regs] by simp
  moreover have "(of_nat (8 * length (saved_regs regs)) :: u64) = 0 \<longleftrightarrow> 2 ^ 64 dvd 8 * length (saved_regs regs)"
    by (simp only: word_of_nat_eq_0_iff) simp
  ultimately show ?thesis by (auto dest: dvd_imp_le)
qed

lemma PushRegisters_eq:
  assumes "wf_regs regs"
  shows "PushRegisters regs a =
    (if saved_regs regs = [] then Inr a
     else seqE (subi SP SP (8 * of_nat (length (saved_regs regs))) # map store_slot (rev (place 0 (saved_regs regs)))) a)"
proof -
  let ?x = "filter (ContainsRegister regs) [0..<32]" and ?f = "filter (ContainsFpuRegister regs) [0..<32]"
  have l: "length (saved_regs regs) = length ?x + length ?f" by (simp add: saved_regs_def)
  have p: "place 0 (saved_regs regs) = place 0 (map XR ?x) @ place (8 * of_nat (length ?x)) (map FR ?f)"
    by (simp add: saved_regs_def place_append)
  have loops: "registers_size regs = 8 * of_nat (length ?x) + 8 * of_nat (length ?f)"
    by (simp add: registers_size_eq [OF assms] l algebra_simps)
  show ?thesis
  proof (cases "saved_regs regs = []")
    case True
    then show ?thesis by (simp add: PushRegisters_def registers_size_0 [OF assms])
  next
    case False
    then have "registers_size regs \<noteq> 0" by (simp add: registers_size_0 [OF assms])
    then show ?thesis
      using False for_registers_down_eq [of "ContainsFpuRegister regs" store_slot FR "[0..<32]"]
        for_registers_down_eq [of "ContainsRegister regs" store_slot XR "[0..<32]"]
      by (simp add: PushRegisters_def Let_def p bindE_assoc seqE_append_fun ASSERT_def l)
        (simp add: loops algebra_simps bindE_Inr_right seqE_append_fun, simp only: diff_conv_add_uminus add.commute)
  qed
qed

lemma PopRegisters_eq:
  assumes "wf_regs regs"
  shows "PopRegisters regs a =
    (if saved_regs regs = [] then Inr a
     else seqE (map load_slot (place 0 (saved_regs regs)) @ [addi SP SP (8 * of_nat (length (saved_regs regs)))]) a)"
proof -
  let ?x = "filter (ContainsRegister regs) [0..<32]" and ?f = "filter (ContainsFpuRegister regs) [0..<32]"
  have l: "length (saved_regs regs) = length ?x + length ?f" by (simp add: saved_regs_def)
  have p: "place 0 (saved_regs regs) = place 0 (map XR ?x) @ place (8 * of_nat (length ?x)) (map FR ?f)"
    by (simp add: saved_regs_def place_append)
  have loops: "registers_size regs = 8 * of_nat (length ?x) + 8 * of_nat (length ?f)"
    by (simp add: registers_size_eq [OF assms] l algebra_simps)
  show ?thesis
  proof (cases "saved_regs regs = []")
    case True
    then show ?thesis by (simp add: PopRegisters_def registers_size_0 [OF assms])
  next
    case False
    then have "registers_size regs \<noteq> 0" by (simp add: registers_size_0 [OF assms])
    then show ?thesis
      using False for_registers_up_eq [of "ContainsFpuRegister regs" load_slot FR "[0..<32]"]
        for_registers_up_eq [of "ContainsRegister regs" load_slot XR "[0..<32]"]
      by (simp add: PopRegisters_def Let_def p bindE_assoc seqE_append_fun ASSERT_def l)
        (simp add: loops algebra_simps bindE_Inr_right seqE_append_fun seqE_single_fun)
  qed
qed

subsection \<open>Effects\<close>

fun write_slot :: "saved_reg \<times> intptr \<Rightarrow> guarded" where
  "write_slot (XR i, offset) = writeG 8 get_xreg (of_nat i) SP offset"
| "write_slot (FR i, offset) = writeG 8 get_fregd (of_nat i) SP offset"

fun read_slot :: "saved_reg \<times> intptr \<Rightarrow> guarded" where
  "read_slot (XR i, offset) = readG 8 set_xreg (of_nat i) SP offset"
| "read_slot (FR i, offset) = readG 8 set_fregd (of_nat i) SP offset"

definition seqsG :: "guarded list \<Rightarrow> guarded" where
  "seqsG Xs = foldr seqG Xs (pureG (\<lambda>s. s))"

lemma seqsG_simps [simp]: "seqsG [] P s = Some s" "seqsG (X # Xs) = seqG X (seqsG Xs)"
  by (simp_all add: seqsG_def pureG_def)

lemma seqsG_append: "seqsG (Xs @ Ys) P s = Option.bind (seqsG Xs P s) (seqsG Ys P)"
  by (induction Xs arbitrary: s) (simp_all add: seqG_def cong: Option.bind_cong)

lemma transforms_map:
  assumes "wf_asm a" and "\<And>x b. x \<in> set xs \<Longrightarrow> wf_asm b \<Longrightarrow> transforms 4 (op x b) (X x) b"
  shows "transforms (4 * length xs) (seqE (map op xs) a) (seqsG (map X xs)) a"
  using assms
proof (induction xs arbitrary: a)
  case Nil
  then show ?case using transforms_Nil [of a] by (simp add: seqsG_def)
next
  case (Cons x xs)
  have "transforms (4 + 4 * length xs) (seqE (op x # map op xs) a) (seqG (X x) (seqsG (map X xs))) a"
    by (rule transforms_Cons) (use Cons in auto)
  then show ?case by (simp del: seqE.simps)
qed

fun store_slots :: "u64 \<Rightarrow> u64 list \<Rightarrow> (u64 \<Rightarrow> 8 word) \<Rightarrow> (u64 \<Rightarrow> 8 word)" where
  "store_slots p [] m = m"
| "store_slots p (v # vs) m = store 8 p v (store_slots (p + 8) vs m)"

fun load_slots :: "u64 \<Rightarrow> saved_reg list \<Rightarrow> sim \<Rightarrow> sim" where
  "load_slots p [] s = s"
| "load_slots p (r # rs) s = load_slots (p + 8) rs (put_slot r (load 8 (memory s) p) s)"

text \<open>A slot the stack pointer gives access to.\<close>

definition slot_ok :: "u64 \<Rightarrow> sim \<Rightarrow> bool" where
  "slot_ok addr s \<longleftrightarrow> get_xreg s SP \<le> addr \<and> addr + 8 \<le> stack_base s"

lemma get_slot_memory [simp]: "get_slot (s\<lparr>memory := m\<rparr>) r = get_slot s r"
  by (cases r) (simp_all add: get_fregd_def)

lemma write_slot_eq:
  "write_slot (r, offset) P s =
     (if area (get_xreg s SP + offset) 8 \<inter> P = {} \<and> slot_ok (get_xreg s SP + offset) s
      then Some (s\<lparr>memory := store 8 (get_xreg s SP + offset) (get_slot s r) (memory s)\<rparr>) else None)"
  by (cases r) (auto simp: writeG_def Let_def MemoryWrite_def CheckAccess_def not_less slot_ok_def)

lemma read_slot_eq:
  "read_slot (r, offset) P s =
     (if slot_ok (get_xreg s SP + offset) s
      then Some (put_slot r (load 8 (memory s) (get_xreg s SP + offset)) s) else None)"
  by (cases r) (auto simp: readG_def MemoryRead_def CheckAccess_def not_less slot_ok_def)

lemma write_slots_eq:
  "seqsG (map write_slot (rev (place offset rs))) P s =
     (if \<forall>i < length rs. area (get_xreg s SP + (offset + 8 * of_nat i)) 8 \<inter> P = {} \<and>
           slot_ok (get_xreg s SP + (offset + 8 * of_nat i)) s
      then Some (s\<lparr>memory := store_slots (get_xreg s SP + offset) (map (get_slot s) rs) (memory s)\<rparr>) else None)"
proof (induction rs arbitrary: offset)
  case (Cons r rs)
  show ?case
    by (simp add: seqsG_append seqG_def Cons.IH write_slot_eq All_less_Suc2 slot_ok_def algebra_simps)
qed simp

text \<open>Slots that can be saved: registers of the machine other than the stack pointer and the zero register.\<close>

fun slot_reg_ok :: "saved_reg \<Rightarrow> bool" where
  "slot_reg_ok (XR i) \<longleftrightarrow> i < 32 \<and> i \<noteq> 0 \<and> i \<noteq> 2"
| "slot_reg_ok (FR i) \<longleftrightarrow> i < 32"

lemma saved_regs_ok: "wf_regs regs \<Longrightarrow> r \<in> set (saved_regs regs) \<Longrightarrow> slot_reg_ok r"
  by (auto simp: saved_regs_def wf_regs_def) (metis gr0I)+

lemma distinct_saved_regs: "distinct (saved_regs regs)"
  by (auto simp: saved_regs_def distinct_map inj_on_def)

lemma of_nat_register: "i < 32 \<Longrightarrow> j < 32 \<Longrightarrow> (of_nat i = (of_nat j :: Register)) = (i = j)"
  by (auto dest!: arg_cong [of _ _ unat] simp: unat_of_nat take_bit_nat_eq_self)

lemma slot_not_SP: "slot_reg_ok (XR i) \<Longrightarrow> of_nat i \<noteq> SP \<and> of_nat i \<noteq> ZR"
  using of_nat_register [of i 2] of_nat_register [of i 0] by simp

lemma put_slot_simps [simp]:
  "memory (put_slot r v s) = memory s" "stack_base (put_slot r v s) = stack_base s"
  by (cases r; simp add: set_fregd_def)+

lemma put_slot_SP: "slot_reg_ok r \<Longrightarrow> get_xreg (put_slot r v s) SP = get_xreg s SP"
  by (cases r) (use slot_not_SP in \<open>auto simp: set_fregd_def get_xreg_def set_xreg_def\<close>)

lemma get_put_slot:
  "slot_reg_ok r \<Longrightarrow> slot_reg_ok q \<Longrightarrow> get_slot (put_slot r v s) q = (if q = r then v else get_slot s q)"
  using slot_not_SP of_nat_register
  by (cases r; cases q) (auto simp: set_fregd_def get_fregd_def get_xreg_def set_xreg_def)

lemma read_slots_eq:
  assumes "\<forall>r \<in> set rs. slot_reg_ok r"
  shows "seqsG (map read_slot (place offset rs)) P s =
     (if \<forall>i < length rs. slot_ok (get_xreg s SP + (offset + 8 * of_nat i)) s
      then Some (load_slots (get_xreg s SP + offset) rs s) else None)"
  using assms
proof (induction rs arbitrary: offset s)
  case (Cons r rs)
  then show ?case
    by (simp add: seqG_def read_slot_eq All_less_Suc2 slot_ok_def put_slot_SP algebra_simps)
qed simp

subsection \<open>Push and pop of a set\<close>

definition push_regs :: "RegisterSet \<Rightarrow> sim \<Rightarrow> sim" where
  "push_regs regs s =
     (let sp = get_xreg s SP - 8 * of_nat (length (saved_regs regs))
      in (set_xreg SP sp s)\<lparr>memory := store_slots sp (map (get_slot s) (saved_regs regs)) (memory s)\<rparr>)"

definition pop_regs :: "RegisterSet \<Rightarrow> sim \<Rightarrow> sim" where
  "pop_regs regs s =
     (let sp = get_xreg s SP; t = load_slots sp (saved_regs regs) s
      in set_xreg SP (sp + 8 * of_nat (length (saved_regs regs))) t)"

text \<open>The \<open>n\<close> words from \<open>sp\<close> are words of the stack.\<close>

definition stack_words :: "u64 \<Rightarrow> nat \<Rightarrow> sim \<Rightarrow> bool" where
  "stack_words sp n s \<longleftrightarrow> (\<forall>i < n. sp \<le> sp + 8 * of_nat i \<and> sp + 8 * of_nat i + 8 \<le> stack_base s)"

lemma area_words: "area p (8 * n) = (\<Union>i < n. area (p + 8 * of_nat i) 8)"
proof (induction n)
  case (Suc n)
  have "area p (8 * Suc n) = area p (8 * n) \<union> area (p + of_nat (8 * n)) 8"
    using area_append [of p "8 * n" 8] by (simp add: add.commute)
  then show ?case by (simp add: Suc lessThan_Suc Un_commute)
qed (simp add: area_def)

lemma area_words_free: "area p (8 * n) \<inter> P = {} \<longleftrightarrow> (\<forall>i < n. area (p + 8 * of_nat i) 8 \<inter> P = {})"
  by (auto simp: area_words)

lemma place_offset: "(r, offset) \<in> set (place p rs) \<Longrightarrow> \<exists>i < length rs. offset = p + 8 * of_nat i"
proof (induction rs arbitrary: p)
  case (Cons q rs)
  show ?case
  proof (cases "offset = p")
    case False
    then obtain i where "i < length rs" "offset = p + 8 + 8 * of_nat i" using Cons by auto
    then show ?thesis by (intro exI [of _ "Suc i"]) (simp add: algebra_simps)
  qed (auto intro: exI [of _ 0])
qed simp

lemma length_place [simp]: "length (place p rs) = length rs"
  by (induction rs arbitrary: p) simp_all

lemma IsITypeImm_words:
  assumes "n \<le> 64"
  shows "IsITypeImm (8 * of_nat n)" and "IsITypeImm (- (8 * of_nat n))"
proof -
  have "IsITypeImm (word_of_int k)" if "- 2048 \<le> k" "k < 2048" for k
    using that sint_word_of_int_fits [of k, where 'a = 64] by (simp add: IsITypeImm_def IsInt_iff_sint)
  from this [of "8 * int n"] this [of "- (8 * int n)"] assms
  show "IsITypeImm (8 * of_nat n)" "IsITypeImm (- (8 * of_nat n))" by simp_all
qed

lemma transforms_slot:
  assumes "wf_asm b" and "x \<in> set (place 0 (saved_regs regs))"
  shows "transforms 4 (store_slot x b) (write_slot x) b" and "transforms 4 (load_slot x b) (read_slot x) b"
proof -
  obtain r i where x: "x = (r, 8 * of_nat i)" "i < length (saved_regs regs)"
    using place_offset [of "fst x" "snd x" 0 "saved_regs regs"] assms(2) by (metis add_0 prod.collapse)
  have "i \<le> 64" using x(2) length_saved_regs [of regs] by simp
  note imm = IsITypeImm_words(1) [OF this]
  show "transforms 4 (store_slot x b) (write_slot x) b" "transforms 4 (load_slot x b) (read_slot x) b"
    using assms(1) imm x(1) by (cases r; simp add: transforms_intros)+
qed

lemma PushRegisters_transforms:
  assumes "wf_asm a" and "wf_regs regs"
  shows "transforms 260 (PushRegisters regs a)
    (\<lambda>P s. let n = length (saved_regs regs); sp = get_xreg s SP - 8 * of_nat n
      in if area sp (8 * n) \<inter> P = {} \<and> stack_words sp n s then Some (push_regs regs s) else None) a"
  (is "transforms _ _ ?X a")
proof (cases "saved_regs regs = []")
  case True
  then have "?X = pureG (\<lambda>s. s)"
    by (intro ext) (simp add: pureG_def area_def stack_words_def push_regs_def Let_def set_xreg_def get_xreg_def)
  moreover have "transforms 260 (Inr a) (pureG (\<lambda>s. s)) a"
    by (rule transforms_mono [OF transforms_assembles [OF assembles_Inr]]) simp
  ultimately show ?thesis using True by (simp add: PushRegisters_eq [OF assms(2)])
next
  case False
  let ?n = "length (saved_regs regs)"
  let ?Y = "seqG (pureG (\<lambda>s. set_xreg SP (get_xreg s SP + - (8 * of_nat ?n)) s))
    (seqsG (map write_slot (rev (place 0 (saved_regs regs)))))"
  have "transforms (4 + 4 * length (rev (place 0 (saved_regs regs)))) (seqE (subi SP SP (8 * of_nat ?n) #
      map store_slot (rev (place 0 (saved_regs regs)))) a) ?Y a"
    by (intro transforms_Cons transforms_addi transforms_map IsITypeImm_words length_saved_regs assms transforms_slot)
      simp_all
  then have "transforms 260 (PushRegisters regs a) ?Y a"
    using False length_saved_regs [of regs]
    by (auto simp: PushRegisters_eq [OF assms(2)] simp del: seqE.simps intro: transforms_mono)
  moreover have "?Y = ?X"
  proof (intro ext)
    fix P s
    have "map (get_slot (set_xreg SP v s)) (saved_regs regs) = map (get_slot s) (saved_regs regs)" for v
    proof (rule map_cong [OF refl])
      fix r assume "r \<in> set (saved_regs regs)"
      from saved_regs_ok [OF assms(2) this] show "get_slot (set_xreg SP v s) r = get_slot s r"
        using slot_not_SP by (cases r) (auto simp: get_fregd_def set_xreg_def get_xreg_def)
    qed
    moreover have "(\<forall>i < ?n. area (sp + 8 * of_nat i) 8 \<inter> P = {} \<and> sp \<le> sp + 8 * of_nat i \<and>
        sp + 8 * of_nat i + 8 \<le> stack_base s) \<longleftrightarrow> area sp (8 * ?n) \<inter> P = {} \<and> stack_words sp ?n s" for sp
      by (auto simp: area_words_free stack_words_def)
    ultimately show "?Y P s = ?X P s"
      by (simp add: seqG_def pureG_def write_slots_eq Let_def push_regs_def slot_ok_def del: map_eq_conv)
  qed
  ultimately show ?thesis by (simp only:)
qed

lemma PopRegisters_transforms:
  assumes "wf_asm a" and "wf_regs regs"
  shows "transforms 260 (PopRegisters regs a)
    (\<lambda>P s. if stack_words (get_xreg s SP) (length (saved_regs regs)) s then Some (pop_regs regs s) else None) a"
  (is "transforms _ _ ?X a")
proof (cases "saved_regs regs = []")
  case True
  then have "?X = pureG (\<lambda>s. s)"
    by (intro ext) (simp add: pureG_def stack_words_def pop_regs_def Let_def set_xreg_def get_xreg_def)
  moreover have "transforms 260 (Inr a) (pureG (\<lambda>s. s)) a"
    by (rule transforms_mono [OF transforms_assembles [OF assembles_Inr]]) simp
  ultimately show ?thesis using True by (simp add: PopRegisters_eq [OF assms(2)])
next
  case False
  let ?n = "length (saved_regs regs)"
  have SP: "get_xreg (load_slots p rs s) SP = get_xreg s SP" if "\<forall>r \<in> set rs. slot_reg_ok r" for p rs s
    using that by (induction rs arbitrary: p s) (simp_all add: put_slot_SP)
  let ?Y = "seqG (seqsG (map read_slot (place 0 (saved_regs regs))))
    (seqG (pureG (\<lambda>s. set_xreg SP (get_xreg s SP + 8 * of_nat ?n) s)) (pureG (\<lambda>s. s)))"
  have "transforms (4 * length (place 0 (saved_regs regs)) + (4 + 0))
      (bindE (seqE (map load_slot (place 0 (saved_regs regs))) a) (seqE [addi SP SP (8 * of_nat ?n)])) ?Y a"
    by (intro transforms_bindE transforms_Cons transforms_Nil transforms_addi transforms_map IsITypeImm_words
        length_saved_regs assms transforms_slot) simp_all
  then have "transforms 260 (PopRegisters regs a) ?Y a"
    using False length_saved_regs [of regs]
    by (auto simp: PopRegisters_eq [OF assms(2)] seqE_append simp del: seqE.simps intro: transforms_mono)
  moreover have "?Y = ?X"
    using saved_regs_ok [OF assms(2)]
    by (intro ext) (simp add: seqG_def pureG_def read_slots_eq Let_def pop_regs_def stack_words_def slot_ok_def SP)
  ultimately show ?thesis by (simp only:)
qed

text \<open>
  Whatever happens between the two, if it keeps the stack pointer and the saved
  words, every register of the set has its old value again, and no other register
  is touched by the restoring code.
\<close>

lemma load_slots_other:
  assumes "\<forall>r \<in> set rs. slot_reg_ok r" and "slot_reg_ok q" and "q \<notin> set rs"
  shows "get_slot (load_slots p rs s) q = get_slot s q"
  using assms by (induction rs arbitrary: p s) (simp_all add: get_put_slot)

lemma load_slots_nth:
  assumes "\<forall>r \<in> set rs. slot_reg_ok r" and "distinct rs" and "i < length rs"
  shows "get_slot (load_slots p rs s) (rs ! i) = load 8 (memory s) (p + 8 * of_nat i)"
  using assms
proof (induction rs arbitrary: p s i)
  case (Cons r rs)
  then show ?case
    by (cases i) (simp_all add: load_slots_other get_put_slot algebra_simps)
qed simp

lemma words_apart:
  assumes "0 < i" and "i < 2 ^ 32" and "j < 8" and "k < 8"
  shows "(p :: u64) + 8 * of_nat i + of_nat k \<noteq> p + of_nat j"
proof
  assume e: "p + 8 * of_nat i + of_nat k = p + of_nat j"
  have "(of_nat (8 * i + k) :: u64) = of_nat j" using arg_cong [OF e, of "\<lambda>x. x - p"] by simp
  then have "unat (of_nat (8 * i + k) :: u64) = unat (of_nat j :: u64)" by (simp only:)
  then have "8 * i + k = j" using assms by (simp only: unat_of_nat) (simp add: take_bit_nat_eq_self)
  then show False using assms by simp
qed

lemma load_store_slots:
  assumes "i < length vs" and "length vs < 2 ^ 32"
  shows "load 8 (store_slots p vs m) (p + 8 * of_nat i) = vs ! i"
  using assms
proof (induction vs arbitrary: p i)
  case (Cons v vs)
  show ?case
  proof (cases i)
    case 0
    then show ?thesis by (simp add: load_store_8)
  next
    case (Suc j)
    have "load 8 (store_slots p (v # vs) m) (p + 8 * of_nat i) = load 8 (store_slots (p + 8) vs m) (p + 8 * of_nat i)"
      unfolding store_slots.simps
      by (intro load_cong store_other words_apart) (use Cons.prems Suc in simp_all)
    then show ?thesis using Cons.IH [of j "p + 8"] Cons.prems Suc by (simp add: algebra_simps)
  qed
qed simp

lemma pop_push_regs:
  assumes wf: "wf_regs regs" and sp: "get_xreg t SP = get_xreg (push_regs regs s) SP"
    and mem: "\<And>x. x \<in> area (get_xreg t SP) (8 * length (saved_regs regs)) \<Longrightarrow> memory t x = memory (push_regs regs s) x"
  shows "r \<in> set (saved_regs regs) \<Longrightarrow> get_slot (pop_regs regs t) r = get_slot s r"
    and "slot_reg_ok r \<Longrightarrow> r \<notin> set (saved_regs regs) \<Longrightarrow> get_slot (pop_regs regs t) r = get_slot t r"
    and "get_xreg (pop_regs regs t) SP = get_xreg s SP"
proof -
  let ?rs = "saved_regs regs"
  have ok: "\<forall>r \<in> set ?rs. slot_reg_ok r" using saved_regs_ok [OF wf] by blast
  have pop: "get_slot (pop_regs regs t) q = get_slot (load_slots (get_xreg t SP) ?rs t) q" if "slot_reg_ok q" for q
    using that slot_not_SP by (cases q) (auto simp: pop_regs_def Let_def get_fregd_def set_xreg_def get_xreg_def)
  show "get_xreg (pop_regs regs t) SP = get_xreg s SP"
    using sp by (simp add: pop_regs_def push_regs_def Let_def)
  show "get_slot (pop_regs regs t) r = get_slot t r" if "slot_reg_ok r" "r \<notin> set ?rs"
    using pop load_slots_other ok that by simp
  show "get_slot (pop_regs regs t) r = get_slot s r" if "r \<in> set ?rs"
  proof -
    obtain i where i: "i < length ?rs" "r = ?rs ! i" using \<open>r \<in> set ?rs\<close> by (auto simp: in_set_conv_nth)
    have "get_slot (pop_regs regs t) r = load 8 (memory t) (get_xreg t SP + 8 * of_nat i)"
      using pop ok that load_slots_nth [OF ok distinct_saved_regs i(1)] i(2) by simp
    also have "\<dots> = load 8 (memory (push_regs regs s)) (get_xreg t SP + 8 * of_nat i)"
      by (rule load_cong, rule mem) (use i(1) in \<open>auto simp: area_def intro: exI [of _ "8 * i + _"]\<close>)
    also have "\<dots> = get_slot s r"
      using load_store_slots [of i "map (get_slot s) ?rs" "get_xreg t SP" "memory s"] i length_saved_regs [of regs] sp
      by (simp add: push_regs_def Let_def)
    finally show ?thesis .
  qed
qed

text \<open>A piece of code between \<open>PushRegisters\<close> and \<open>PopRegisters\<close> of one set.\<close>

lemma saved_body:
  assumes "wf_asm a" and "wf_regs regs" and body: "\<And>b. wf_asm b \<Longrightarrow> transforms n (body b) B b"
  shows "\<exists>G. transforms (n + 520) (seqE [PushRegisters regs, body, PopRegisters regs] a) G a \<and>
    (\<forall>P s u. let m = length (saved_regs regs); sp = get_xreg s SP - 8 * of_nat m in
       area sp (8 * m) \<inter> P = {} \<longrightarrow> stack_words sp m s \<longrightarrow> B P (push_regs regs s) = Some u \<longrightarrow>
       get_xreg u SP = sp \<longrightarrow> stack_base u = stack_base s \<longrightarrow>
       (\<forall>x \<in> area sp (8 * m). memory u x = memory (push_regs regs s) x) \<longrightarrow>
       (\<exists>t. G P s = Some t \<and> get_xreg t SP = get_xreg s SP \<and>
          (\<forall>r. slot_reg_ok r \<longrightarrow> get_slot t r = get_slot (if r \<in> set (saved_regs regs) then s else u) r)))"
proof -
  let ?m = "length (saved_regs regs)"
  let ?E = "\<lambda>P s. let n = ?m; sp = get_xreg s SP - 8 * of_nat n
      in if area sp (8 * n) \<inter> P = {} \<and> stack_words sp n s then Some (push_regs regs s) else None"
  let ?L = "\<lambda>(P :: u64 set) s. if stack_words (get_xreg s SP) ?m s then Some (pop_regs regs s) else None"
  let ?G = "seqG ?E (seqG B (seqG ?L (pureG (\<lambda>s. s))))"
  have t: "transforms (260 + (n + (260 + 0))) (seqE [PushRegisters regs, body, PopRegisters regs] a) ?G a"
    by (intro transforms_Cons transforms_Nil PushRegisters_transforms PopRegisters_transforms body assms(1,2))
  have "\<exists>t. ?G P s = Some t \<and> get_xreg t SP = get_xreg s SP \<and>
      (\<forall>r. slot_reg_ok r \<longrightarrow> get_slot t r = get_slot (if r \<in> set (saved_regs regs) then s else u) r)"
    if p: "area sp (8 * ?m) \<inter> P = {}" "stack_words sp ?m s" "B P (push_regs regs s) = Some u"
      and k: "get_xreg u SP = sp" "stack_base u = stack_base s"
        "\<forall>x \<in> area sp (8 * ?m). memory u x = memory (push_regs regs s) x"
      and sp: "sp = get_xreg s SP - 8 * of_nat ?m" for P s u sp
  proof -
    have L: "?L P u = Some (pop_regs regs u)" using p(2) k(1,2) by (simp add: stack_words_def)
    have u: "get_xreg u SP = get_xreg (push_regs regs s) SP" using k(1) sp by (simp add: push_regs_def Let_def)
    have mem: "\<And>x. x \<in> area (get_xreg u SP) (8 * ?m) \<Longrightarrow> memory u x = memory (push_regs regs s) x"
      using k by simp
    show ?thesis
      using p(1,2) [unfolded sp] p(3) L pop_push_regs [OF assms(2) u mem]
      by (intro exI [of _ "pop_regs regs u"]) (auto simp: seqG_def pureG_def Let_def)
  qed
  then show ?thesis using t by (intro exI [of _ ?G]) (simp add: add.commute Let_def)
qed

end
