(* ===== verification/Riscv_Objects.thy ===== *)
theory Riscv_Objects
  imports Riscv_Stack
begin

text \<open>
  Access to objects: loads and stores at a 32-bit offset from a register, and tagged
  integers (\<open>Smi\<close>).

  An offset beyond the 12-bit immediate is split: its high part plus the base goes to
  \<open>TMP2\<close> and its low part stays in the instruction.  The two parts are shown to address
  the sum of base and offset, except for the 2048 offsets at the top of the 32-bit
  range, whose high part wraps.  A \<open>Smi\<close> is an integer shifted left by one bit.
\<close>

unbundle bit_operations_syntax

subsection \<open>Loads and stores with a large offset\<close>

text \<open>What \<open>at_offset\<close> relies on: the access with a short offset has a guarded effect.\<close>

locale memory_access =
  fixes access :: "Address \<Rightarrow> asm_op" and X :: "Register \<Rightarrow> intptr \<Rightarrow> guarded"
  assumes transforms_access: "wf_asm a \<Longrightarrow> IsITypeImm imm \<Longrightarrow>
    transforms 4 (access (Address base imm) a) (X base imm) a"

text \<open>The register and the state the access is made with.\<close>

definition offset_base :: "Register \<Rightarrow> intptr \<Rightarrow> Register" where
  "offset_base base imm = (if IsITypeImm imm then base else TMP2)"

definition offset_state :: "Register \<Rightarrow> intptr \<Rightarrow> sim \<Rightarrow> sim" where
  "offset_state base imm s = (if IsITypeImm imm then s else set_xreg TMP2 (get_xreg s base + split_hi imm) s)"

definition offsetG :: "(Register \<Rightarrow> intptr \<Rightarrow> guarded) \<Rightarrow> Register \<Rightarrow> intptr \<Rightarrow> guarded" where
  "offsetG X base imm =
     seqG (pureG (offset_state base imm))
       (X (offset_base base imm) (if IsITypeImm imm then imm else split_lo imm))"

text \<open>Offsets whose parts add up: all but the top 2048 of the 32-bit range.\<close>

definition offset_ok :: "u32 \<Rightarrow> bool" where
  "offset_ok offset \<longleftrightarrow> sint offset < 0x7FFFF800"

lemma IsInt_offset:
  assumes "offset_ok offset"
  shows "IsInt 32 (scast offset - split_lo (scast offset :: intx))"
proof -
  let ?x = "scast offset :: intx"
  have r: "- 2147483648 \<le> sint offset" "sint offset < 2147483648" using sint_range_size [of offset] by (simp_all add: word_size)
  then have x: "sint ?x = sint offset" by (simp add: signed_scast_eq signed_take_bit_int_eq_self)
  have lo: "- 2048 \<le> sint (split_lo ?x)" "sint (split_lo ?x) < 2048" by (rule sint_split_lo)+
  have "sint (?x - split_lo ?x) = sint ?x - sint (split_lo ?x)"
    using sint_word_of_int_fits [of "sint ?x - sint (split_lo ?x)", where 'a = 64] r lo x by simp
  moreover obtain k where k: "sint (?x - split_lo ?x) = 4096 * k" using sint_minus_split_lo_dvd [of ?x] by (elim dvdE)
  moreover have "- 524288 \<le> k" "k < 524288" using r lo assms x calculation unfolding offset_ok_def by linarith+
  ultimately show ?thesis by (simp add: IsInt_iff_sint)
qed

lemma offset_sum:
  assumes "offset_ok offset"
  shows "split_hi (scast offset) + split_lo (scast offset) = (scast offset :: intx)"
  by (rule split_sum [OF IsInt_offset [OF assms]])

lemma scast_ucast: "LENGTH('b) \<le> 64 \<Longrightarrow> scast (ucast v :: 'b::len word) = signed_take_bit (LENGTH('b) - 1) (v :: u64)"
  by (rule bit_word_eqI) (auto simp: bit_signed_iff bit_ucast_iff bit_signed_take_bit_iff min_def)

lemma split_hi_nonzero:
  assumes "\<not> IsITypeImm (scast (offset :: u32) :: intx)"
  shows "split_hi (scast offset) \<noteq> 0"
proof
  let ?x = "scast offset :: intx"
  assume "split_hi ?x = 0"
  then have "(scast (ucast (split_lo ?x) :: u32) :: intx) = scast (ucast ?x :: u32)" using ucast_split [of ?x] by simp
  moreover have "(scast (ucast y :: u32) :: intx) = y" if "IsInt 32 y" for y :: intx
    using that by (simp add: scast_ucast IsInt_iff_signed_take_bit)
  moreover have "IsInt 32 ?x"
    using sint_range_size [of offset] by (simp add: IsInt_iff_sint word_size signed_scast_eq signed_take_bit_int_eq_self)
  ultimately have "split_lo ?x = ?x" using IsInt_split_lo [of ?x] by simp
  then show False using IsITypeImm_split_lo [of ?x] assms by simp
qed

text \<open>The wrapped case: the access is $2^{32}$ below the address meant.\<close>

lemma offset_wraps:
  assumes "\<not> offset_ok offset"
  shows "split_hi (scast offset) + split_lo (scast offset) = (scast offset - 0x100000000 :: intx)"
proof -
  let ?x = "scast offset :: intx"
  have r: "2147481600 \<le> sint offset" "sint offset < 2147483648"
    using assms sint_range_size [of offset] by (simp_all add: offset_ok_def word_size)
  then have x: "sint ?x = sint offset" by (simp add: signed_scast_eq signed_take_bit_int_eq_self)
  let ?d = "?x - split_lo ?x"
  have lo: "- 2048 \<le> sint (split_lo ?x)" "sint (split_lo ?x) < 2048" by (rule sint_split_lo)+
  have d: "sint ?d = sint ?x - sint (split_lo ?x)"
    using sint_word_of_int_fits [of "sint ?x - sint (split_lo ?x)", where 'a = 64] r lo x by simp
  moreover obtain k where "sint ?d = 4096 * k" using sint_minus_split_lo_dvd [of ?x] by (elim dvdE)
  moreover have "k = 524288" using r lo x calculation by linarith
  ultimately have "sint ?d = 2147483648" by simp
  then have "?d = 2147483648" by (intro signed_word_eqI) simp
  moreover have "signed_take_bit 31 (2147483648 :: u64) = - 2147483648" by code_simp
  ultimately have "split_hi ?x = - 2147483648" by (simp only: split_hi_eq)
  then show ?thesis using \<open>?d = 2147483648\<close> by (simp add: algebra_simps)
qed

lemma seqG_pure: "seqG (pureG f) (seqG (pureG g) X) = seqG (pureG (\<lambda>s. g (f s))) X"
  by (intro ext) (simp add: seqG_def pureG_def)

lemma seqG_id: "seqG X (pureG (\<lambda>s. s)) = X" "seqG (pureG (\<lambda>s. s)) X = X"
proof -
  show "seqG X (pureG (\<lambda>s. s)) = X"
  proof (intro ext)
    fix P s show "seqG X (pureG (\<lambda>s. s)) P s = X P s" by (cases "X P s") (simp_all add: seqG_def pureG_def)
  qed
qed (intro ext, simp add: seqG_def pureG_def)

context memory_access
begin

lemma at_offset_transforms:
  assumes "wf_asm a" and "base \<noteq> ZR" and "base \<noteq> TMP2"
  shows "transforms 12 (at_offset base offset access a) (offsetG X base (scast offset)) a"
proof (cases "IsITypeImm (scast offset :: intx)")
  case True
  then have "offsetG X base (scast offset) = X base (scast offset)"
    by (simp add: offsetG_def offset_state_def [abs_def] offset_base_def seqG_id)
  moreover have "transforms 12 (access (Address base (scast offset)) a) (X base (scast offset)) a"
    by (rule transforms_mono [OF transforms_access]) (simp_all add: assms True)
  ultimately show ?thesis using True assms(3) by (simp add: at_offset_def ASSERT_def Let_def)
next
  case False
  let ?imm = "scast offset :: intx"
  let ?lui = "\<lambda>s. set_xreg TMP2 (split_hi ?imm) s" and ?add = "\<lambda>s. set_xreg TMP2 (get_xreg s TMP2 + get_xreg s base) s"
  have "transforms (4 + (4 + (4 + 0))) (seqE [lui TMP2 (split_hi ?imm), add TMP2 TMP2 base, access (Address TMP2 (split_lo ?imm))] a)
      (seqG (pureG ?lui) (seqG (pureG ?add) (seqG (X TMP2 (split_lo ?imm)) (pureG (\<lambda>s. s))))) a"
    by (intro transforms_Cons transforms_Nil transforms_assembles assembles_lui add.assembles_op transforms_access
        IsUTypeImm_split_hi IsITypeImm_split_lo split_hi_nonzero assms False) (use assms(2) in auto)
  moreover have "(\<lambda>s. ?add (?lui s)) = offset_state base ?imm"
    using assms(3) False by (intro ext) (simp add: offset_state_def, simp add: add.commute)
  ultimately show ?thesis
    using False assms(3) split_hi_nonzero [OF False]
    by (simp add: at_offset_def ASSERT_def Let_def offsetG_def offset_base_def seqG_pure seqG_id)
qed

end

lemma guarded_extended: "guarded_effect (readG sz (\<lambda>rd v. set_xreg rd (g v)) rd base imm)"
  by (rule guarded_read; simp add: set_xreg_update)

lemma guarded_stored: "guarded_effect (writeG sz get_xreg rs2 base imm)"
  by (rule guarded_write; simp add: get_xreg_def)

interpretation lb_access: memory_access "lb rd" "readG 1 (\<lambda>rd v. set_xreg rd (scast (ucast v :: u8))) rd" for rd
  by unfold_locales (rule lb.transforms_load; simp add: guarded_extended)

interpretation lbu_access: memory_access "lbu rd" "readG 1 set_xreg rd" for rd
  by unfold_locales (rule lbu.transforms_load; simp add: guarded_extended)

interpretation lh_access: memory_access "lh rd" "readG 2 (\<lambda>rd v. set_xreg rd (scast (ucast v :: u16))) rd" for rd
  by unfold_locales (rule lh.transforms_load; simp add: guarded_extended)

interpretation lhu_access: memory_access "lhu rd" "readG 2 set_xreg rd" for rd
  by unfold_locales (rule lhu.transforms_load; simp add: guarded_extended)

interpretation lw_access: memory_access "lw rd" "readG 4 (\<lambda>rd v. set_xreg rd (scast (ucast v :: u32))) rd" for rd
  by unfold_locales (rule lw.transforms_load; simp add: guarded_extended)

interpretation lwu_access: memory_access "lwu rd" "readG 4 set_xreg rd" for rd
  by unfold_locales (rule lwu.transforms_load; simp add: guarded_extended)

interpretation ld_access: memory_access "ld rd" "readG 8 set_xreg rd" for rd
  by unfold_locales (rule ld.transforms_load; simp add: guarded_extended)

interpretation fld_access: memory_access "fld rd" "readG 8 set_fregd rd" for rd
  by unfold_locales (rule transforms_fld)

interpretation sb_access: memory_access "sb rs2" "writeG 1 get_xreg rs2" for rs2
  by unfold_locales (rule sb.transforms_store; simp add: guarded_stored IsITypeImm_def IsSTypeImm_def)

interpretation sh_access: memory_access "sh rs2" "writeG 2 get_xreg rs2" for rs2
  by unfold_locales (rule sh.transforms_store; simp add: guarded_stored IsITypeImm_def IsSTypeImm_def)

interpretation sw_access: memory_access "sw rs2" "writeG 4 get_xreg rs2" for rs2
  by unfold_locales (rule sw.transforms_store; simp add: guarded_stored IsITypeImm_def IsSTypeImm_def)

interpretation sd_access: memory_access "sd rs2" "writeG 8 get_xreg rs2" for rs2
  by unfold_locales (rule sd.transforms_store; simp add: guarded_stored IsITypeImm_def IsSTypeImm_def)

interpretation fsd_access: memory_access "fsd rs2" "writeG 8 get_fregd rs2" for rs2
  by unfold_locales (rule transforms_fsd)

text \<open>The integer sizes: the width in bytes and the extension of a loaded value to 64 bits.\<close>

fun bytes_of :: "OperandSize \<Rightarrow> nat option" where
  "bytes_of kByte = Some 1" | "bytes_of kUnsignedByte = Some 1"
| "bytes_of kTwoBytes = Some 2" | "bytes_of kUnsignedTwoBytes = Some 2"
| "bytes_of kFourBytes = Some 4" | "bytes_of kUnsignedFourBytes = Some 4"
| "bytes_of kEightBytes = Some 8" | "bytes_of _ = None"

fun extend_to :: "OperandSize \<Rightarrow> u64 \<Rightarrow> u64" where
  "extend_to kByte v = scast (ucast v :: u8)" | "extend_to kUnsignedByte v = ucast (ucast v :: u8)"
| "extend_to kTwoBytes v = scast (ucast v :: u16)" | "extend_to kUnsignedTwoBytes v = ucast (ucast v :: u16)"
| "extend_to kFourBytes v = scast (ucast v :: u32)" | "extend_to kUnsignedFourBytes v = ucast (ucast v :: u32)"
| "extend_to _ v = v"

lemma offsetG_read:
  assumes "offset_ok offset" and "base \<noteq> TMP2"
  shows "offsetG (readG n put rd) base (scast offset) P s =
    (case MemoryRead n (get_xreg s base + scast offset) (offset_base base (scast offset)) (offset_state base (scast offset) s) of
       Inl e \<Rightarrow> None | Inr v \<Rightarrow> Some (put rd v (offset_state base (scast offset) s)))"
  using offset_sum [OF assms(1)] assms(2)
  by (cases "IsITypeImm (scast offset :: intx)")
    (simp_all add: offsetG_def seqG_def pureG_def readG_def offset_state_def offset_base_def add.assoc cong: sum.case_cong)

lemma offsetG_write:
  assumes "offset_ok offset" and "base \<noteq> TMP2"
  shows "offsetG (writeG n get rs2) base (scast offset) P s =
    (let addr = get_xreg s base + scast offset; t = offset_state base (scast offset) s
     in if area addr n \<inter> P \<noteq> {} then None
        else case MemoryWrite n addr (get t rs2) (offset_base base (scast offset)) t of Inl e \<Rightarrow> None | Inr u \<Rightarrow> Some u)"
  using offset_sum [OF assms(1)] assms(2)
  by (cases "IsITypeImm (scast offset :: intx)")
    (simp_all add: offsetG_def seqG_def pureG_def writeG_def offset_state_def offset_base_def add.assoc Let_def cong: sum.case_cong)

lemma load_range: "n \<le> 8 \<Longrightarrow> take_bit (8 * n) (load n m p) = load n m p"
proof (induction n arbitrary: p)
  case (Suc n)
  have "take_bit (8 * Suc n) (ucast (m p) :: u64) = ucast (m p)"
    by (rule bit_word_eqI) (auto simp: bit_take_bit_iff bit_ucast_iff dest: bit_imp_le_length)
  then show ?case using Suc by (simp add: take_bit_push_bit)
qed simp

lemma readG_cong:
  assumes "n \<le> 8" and "\<And>v. take_bit (8 * n) v = v \<Longrightarrow> put rd v = put' rd v"
  shows "readG n put rd base imm = readG n put' rd base imm"
  using assms load_range [OF assms(1)]
  by (intro ext) (auto simp: readG_def MemoryRead_def split: sum.splits option.splits)

lemma ucast_ucast: "ucast (ucast v :: 'b::len word) = take_bit LENGTH('b) (v :: u64)"
  by (rule bit_word_eqI) (auto simp: bit_ucast_iff bit_take_bit_iff dest: bit_imp_le_length)

lemma LoadFromOffset_transforms:
  assumes "wf_asm a" and "base \<noteq> ZR" and "base \<noteq> TMP2" and "bytes_of sz = Some n"
  shows "transforms 12 (LoadFromOffset dest base offset sz a)
    (offsetG (readG n (\<lambda>rd v. set_xreg rd (extend_to sz v)) dest) base (scast offset)) a"
proof -
  have "readG 1 set_xreg dest = readG 1 (\<lambda>rd v. set_xreg rd (ucast (ucast v :: u8))) dest"
    "readG 2 set_xreg dest = readG 2 (\<lambda>rd v. set_xreg rd (ucast (ucast v :: u16))) dest"
    "readG 4 set_xreg dest = readG 4 (\<lambda>rd v. set_xreg rd (ucast (ucast v :: u32))) dest"
    by (intro ext, rule fun_cong [OF fun_cong [OF readG_cong]]; simp add: ucast_ucast)+
  then show ?thesis
    using lb_access.at_offset_transforms [OF assms(1-3), of offset dest] lbu_access.at_offset_transforms [OF assms(1-3), of offset dest]
      lh_access.at_offset_transforms [OF assms(1-3), of offset dest] lhu_access.at_offset_transforms [OF assms(1-3), of offset dest]
      lw_access.at_offset_transforms [OF assms(1-3), of offset dest] lwu_access.at_offset_transforms [OF assms(1-3), of offset dest]
      ld_access.at_offset_transforms [OF assms(1-3), of offset dest] assms(4)
    by (cases sz) (auto simp: LoadFromOffset_def)
qed

lemma StoreToOffset_transforms:
  assumes "wf_asm a" and "base \<noteq> ZR" and "base \<noteq> TMP2" and "bytes_of sz = Some n"
  shows "transforms 12 (StoreToOffset src base offset sz a) (offsetG (writeG n get_xreg src) base (scast offset)) a"
  using sb_access.at_offset_transforms [OF assms(1-3), of offset src] sh_access.at_offset_transforms [OF assms(1-3), of offset src]
    sw_access.at_offset_transforms [OF assms(1-3), of offset src] sd_access.at_offset_transforms [OF assms(1-3), of offset src] assms(4)
  by (cases sz) (auto simp: StoreToOffset_def)

text \<open>A value stored at an offset is loaded from it, cut to its size and extended.\<close>

lemma CheckAccess_offset_state [simp]: "CheckAccess n addr b (offset_state base imm s) = CheckAccess n addr b s"
  by (simp add: CheckAccess_def offset_state_def)

lemma offset_state_simps [simp]:
  "memory (offset_state base imm s) = memory s" "q \<noteq> TMP2 \<Longrightarrow> get_xreg (offset_state base imm s) q = get_xreg s q"
  by (simp_all add: offset_state_def)

lemma ucast_take_bit: "LENGTH('b) \<le> 64 \<Longrightarrow> ucast (take_bit LENGTH('b) (v :: u64)) = (ucast v :: 'b::len word)"
  by (rule bit_word_eqI) (auto simp: bit_ucast_iff bit_take_bit_iff)

lemma extend_take_bit: "bytes_of sz = Some n \<Longrightarrow> extend_to sz (take_bit (8 * n) v) = extend_to sz v"
  using ucast_take_bit [of v, where 'b = 8] ucast_take_bit [of v, where 'b = 16] ucast_take_bit [of v, where 'b = 32]
  by (cases sz) (auto simp: take_bit_word_eq_self)

lemma store_load_offset:
  assumes "wf_asm a" and base: "base \<noteq> ZR" "base \<noteq> TMP2" and ok: "offset_ok offset" and sz: "bytes_of sz = Some n"
    and src: "src \<noteq> TMP2" and dest: "dest \<noteq> ZR"
  shows "\<exists>G. transforms 24 (bindE (StoreToOffset src base offset sz a) (LoadFromOffset dest base offset sz)) G a \<and>
    (\<forall>P s. let addr = get_xreg s base + scast offset in
       CheckAccess n addr (offset_base base (scast offset)) s = None \<longrightarrow> area addr n \<inter> P = {} \<longrightarrow>
       (\<exists>t. G P s = Some t \<and> memory t = store n addr (get_xreg s src) (memory s) \<and>
          get_xreg t dest = extend_to sz (get_xreg s src) \<and>
          (\<forall>q. q \<notin> {dest, TMP2} \<longrightarrow> get_xreg t q = get_xreg s q)))"
proof -
  let ?G = "seqG (offsetG (writeG n get_xreg src) base (scast offset))
      (offsetG (readG n (\<lambda>rd v. set_xreg rd (extend_to sz v)) dest) base (scast offset))"
  have t: "transforms (12 + 12) (bindE (StoreToOffset src base offset sz a) (LoadFromOffset dest base offset sz)) ?G a"
    by (rule transforms_bindE [OF StoreToOffset_transforms [OF assms(1) base sz] assms(1)])
      (rule LoadFromOffset_transforms [OF _ base sz])
  have n: "n \<le> 8" using sz by (cases sz) auto
  have "\<exists>t. ?G P s = Some t \<and> memory t = store n addr (get_xreg s src) (memory s) \<and>
      get_xreg t dest = extend_to sz (get_xreg s src) \<and> (\<forall>q. q \<notin> {dest, TMP2} \<longrightarrow> get_xreg t q = get_xreg s q)"
    if c: "CheckAccess n addr (offset_base base (scast offset)) s = None" and d: "area addr n \<inter> P = {}"
      and addr: "addr = get_xreg s base + scast offset" for P s addr
  proof -
    let ?u = "(offset_state base (scast offset) s)\<lparr>memory := store n addr (get_xreg s src) (memory s)\<rparr>"
    have "offsetG (writeG n get_xreg src) base (scast offset) P s = Some ?u"
      using c d src by (simp add: offsetG_write [OF ok base(2)] Let_def addr MemoryWrite_def)
    moreover have "CheckAccess n addr b ?u = CheckAccess n addr b s" for b by (simp add: CheckAccess_def offset_state_def)
    then have "offsetG (readG n (\<lambda>rd v. set_xreg rd (extend_to sz v)) dest) base (scast offset) P ?u =
        Some (set_xreg dest (extend_to sz (get_xreg s src)) (offset_state base (scast offset) ?u))"
      using c base by (simp add: offsetG_read [OF ok base(2)] MemoryRead_def addr load_store [OF n] extend_take_bit [OF sz])
    ultimately show ?thesis
      using dest by (auto simp: seqG_def)
  qed
  then show ?thesis using t by (intro exI [of _ ?G]) (simp add: Let_def)
qed

subsection \<open>Tagged integers\<close>

lemma shift_one [simp]: "0 <s (1 :: u64)" "(1 :: u64) <s 64"
  by (simp_all add: word_sless_alt)

lemma SmiTag_assembles:
  "wf_asm a \<Longrightarrow> assembles 4 (SmiTag dst src a) (\<lambda>s. set_xreg dst (push_bit 1 (get_xreg s src)) s) a"
  using slli.assembles_op [of a 1 dst src] by (simp add: SmiTag_def)

lemma SmiUntag_assembles:
  "wf_asm a \<Longrightarrow> assembles 4 (SmiUntag dst src a) (\<lambda>s. set_xreg dst (signed_drop_bit 1 (get_xreg s src)) s) a"
  using srai.assembles_op [of a 1 dst src] by (simp add: SmiUntag_def)

lemma signed_drop_push: "k < 64 \<Longrightarrow> signed_drop_bit k (push_bit k x) = signed_take_bit (63 - k) (x :: u64)"
proof (rule bit_word_eqI)
  fix n assume k: "k < 64" and n: "n < LENGTH(64)"
  have "n = 63 - k" if "63 - k \<le> n" "\<not> 64 - k \<le> n" using that by simp
  then show "bit (signed_drop_bit k (push_bit k x)) n = bit (signed_take_bit (63 - k) x) n"
    using k n by (auto simp: bit_signed_drop_bit_iff bit_signed_take_bit_iff bit_push_bit_iff min_def)
qed

lemma smi_roundtrip:
  assumes "wf_asm a" and "rd \<noteq> ZR"
  shows "assembles 8 (seqE [SmiTag rd rs, SmiUntag rd rd] a) (\<lambda>s. set_xreg rd (signed_take_bit 62 (get_xreg s rs)) s) a"
proof -
  have "assembles (4 + (4 + 0)) (seqE [SmiTag rd rs, SmiUntag rd rd] a)
    (\<lambda>s. set_xreg rd (signed_drop_bit 1 (get_xreg (set_xreg rd (push_bit 1 (get_xreg s rs)) s) rd))
       (set_xreg rd (push_bit 1 (get_xreg s rs)) s)) a"
    by (intro assembles_Cons assembles_Nil SmiTag_assembles SmiUntag_assembles assms)
  then show ?thesis using assms(2) signed_drop_push [of 1] by simp
qed

text \<open>Two shifts in the same register.\<close>

lemma assembles_shifts:
  assumes "wf_asm a" and "rd \<noteq> ZR" and "\<And>a. wf_asm a \<Longrightarrow> assembles 4 (op2 a) (\<lambda>s. set_xreg rd (g (get_xreg s rd)) s) a"
    and "0 <s i" and "i <s 64"
  shows "assembles 8 (seqE [slli rd rn i, op2] a) (\<lambda>s. set_xreg rd (g (push_bit (unat i) (get_xreg s rn))) s) a"
proof -
  have "assembles (4 + (4 + 0)) (seqE [slli rd rn i, op2] a)
    (\<lambda>s. set_xreg rd (g (get_xreg (set_xreg rd (push_bit (unat i) (get_xreg s rn)) s) rd))
       (set_xreg rd (push_bit (unat i) (get_xreg s rn)) s)) a"
    by (intro assembles_Cons assembles_Nil slli.assembles_op conjI assms)
  then show ?thesis using assms(2) by simp
qed

lemma drop_push_unsigned:
  assumes "0 < k" and "k < 64"
  shows "drop_bit (k - 1) (push_bit k x) = push_bit 1 (take_bit (64 - k) (x :: u64))"
proof (rule bit_word_eqI)
  fix n assume "n < LENGTH(64)"
  then show "bit (drop_bit (k - 1) (push_bit k x)) n = bit (push_bit 1 (take_bit (64 - k) x)) n"
    using assms by (cases n) (auto simp: bit_drop_bit_eq bit_push_bit_iff bit_take_bit_iff simp del: push_bit_Suc)
qed

lemma drop_push_signed:
  assumes "0 < k" and "k < 64"
  shows "signed_drop_bit (k - 1) (push_bit k x) = push_bit 1 (signed_take_bit (63 - k) (x :: u64))"
proof (rule bit_word_eqI)
  fix n assume n: "n < LENGTH(64)"
  have "n - 1 = 63 - k" if "63 - k \<le> n - 1" "\<not> 65 - k \<le> n" using that by simp
  then show "bit (signed_drop_bit (k - 1) (push_bit k x)) n = bit (push_bit 1 (signed_take_bit (63 - k) x)) n"
    using assms n
    by (cases n) (auto simp: bit_signed_drop_bit_iff bit_signed_take_bit_iff bit_push_bit_iff min_def simp del: push_bit_Suc)
qed

lemma extend_to_bits:
  "extend_to kByte v = signed_take_bit 7 v" "extend_to kUnsignedByte v = take_bit 8 v"
  "extend_to kTwoBytes v = signed_take_bit 15 v" "extend_to kUnsignedTwoBytes v = take_bit 16 v"
  "extend_to kFourBytes v = signed_take_bit 31 v" "extend_to kUnsignedFourBytes v = take_bit 32 v"
  "extend_to kEightBytes v = v"
  by (simp_all add: scast_ucast ucast_ucast)

lemma ExtendAndSmiTagValue_assembles:
  assumes "wf_asm a" and "rd \<noteq> ZR" and "bytes_of sz = Some n"
  shows "assembles 8 (ExtendAndSmiTagValue rd rn sz a) (\<lambda>s. set_xreg rd (push_bit 1 (extend_to sz (get_xreg s rn))) s) a"
proof -
  have ops: "assembles 8 (seqE [slli rd rn i, srli rd rd j] a) (\<lambda>s. set_xreg rd (drop_bit (unat j) (push_bit (unat i) (get_xreg s rn))) s) a"
    "assembles 8 (seqE [slli rd rn i, srai rd rd j] a) (\<lambda>s. set_xreg rd (signed_drop_bit (unat j) (push_bit (unat i) (get_xreg s rn))) s) a"
    if "0 <s i" "i <s 64" "0 <s j" "j <s 64" for i j
    by (intro assembles_shifts [where g = "drop_bit (unat j)"] assembles_shifts [where g = "signed_drop_bit (unat j)"]
        srli.assembles_op srai.assembles_op conjI assms that; assumption?)+
  show ?thesis
    using assms(3) assembles_weaken [OF SmiTag_assembles [OF assms(1)]] ops [of 32 31] ops [of 48 47] ops [of 56 55]
      drop_push_unsigned [of 32] drop_push_unsigned [of 48] drop_push_unsigned [of 56]
      drop_push_signed [of 32] drop_push_signed [of 48] drop_push_signed [of 56]
    by (cases sz) (auto simp: ExtendAndSmiTagValue_def extend_to_bits word_sless_alt simp del: seqE.simps extend_to.simps(1-6))
qed

lemma BranchIfSmi_branches:
  assumes "wf_asm a" and "bound_within l a" and "reg \<noteq> TMP2"
  shows "branches_to (BranchIfSmi reg l kFarJump a) (\<lambda>s. set_xreg TMP2 (get_xreg s reg AND 1) s)
      (\<lambda>s. even (get_xreg s reg)) l a"
    and "branches_to (BranchIfNotSmi reg l kFarJump a) (\<lambda>s. set_xreg TMP2 (get_xreg s reg AND 1) s)
      (\<lambda>s. odd (get_xreg s reg)) l a"
proof -
  have "IsITypeImm (1 :: u64)" by (simp add: IsITypeImm_def IsInt_iff_sint)
  then have t: "assembles 4 (andi TMP2 reg 1 a) (\<lambda>s. set_xreg TMP2 (get_xreg s reg AND 1) s) a"
    by (intro andi.assembles_op assms)
  have e: "(x AND 1 = (0 :: u64)) = even x" for x by (simp add: and_one_eq even_iff_mod_2_eq_zero)
  note b = beq.branches_after [OF t assms(1,2), of TMP2 ZR] bne.branches_after [OF t assms(1,2), of TMP2 ZR]
  show "branches_to (BranchIfSmi reg l kFarJump a) (\<lambda>s. set_xreg TMP2 (get_xreg s reg AND 1) s)
      (\<lambda>s. even (get_xreg s reg)) l a"
    using branches_to_cong [OF b(1), of "\<lambda>s. even (get_xreg s reg)"] assms(3)
    by (simp add: BranchIfSmi_def ASSERT_def zero_ok_def e seqE_single_fun)
  show "branches_to (BranchIfNotSmi reg l kFarJump a) (\<lambda>s. set_xreg TMP2 (get_xreg s reg AND 1) s)
      (\<lambda>s. odd (get_xreg s reg)) l a"
    using branches_to_cong [OF b(2), of "\<lambda>s. odd (get_xreg s reg)"] assms(3)
    by (simp add: BranchIfNotSmi_def ASSERT_def zero_ok_def e seqE_single_fun)
qed

lemma ExtractClassIdFromTags_assembles:
  assumes "wf_asm a"
  shows "assembles 4 (ExtractClassIdFromTags result tags a)
    (\<lambda>s. set_xreg result (take_bit 16 (drop_bit 16 (get_xreg s tags))) s) a"
proof -
  have "sign_extend32 (drop_bit 16 (ucast x)) = take_bit 16 (drop_bit 16 (x :: u64))" for x
    by (rule bit_word_eqI) (auto simp: sign_extend32_def bit_signed_iff bit_ucast_iff bit_take_bit_iff bit_drop_bit_eq min_def)
  then show ?thesis
    using srliw.assembles_op [OF assms, of 16 result tags] by (simp add: ExtractClassIdFromTags_def word_sless_alt)
qed

lemma ExtractInstanceSizeFromTags_assembles:
  assumes "wf_asm a" and "result \<noteq> ZR"
  shows "assembles 12 (ExtractInstanceSizeFromTags result tags a)
    (\<lambda>s. set_xreg result (16 * take_bit 8 (drop_bit 8 (get_xreg s tags))) s) a"
proof -
  have imm: "IsITypeImm (255 :: u64)" "0 <s (8 :: u64)" "(8 :: u64) <s 64" "0 <s (4 :: u64)" "(4 :: u64) <s 64"
    by (simp_all add: IsITypeImm_def IsInt_iff_sint word_sless_alt)
  have "assembles (4 + (4 + (4 + 0))) (seqE [srli result tags 8, andi result result 255, slli result result 4] a)
    (\<lambda>s. (\<lambda>s. set_xreg result (push_bit (unat (4 :: u64)) (get_xreg s result)) s)
      ((\<lambda>s. set_xreg result (get_xreg s result AND 255) s) (set_xreg result (drop_bit (unat (8 :: u64)) (get_xreg s tags)) s))) a"
    by (intro assembles_Cons assembles_Nil srli.assembles_op andi.assembles_op slli.assembles_op conjI assms imm)
  moreover have "push_bit 4 (x AND 255) = 16 * take_bit 8 (x :: u64)" for x
    by (simp add: push_bit_eq_mult take_bit_eq_mask mask_eq_exp_minus_1)
  ultimately show ?thesis using assms(2) by (simp add: ExtractInstanceSizeFromTags_def)
qed

end
