(* ===== verification/Riscv_Labels.thy ===== *)
theory Riscv_Labels
  imports Riscv_Branches
begin

text \<open>
  Labels that are not bound yet.  A branch to such a label stores the distance to
  the previous branch of its class instead of a displacement, and the label holds
  the position of the last one: a linked list in the code buffer, ended by the
  distance 0.  \<open>Bind\<close> walks each of the five lists and patches every branch.

  The locale \<open>patchable\<close> is the contract of an update function (\<open>UpdateBOffset\<close>
  and its relatives); the walk is verified once and holds for the five classes.
\<close>

unbundle bit_operations_syntax

subsection \<open>The code buffer\<close>

definition slice :: "nat \<Rightarrow> nat \<Rightarrow> 'a list \<Rightarrow> 'a list" where
  "slice p n xs = take n (drop p xs)"

lemma length_slice: "p + n \<le> length xs \<Longrightarrow> length (slice p n xs) = n"
  by (simp add: slice_def)

lemma slice_append: "p + n \<le> length xs \<Longrightarrow> slice p n (xs @ ys) = slice p n xs"
  by (simp add: slice_def)

lemma slice_at_end: "slice (length xs) (length ys) (xs @ ys) = ys"
  by (simp add: slice_def)

lemma length_write_bytes: "k + length bs \<le> length xs \<Longrightarrow> length (write_bytes k bs xs) = length xs"
  by (simp add: write_bytes_def)

lemma slice_write_same: "k + length bs \<le> length xs \<Longrightarrow> slice k (length bs) (write_bytes k bs xs) = bs"
  by (simp add: write_bytes_def slice_def)

lemma nth_write_other:
  assumes "k + length bs \<le> length xs" and "i < k \<or> k + length bs \<le> i"
  shows "write_bytes k bs xs ! i = xs ! i"
proof (cases "i < k")
  case True
  then show ?thesis using assms(1) by (simp add: write_bytes_def nth_append)
next
  case False
  then have "k + length bs \<le> i" "\<not> i - k < length bs" using assms(2) by auto
  then show ?thesis using assms(1) by (simp add: write_bytes_def nth_append)
qed

lemma slice_write_other:
  assumes "k + length bs \<le> length xs" and "j + m \<le> k \<or> k + length bs \<le> j"
  shows "slice j m (write_bytes k bs xs) = slice j m xs"
proof (rule nth_equalityI)
  show "length (slice j m (write_bytes k bs xs)) = length (slice j m xs)"
    using length_write_bytes [OF assms(1)] by (simp add: slice_def)
  fix i assume "i < length (slice j m (write_bytes k bs xs))"
  then have i: "i < m" "j + i < length xs"
    using length_write_bytes [OF assms(1)] by (auto simp: slice_def)
  then have "write_bytes k bs xs ! (j + i) = xs ! (j + i)"
    using assms by (intro nth_write_other) auto
  then show "slice j m (write_bytes k bs xs) ! i = slice j m xs ! i"
    using i length_write_bytes [OF assms(1)] by (simp add: slice_def)
qed

lemma nth_slice: "p + n \<le> length xs \<Longrightarrow> i < n \<Longrightarrow> xs ! (p + i) = slice p n xs ! i"
  by (simp add: slice_def)

lemma Read32_slice:
  assumes "0 \<le> p" and "nat p + 4 \<le> length (buffer a)" and "slice (nat p) 4 (buffer a) = bytes32 w"
  shows "Read32 p a = Inr w"
proof -
  have b: "buffer a ! nat p = ucast w" "buffer a ! (nat p + 1) = ucast (drop_bit 8 w)"
    "buffer a ! (nat p + 2) = ucast (drop_bit 16 w)" "buffer a ! (nat p + 3) = ucast (drop_bit 24 w)"
    using nth_slice [OF assms(2), of 0] nth_slice [OF assms(2), of 1] nth_slice [OF assms(2), of 2]
      nth_slice [OF assms(2), of 3] by (simp_all add: assms(3) bytes32_def)
  have "ucast (buffer a ! nat p) OR push_bit 8 (ucast (buffer a ! (nat p + 1))) OR
      push_bit 16 (ucast (buffer a ! (nat p + 2))) OR push_bit 24 (ucast (buffer a ! (nat p + 3))) = w"
    unfolding b
  proof (rule bit_word_eqI)
    fix n assume n: "n < LENGTH(32)"
    consider "n < 8" | "8 \<le> n" "n < 16" | "16 \<le> n" "n < 24" | "24 \<le> n" by linarith
    then show "bit (ucast (ucast w :: u8) OR push_bit 8 (ucast (ucast (drop_bit 8 w) :: u8)) OR
      push_bit 16 (ucast (ucast (drop_bit 16 w) :: u8)) OR push_bit 24 (ucast (ucast (drop_bit 24 w) :: u8)) :: u32) n = bit w n"
      using n by cases (auto simp: bit_simps)
  qed
  then show ?thesis using assms(1,2) by (simp add: Read32_def ASSERT_def in_buffer_def Position_def Let_def)
qed

lemma Read16_slice:
  assumes "0 \<le> p" and "nat p + 2 \<le> length (buffer a)" and "slice (nat p) 2 (buffer a) = bytes16 w"
  shows "Read16 p a = Inr w"
proof -
  have b: "buffer a ! nat p = ucast w" "buffer a ! (nat p + 1) = ucast (drop_bit 8 w)"
    using nth_slice [OF assms(2), of 0] nth_slice [OF assms(2), of 1] by (simp_all add: assms(3) bytes16_def)
  have "ucast (buffer a ! nat p) OR push_bit 8 (ucast (buffer a ! (nat p + 1))) = w"
    unfolding b
  proof (rule bit_word_eqI)
    fix n assume "n < LENGTH(16)"
    then show "bit (ucast (ucast w :: u8) OR push_bit 8 (ucast (ucast (drop_bit 8 w) :: u8)) :: u16) n = bit w n"
      by (cases "n < 8") (auto simp: bit_simps)
  qed
  then show ?thesis using assms(1,2) by (simp add: Read16_def ASSERT_def in_buffer_def Position_def Let_def)
qed

lemma Write_eq:
  assumes "0 \<le> p" and "nat p + n \<le> length (buffer a)"
  shows "n = 4 \<Longrightarrow> Write32 p w a = Inr (a\<lparr>buffer := write_bytes (nat p) (bytes32 w) (buffer a)\<rparr>)"
    and "n = 2 \<Longrightarrow> Write16 p e a = Inr (a\<lparr>buffer := write_bytes (nat p) (bytes16 e) (buffer a)\<rparr>)"
  using assms by (auto simp: Write32_def Write16_def ASSERT_def in_buffer_def Position_def)

subsection \<open>Lists of branches in the buffer\<close>

text \<open>
  A class of branches: the code of a branch of kind \<open>k\<close> (its registers and
  condition) with displacement \<open>d\<close>, the length of the code, the kinds, and the
  displacements that can be encoded.
\<close>

record 'k branch_class =
  enc :: "'k \<Rightarrow> int \<Rightarrow> u8 list"
  width :: nat
  kind_ok :: "'k \<Rightarrow> bool"
  fits :: "int \<Rightarrow> bool"

text \<open>A list of unresolved branches, the last one first: each holds the distance to the one before it.\<close>

fun linked :: "'k branch_class \<Rightarrow> u8 list \<Rightarrow> (int \<times> 'k) list \<Rightarrow> bool" where
  "linked C xs [] = True"
| "linked C xs ((p, k) # bs) \<longleftrightarrow>
     0 \<le> p \<and> nat p + width C \<le> length xs \<and> kind_ok C k \<and>
     (case bs of [] \<Rightarrow> slice (nat p) (width C) xs = enc C k 0
      | (q, _) # _ \<Rightarrow> q + int (width C) \<le> p \<and> fits C (p - q) \<and> slice (nat p) (width C) xs = enc C k (p - q)) \<and>
     linked C xs bs"

definition head :: "(int \<times> 'k) list \<Rightarrow> int" where
  "head bs = (case bs of [] \<Rightarrow> - 1 | (p, _) # _ \<Rightarrow> p)"

text \<open>Every branch of the list resolved to the target.\<close>

fun patch :: "'k branch_class \<Rightarrow> int \<Rightarrow> (int \<times> 'k) list \<Rightarrow> u8 list \<Rightarrow> u8 list" where
  "patch C target [] xs = xs"
| "patch C target ((p, k) # bs) xs = patch C target bs (write_bytes (nat p) (enc C k (target - p)) xs)"

text \<open>The target is in reach of every branch, and the positions are aligned as instructions are.\<close>

definition reachable_from :: "'k branch_class \<Rightarrow> asm \<Rightarrow> int \<Rightarrow> (int \<times> 'k) list \<Rightarrow> bool" where
  "reachable_from C a target bs \<longleftrightarrow>
     (\<forall>(p, _) \<in> set bs. fits C (target - p) \<and> IsAligned (word_of_int p :: intptr) (code_alignment a) \<and>
        IsAligned (word_of_int (target - p) :: intptr) (code_alignment a))"

definition resolved :: "'k branch_class \<Rightarrow> u8 list \<Rightarrow> int \<Rightarrow> (int \<times> 'k) list \<Rightarrow> bool" where
  "resolved C xs target bs \<longleftrightarrow> (\<forall>(p, k) \<in> set bs. slice (nat p) (width C) xs = enc C k (target - p))"

text \<open>The places of the branches, and places that do not overlap.\<close>

definition sites :: "'k branch_class \<Rightarrow> (int \<times> 'k) list \<Rightarrow> (int \<times> int) list" where
  "sites C bs = map (\<lambda>(p, _). (p, int (width C))) bs"

definition apart :: "(int \<times> int) list \<Rightarrow> (int \<times> int) list \<Rightarrow> bool" where
  "apart xs ys \<longleftrightarrow> (\<forall>(p, m) \<in> set xs. \<forall>(q, n) \<in> set ys. p + m \<le> q \<or> q + n \<le> p)"

fun all_apart :: "(int \<times> int) list list \<Rightarrow> bool" where
  "all_apart [] = True"
| "all_apart (S # Ss) \<longleftrightarrow> (\<forall>T \<in> set Ss. apart S T) \<and> all_apart Ss"

lemma apart_commute: "apart xs ys = apart ys xs"
  by (auto simp: apart_def)

lemma linked_append: "linked C xs bs \<Longrightarrow> linked C (xs @ ys) bs"
  by (induction bs) (auto simp: slice_append split: list.splits)

lemma linked_below: "linked C xs ((p, k) # bs) \<Longrightarrow> \<forall>(q, _) \<in> set bs. q + int (width C) \<le> p"
proof (induction bs arbitrary: p k)
  case (Cons b bs)
  obtain q j where b: "b = (q, j)" by (cases b)
  have "q + int (width C) \<le> p" and "linked C xs ((q, j) # bs)" using Cons.prems b by auto
  then show ?case using Cons.IH [of q j] b by fastforce
qed simp

lemma linked_in: "linked C xs bs \<Longrightarrow> (p, k) \<in> set bs \<Longrightarrow> 0 \<le> p \<and> nat p + width C \<le> length xs \<and> kind_ok C k"
  by (induction bs) auto

text \<open>Bytes written apart from the branches of a list leave the list alone.\<close>

lemma linked_write:
  assumes "linked C xs bs" and "k + length ws \<le> length xs"
    and "\<forall>(p, _) \<in> set bs. p + int (width C) \<le> int k \<or> int (k + length ws) \<le> p"
  shows "linked C (write_bytes k ws xs) bs"
  using assms
proof (induction bs)
  case (Cons b bs)
  obtain p j where b: "b = (p, j)" by (cases b)
  have "slice (nat p) (width C) (write_bytes k ws xs) = slice (nat p) (width C) xs"
    using Cons.prems b by (intro slice_write_other) auto
  then show ?case using Cons b by (auto simp: length_write_bytes split: list.splits)
qed simp

subsection \<open>The walk\<close>

locale patchable =
  fixes C :: "'k branch_class"
    and update :: "int \<Rightarrow> int \<Rightarrow> asm \<Rightarrow> asm_error + int \<times> asm"
  assumes length_enc: "length (enc C k d) = width C" and width: "0 < width C" and fits_0: "fits C 0"
    and update_patches: "0 \<le> p \<Longrightarrow> nat p + width C \<le> length (buffer a) \<Longrightarrow>
      slice (nat p) (width C) (buffer a) = enc C k old \<Longrightarrow> kind_ok C k \<Longrightarrow> fits C old \<Longrightarrow> fits C new \<Longrightarrow>
      update p new a = Inr (old, a\<lparr>buffer := write_bytes (nat p) (enc C k new) (buffer a)\<rparr>)"
    and update_returns: "0 \<le> p \<Longrightarrow> nat p + width C \<le> length (buffer a) \<Longrightarrow>
      slice (nat p) (width C) (buffer a) = enc C k old \<Longrightarrow> kind_ok C k \<Longrightarrow> fits C old \<Longrightarrow>
      (\<exists>e. update p new a = Inl e) \<or>
      (\<exists>ws. length ws = width C \<and> update p new a = Inr (old, a\<lparr>buffer := write_bytes (nat p) ws (buffer a)\<rparr>))"
begin

lemma length_patch: "linked C xs bs \<Longrightarrow> length (patch C target bs xs) = length xs"
proof (induction bs arbitrary: xs)
  case (Cons b bs)
  obtain p k where b: "b = (p, k)" by (cases b)
  have l: "nat p + length (enc C k (target - p)) \<le> length xs" "0 \<le> p" using Cons.prems b by (simp_all add: length_enc)
  have "linked C (write_bytes (nat p) (enc C k (target - p)) xs) bs"
    by (rule linked_write [OF _ l(1)]) (use Cons.prems b linked_below [of C xs p k bs] l in auto)
  then show ?case using Cons.IH b l by (simp add: length_write_bytes)
qed simp

text \<open>Other bytes are unchanged.\<close>

lemma slice_patch_other:
  assumes "linked C xs bs" and "\<forall>(p, _) \<in> set bs. int j + int m \<le> p \<or> p + int (width C) \<le> int j"
  shows "slice j m (patch C target bs xs) = slice j m xs"
  using assms
proof (induction bs arbitrary: xs)
  case (Cons b bs)
  obtain p k where b: "b = (p, k)" by (cases b)
  have l: "nat p + length (enc C k (target - p)) \<le> length xs" "0 \<le> p" using Cons.prems b by (simp_all add: length_enc)
  have "linked C (write_bytes (nat p) (enc C k (target - p)) xs) bs"
    by (rule linked_write [OF _ l(1)]) (use Cons.prems b linked_below [of C xs p k bs] l in auto)
  moreover have "slice j m (write_bytes (nat p) (enc C k (target - p)) xs) = slice j m xs"
    using Cons.prems b l by (intro slice_write_other) (auto simp: length_enc)
  ultimately show ?case using Cons b by simp
qed simp

text \<open>Every branch of the list has its displacement.\<close>

lemma slice_patch:
  assumes "linked C xs bs" and "(p, k) \<in> set bs"
  shows "slice (nat p) (width C) (patch C target bs xs) = enc C k (target - p)"
  using assms
proof (induction bs arbitrary: xs)
  case (Cons b bs)
  obtain q j where b: "b = (q, j)" by (cases b)
  let ?ys = "write_bytes (nat q) (enc C j (target - q)) xs"
  have l: "nat q + length (enc C j (target - q)) \<le> length xs" "0 \<le> q" using Cons.prems b by (simp_all add: length_enc)
  have below: "\<forall>(p, _) \<in> set bs. p + int (width C) \<le> q" using Cons.prems b linked_below [of C xs q j bs] by simp
  have bs: "linked C ?ys bs"
    by (rule linked_write [OF _ l(1)]) (use Cons.prems b below l in auto)
  show ?case
  proof (cases "(p, k) \<in> set bs")
    case True
    then show ?thesis using Cons.IH [OF bs] b by simp
  next
    case False
    then have pk: "p = q" "k = j" using Cons.prems(2) b by auto
    have "slice (nat p) (width C) (patch C target bs ?ys) = slice (nat p) (width C) ?ys"
      by (rule slice_patch_other [OF bs]) (use below l(2) pk in \<open>auto split: prod.splits\<close>)
    also have "\<dots> = enc C k (target - p)"
      using slice_write_same [OF l(1)] pk by (simp add: length_enc)
    finally show ?thesis using b by simp
  qed
qed simp

text \<open>Lists of other branches are unchanged.\<close>

lemma linked_patch_other:
  assumes "linked C xs bs" and "linked D xs cs" and "apart (sites C bs) (sites D cs)"
  shows "linked D (patch C target bs xs) cs"
  using assms
proof (induction bs arbitrary: xs)
  case (Cons b bs)
  obtain p k where b: "b = (p, k)" by (cases b)
  have l: "nat p + length (enc C k (target - p)) \<le> length xs" "0 \<le> p" using Cons.prems b by (simp_all add: length_enc)
  have "linked C (write_bytes (nat p) (enc C k (target - p)) xs) bs"
    by (rule linked_write [OF _ l(1)]) (use Cons.prems b linked_below [of C xs p k bs] l in auto)
  moreover have "linked D (write_bytes (nat p) (enc C k (target - p)) xs) cs"
    by (rule linked_write [OF Cons.prems(2) l(1)])
      (use Cons.prems(3) b l in \<open>auto simp: apart_def sites_def length_enc\<close>)
  ultimately show ?case using Cons b by (simp add: apart_def sites_def)
qed simp

lemma resolved_patch: "linked C xs bs \<Longrightarrow> resolved C (patch C target bs xs) target bs"
  by (auto simp: resolved_def slice_patch)

lemma resolved_patch_other:
  assumes "linked C xs bs" and "resolved D xs target cs" and "apart (sites C bs) (sites D cs)"
    and "\<forall>(p, _) \<in> set cs. 0 \<le> p"
  shows "resolved D (patch C target' bs xs) target cs"
proof -
  have "slice (nat p) (width D) (patch C target' bs xs) = slice (nat p) (width D) xs" if "(p, k) \<in> set cs" for p k
    by (rule slice_patch_other [OF assms(1)]) (use that assms(3,4) in \<open>fastforce simp: apart_def sites_def\<close>)
  then show ?thesis using assms(2) by (fastforce simp: resolved_def)
qed

lemma BIND_loop_patches:
  assumes "linked C (buffer a) bs" and "reachable_from C a target bs"
  shows "BIND_loop update target (head bs) a = Some (Inr (a\<lparr>buffer := patch C target bs (buffer a)\<rparr>))"
  using assms
proof (induction bs arbitrary: a)
  case Nil
  show ?case by (subst BIND_loop.simps) (simp add: head_def)
next
  case (Cons b bs)
  obtain p k where b: "b = (p, k)" by (cases b)
  define old where "old = (case bs of [] \<Rightarrow> 0 | (q, _) # _ \<Rightarrow> p - q)"
  let ?a = "a\<lparr>buffer := write_bytes (nat p) (enc C k (target - p)) (buffer a)\<rparr>"
  have l: "nat p + length (enc C k (target - p)) \<le> length (buffer a)" "0 \<le> p" and k: "kind_ok C k"
    using Cons.prems b by (simp_all add: length_enc)
  have old: "slice (nat p) (width C) (buffer a) = enc C k old" "fits C old"
    using Cons.prems(1) b fits_0 by (auto simp: old_def split: list.splits)
  have "update p (target - p) a = Inr (old, ?a)"
    by (rule update_patches [OF l(2) _ old(1) k old(2)])
      (use l Cons.prems(2) b in \<open>auto simp: length_enc reachable_from_def\<close>)
  then have step: "BIND_loop update target (head (b # bs)) a =
      (if old = 0 then Some (Inr ?a) else BIND_loop update target (p - old) ?a)"
    using Cons.prems(2) b l(2) by (subst BIND_loop.simps) (simp add: head_def reachable_from_def)
  show ?case
  proof (cases bs)
    case Nil
    then show ?thesis using step b by (simp add: old_def)
  next
    case (Cons c cs)
    obtain q j where c: "c = (q, j)" by (cases c)
    have "q + int (width C) \<le> p" using Cons.prems(1) b \<open>bs = c # cs\<close> c by simp
    then have "old \<noteq> 0" "p - old = head bs" using Cons c width by (simp_all add: old_def head_def)
    moreover have "linked C (buffer ?a) bs"
      using linked_write [of C "buffer a" bs "nat p" "enc C k (target - p)"] Cons.prems(1) b l
        linked_below [of C "buffer a" p k bs] by fastforce
    moreover have "reachable_from C ?a target bs"
      using Cons.prems(2) by (auto simp: reachable_from_def code_alignment_def Supports_def)
    ultimately show ?thesis using step Cons.IH [of ?a] b by simp
  qed
qed

lemma BIND_patches:
  assumes "linked C (buffer a) bs" and "reachable_from C a target bs" and "head_of (labels a l) = head bs"
  shows "BIND head_of clear update target l a =
    Some (Inr (a\<lparr>buffer := patch C target bs (buffer a), labels := (labels a)(l := clear (labels a l))\<rparr>))"
  using assms BIND_loop_patches [OF assms(1,2)] by (simp add: BIND_def)

text \<open>The walk ends even when a displacement does not fit.\<close>

lemma BIND_loop_returns:
  assumes "linked C (buffer a) bs"
  shows "\<exists>r. BIND_loop update target (head bs) a = Some r"
  using assms
proof (induction bs arbitrary: a)
  case Nil
  show ?case by (subst BIND_loop.simps) (simp add: head_def)
next
  case (Cons b bs)
  obtain p k where b: "b = (p, k)" by (cases b)
  define old where "old = (case bs of [] \<Rightarrow> 0 | (q, _) # _ \<Rightarrow> p - q)"
  have l: "nat p + width C \<le> length (buffer a)" "0 \<le> p" and k: "kind_ok C k"
    using Cons.prems b by simp_all
  have old: "slice (nat p) (width C) (buffer a) = enc C k old" "fits C old"
    using Cons.prems(1) b fits_0 by (auto simp: old_def split: list.splits)
  have rest: "\<exists>r. BIND_loop update target (p - old) (a\<lparr>buffer := write_bytes (nat p) ws (buffer a)\<rparr>) = Some r"
    if "old \<noteq> 0" "length ws = width C" for ws
  proof -
    have "p - old = head bs" using that(1) by (auto simp: old_def head_def split: list.splits)
    moreover have "linked C (write_bytes (nat p) ws (buffer a)) bs"
      using linked_write [of C "buffer a" bs "nat p" ws] Cons.prems b l that(2)
        linked_below [of C "buffer a" p k bs] by fastforce
    ultimately show ?thesis using Cons.IH [of "a\<lparr>buffer := write_bytes (nat p) ws (buffer a)\<rparr>"] by simp
  qed
  show ?case
    using update_returns [OF l(2,1) old(1) k old(2), of "target - p"] rest b
    by (subst BIND_loop.simps) (auto simp: head_def)
qed

end

subsection \<open>The five classes\<close>

definition exact :: "int \<Rightarrow> bool" where
  "exact d \<longleftrightarrow> sint (word_of_int d :: intptr) = d"

definition b_class :: "(Register \<times> Register \<times> Funct3) branch_class" where
  "b_class = \<lparr>enc = (\<lambda>(rs1, rs2, funct3) d. bytes32 (BType (word_of_int d) rs2 rs1 funct3 op_BRANCH)), width = 4,
     kind_ok = (\<lambda>(rs1, rs2, funct3). is_branch funct3), fits = (\<lambda>d. exact d \<and> IsBTypeImm (word_of_int d))\<rparr>"

definition j_class :: "Register branch_class" where
  "j_class = \<lparr>enc = (\<lambda>rd d. bytes32 (JType (word_of_int d) rd op_JAL)), width = 4,
     kind_ok = (\<lambda>rd. True), fits = (\<lambda>d. exact d \<and> IsJTypeImm (word_of_int d))\<rparr>"

definition far_class :: "unit branch_class" where
  "far_class = \<lparr>enc = (\<lambda>_ d. far_code (word_of_int d)), width = 8,
     kind_ok = (\<lambda>_. True), fits = (\<lambda>d. exact d \<and> IsInt 32 (word_of_int d - split_lo (word_of_int d)))\<rparr>"

definition cb_class :: "(COpcode \<times> Register) branch_class" where
  "cb_class = \<lparr>enc = (\<lambda>(opcode, rs1p) d. bytes16 (CB opcode rs1p (word_of_int d))), width = 2,
     kind_ok = (\<lambda>(opcode, rs1p). (opcode = C_BEQZ \<or> opcode = C_BNEZ) \<and> IsCRs1p rs1p),
     fits = (\<lambda>d. exact d \<and> IsCBImm (word_of_int d))\<rparr>"

definition cj_class :: "unit branch_class" where
  "cj_class = \<lparr>enc = (\<lambda>_ d. bytes16 (CJ C_J (word_of_int d))), width = 2,
     kind_ok = (\<lambda>_. True), fits = (\<lambda>d. exact d \<and> IsCJImm (word_of_int d))\<rparr>"

lemma exact_0: "exact 0"
  by (simp add: exact_def)

text \<open>All five update functions check the displacement, rewrite the branch and return the old one.\<close>

lemma patchableI:
  assumes "\<And>k d. length (enc C k d) = width C" and "0 < width C" and "fits C 0"
    and "\<And>p new a k old. 0 \<le> p \<Longrightarrow> nat p + width C \<le> length (buffer a) \<Longrightarrow>
      slice (nat p) (width C) (buffer a) = enc C k old \<Longrightarrow> kind_ok C k \<Longrightarrow> fits C old \<Longrightarrow>
      update p new a = FATAL_unless (ok new) e
        (Inr (old, a\<lparr>buffer := write_bytes (nat p) (enc C k new) (buffer a)\<rparr>))"
    and "\<And>d. fits C d \<Longrightarrow> ok d"
  shows "patchable C update"
proof
  fix p :: int and a :: asm and k old new
  assume p: "0 \<le> p" "nat p + width C \<le> length (buffer a)" "slice (nat p) (width C) (buffer a) = enc C k old"
    "kind_ok C k" "fits C old"
  note u = assms(4) [OF p]
  show "(\<exists>e. update p new a = Inl e) \<or>
      (\<exists>ws. length ws = width C \<and> update p new a = Inr (old, a\<lparr>buffer := write_bytes (nat p) ws (buffer a)\<rparr>))"
    using assms(1) by (auto simp: u FATAL_unless_def)
  show "update p new a = Inr (old, a\<lparr>buffer := write_bytes (nat p) (enc C k new) (buffer a)\<rparr>)" if "fits C new"
    using assms(5) [OF that] by (simp add: u FATAL_unless_def)
qed (rule assms)+

lemmas update_simps = ASSERT_def FATAL_unless_def dec_simps IsOpcode_def exact_def is_branch_IsFunct3
  IsFunct3_def

interpretation b: patchable b_class UpdateBOffset
proof (rule patchableI [where ok = "\<lambda>d. IsBTypeImm (word_of_int d)" and e = BranchOffsetError])
  fix p new :: int and a :: asm and k :: "Register \<times> Register \<times> Funct3" and old :: int
  obtain rs1 rs2 f where k: "k = (rs1, rs2, f)" by (cases k)
  assume *: "0 \<le> p" "nat p + width b_class \<le> length (buffer a)"
    "slice (nat p) (width b_class) (buffer a) = enc b_class k old" "kind_ok b_class k" "fits b_class old"
  then have "Read32 p a = Inr (BType (word_of_int old) rs2 rs1 f op_BRANCH)"
    by (intro Read32_slice) (simp_all add: b_class_def k)
  then show "UpdateBOffset p new a = FATAL_unless (IsBTypeImm (word_of_int new)) BranchOffsetError
      (Inr (old, a\<lparr>buffer := write_bytes (nat p) (enc b_class k new) (buffer a)\<rparr>))"
    using * is_branch_IsFunct3 [of f] Write_eq(1) [of p 4 a]
    by (simp add: UpdateBOffset_def b_class_def k update_simps)
qed (auto simp: b_class_def exact_0 IsBTypeImm_def IsInt_iff_sint IsAligned_def)

interpretation j: patchable j_class UpdateJOffset
proof (rule patchableI [where ok = "\<lambda>d. IsJTypeImm (word_of_int d)" and e = BranchOffsetError])
  fix p new :: int and a :: asm and rd :: Register and old :: int
  assume *: "0 \<le> p" "nat p + width j_class \<le> length (buffer a)"
    "slice (nat p) (width j_class) (buffer a) = enc j_class rd old" "kind_ok j_class rd" "fits j_class old"
  then have "Read32 p a = Inr (JType (word_of_int old) rd op_JAL)"
    by (intro Read32_slice) (simp_all add: j_class_def)
  then show "UpdateJOffset p new a = FATAL_unless (IsJTypeImm (word_of_int new)) BranchOffsetError
      (Inr (old, a\<lparr>buffer := write_bytes (nat p) (enc j_class rd new) (buffer a)\<rparr>))"
    using * Write_eq(1) [of p 4 a] by (simp add: UpdateJOffset_def j_class_def update_simps)
qed (auto simp: j_class_def exact_0 IsJTypeImm_def IsInt_iff_sint IsAligned_def)

interpretation cb: patchable cb_class UpdateCBOffset
proof (rule patchableI [where ok = "\<lambda>d. IsCBImm (word_of_int d)" and e = IncorrectNearJump])
  fix p new :: int and a :: asm and k :: "COpcode \<times> Register" and old :: int
  obtain opcode r where k: "k = (opcode, r)" by (cases k)
  assume *: "0 \<le> p" "nat p + width cb_class \<le> length (buffer a)"
    "slice (nat p) (width cb_class) (buffer a) = enc cb_class k old" "kind_ok cb_class k" "fits cb_class old"
  then have "Read16 p a = Inr (CB opcode r (word_of_int old))"
    by (intro Read16_slice) (simp_all add: cb_class_def k)
  then show "UpdateCBOffset p new a = FATAL_unless (IsCBImm (word_of_int new)) IncorrectNearJump
      (Inr (old, a\<lparr>buffer := write_bytes (nat p) (enc cb_class k new) (buffer a)\<rparr>))"
    using * Write_eq(2) [of p 2 a] by (auto simp: UpdateCBOffset_def cb_class_def k update_simps CInstr_opcode_def)
qed (auto simp: cb_class_def exact_0 IsCBImm_def IsInt_iff_sint IsAligned_def)

interpretation cj: patchable cj_class UpdateCJOffset
proof (rule patchableI [where ok = "\<lambda>d. IsCJImm (word_of_int d)" and e = IncorrectNearJump])
  fix p new :: int and a :: asm and k :: unit and old :: int
  assume *: "0 \<le> p" "nat p + width cj_class \<le> length (buffer a)"
    "slice (nat p) (width cj_class) (buffer a) = enc cj_class k old" "kind_ok cj_class k" "fits cj_class old"
  then have "Read16 p a = Inr (CJ C_J (word_of_int old))"
    by (intro Read16_slice) (simp_all add: cj_class_def)
  then show "UpdateCJOffset p new a = FATAL_unless (IsCJImm (word_of_int new)) IncorrectNearJump
      (Inr (old, a\<lparr>buffer := write_bytes (nat p) (enc cj_class k new) (buffer a)\<rparr>))"
    using * Write_eq(2) [of p 2 a] by (simp add: UpdateCJOffset_def cj_class_def update_simps CInstr_opcode_def)
qed (auto simp: cj_class_def exact_0 IsCJImm_def IsInt_iff_sint IsAligned_def)

text \<open>A far branch is two instructions.\<close>

lemma slice_halves:
  assumes "slice p (m + n) xs = ys @ zs" and "length ys = m" and "length zs = n"
  shows "slice p m xs = ys" and "slice (p + m) n xs = zs"
proof -
  have "slice p m xs = take m (slice p (m + n) xs)" by (simp add: slice_def)
  then show "slice p m xs = ys" using assms by simp
  have "slice (p + m) n xs = drop m (slice p (m + n) xs)"
    by (simp add: slice_def drop_take add.commute)
  then show "slice (p + m) n xs = zs" using assms by simp
qed

lemma write_bytes_halves:
  assumes "p + length ys + length zs \<le> length xs"
  shows "write_bytes (p + length ys) zs (write_bytes p ys xs) = write_bytes p (ys @ zs) xs"
proof -
  have "length ys \<le> length xs - p" "p \<le> length xs" using assms by simp_all
  then show ?thesis using assms by (simp add: write_bytes_def ac_simps)
qed

interpretation far: patchable far_class UpdateFarOffset
proof (rule patchableI [where ok = "\<lambda>d. True" and e = DistanceExceeds2GB])
  fix p new :: int and a :: asm and k :: unit and old :: int
  assume *: "0 \<le> p" "nat p + width far_class \<le> length (buffer a)"
    "slice (nat p) (width far_class) (buffer a) = enc far_class k old" "kind_ok far_class k" "fits far_class old"
  let ?w = "word_of_int old :: intptr" and ?n = "word_of_int new :: intptr"
  have len: "nat p + 8 \<le> length (buffer a)" using *(2) by (simp add: far_class_def)
  have p4: "nat (p + 4) = nat p + 4" "0 \<le> p + 4" using *(1) by simp_all
  have halves: "slice (nat p) 4 (buffer a) = bytes32 (UType (split_hi ?w) FAR_TMP op_AUIPC)"
    "slice (nat p + 4) 4 (buffer a) = bytes32 (IType (split_lo ?w) FAR_TMP f3_0 ZR op_JALR)"
    using slice_halves [of "nat p" 4 4 "buffer a"] *(3) by (simp_all add: far_class_def far_code_def)
  have r: "Read32 p a = Inr (UType (split_hi ?w) FAR_TMP op_AUIPC)"
    "Read32 (p + 4) a = Inr (IType (split_lo ?w) FAR_TMP f3_0 ZR op_JALR)"
    using len * halves p4 by (simp_all add: Read32_slice)
  have w: "Write32 p x b = Inr (b\<lparr>buffer := write_bytes (nat p) (bytes32 x) (buffer b)\<rparr>)"
    "Write32 (p + 4) x b = Inr (b\<lparr>buffer := write_bytes (nat p + 4) (bytes32 x) (buffer b)\<rparr>)"
    if "length (buffer b) = length (buffer a)" for x b
    using len *(1) p4 that Write_eq(1) [of p 4 b] Write_eq(1) [of "p + 4" 4 b] by simp_all
  have "split_hi ?w + split_lo ?w = ?w" "sint ?w = old"
    using *(5) by (simp_all add: far_class_def exact_def split_sum)
  moreover have "write_bytes (nat p + 4) (bytes32 y) (write_bytes (nat p) (bytes32 x) (buffer a))
      = write_bytes (nat p) (bytes32 x @ bytes32 y) (buffer a)" for x y
    using write_bytes_halves [of "nat p" "bytes32 x" "bytes32 y" "buffer a"] len by simp
  ultimately show "UpdateFarOffset p new a = FATAL_unless True DistanceExceeds2GB
      (Inr (old, a\<lparr>buffer := write_bytes (nat p) (enc far_class k new) (buffer a)\<rparr>))"
    using len
    by (simp add: UpdateFarOffset_def r w update_simps IsUTypeImm_split_hi IsITypeImm_split_lo Let_def
        far_class_def far_code_def length_write_bytes)
qed (auto simp: far_class_def length_far_code exact_0 split_lo_eq IsInt_iff_sint)

subsection \<open>Bind\<close>

text \<open>The lists of a label, one per class.\<close>

record label_lists =
  list_cb :: "(int \<times> COpcode \<times> Register) list"
  list_cj :: "(int \<times> unit) list"
  list_b :: "(int \<times> Register \<times> Register \<times> Funct3) list"
  list_j :: "(int \<times> Register) list"
  list_far :: "(int \<times> unit) list"

definition label_linked :: "label \<Rightarrow> asm \<Rightarrow> label_lists \<Rightarrow> bool" where
  "label_linked l a L \<longleftrightarrow>
     unresolved_cb (labels a l) = head (list_cb L) \<and> linked cb_class (buffer a) (list_cb L) \<and>
     unresolved_cj (labels a l) = head (list_cj L) \<and> linked cj_class (buffer a) (list_cj L) \<and>
     unresolved_b (labels a l) = head (list_b L) \<and> linked b_class (buffer a) (list_b L) \<and>
     unresolved_j (labels a l) = head (list_j L) \<and> linked j_class (buffer a) (list_j L) \<and>
     unresolved_far (labels a l) = head (list_far L) \<and> linked far_class (buffer a) (list_far L) \<and>
     all_apart [sites cb_class (list_cb L), sites cj_class (list_cj L), sites b_class (list_b L),
       sites j_class (list_j L), sites far_class (list_far L)]"

definition label_reachable :: "asm \<Rightarrow> label_lists \<Rightarrow> bool" where
  "label_reachable a L \<longleftrightarrow>
     reachable_from cb_class a (Position a) (list_cb L) \<and> reachable_from cj_class a (Position a) (list_cj L) \<and>
     reachable_from b_class a (Position a) (list_b L) \<and> reachable_from j_class a (Position a) (list_j L) \<and>
     reachable_from far_class a (Position a) (list_far L)"

definition label_resolved :: "u8 list \<Rightarrow> int \<Rightarrow> label_lists \<Rightarrow> bool" where
  "label_resolved xs target L \<longleftrightarrow>
     resolved cb_class xs target (list_cb L) \<and> resolved cj_class xs target (list_cj L) \<and>
     resolved b_class xs target (list_b L) \<and> resolved j_class xs target (list_j L) \<and>
     resolved far_class xs target (list_far L)"

lemma reachable_from_cong:
  "reachable_from C (a\<lparr>buffer := xs, labels := ls\<rparr>) target bs = reachable_from C a target bs"
  by (simp add: reachable_from_def code_alignment_def Supports_def)

lemma linked_nonneg: "linked C xs bs \<Longrightarrow> \<forall>(p, _) \<in> set bs. 0 \<le> p"
  using linked_in by fastforce

lemmas linked_patch_others = cb.linked_patch_other cj.linked_patch_other b.linked_patch_other
  j.linked_patch_other far.linked_patch_other
lemmas resolved_patches = cb.resolved_patch cj.resolved_patch b.resolved_patch j.resolved_patch far.resolved_patch
  cb.resolved_patch_other cj.resolved_patch_other b.resolved_patch_other j.resolved_patch_other
  far.resolved_patch_other
lemmas length_patches = cb.length_patch cj.length_patch b.length_patch j.length_patch far.length_patch

definition patch_all :: "int \<Rightarrow> label_lists \<Rightarrow> u8 list \<Rightarrow> u8 list" where
  "patch_all t L xs =
     patch far_class t (list_far L) (patch j_class t (list_j L) (patch b_class t (list_b L)
       (patch cj_class t (list_cj L) (patch cb_class t (list_cb L) xs))))"

lemma patch_all_resolved:
  assumes "label_linked l a L"
  shows "label_resolved (patch_all t L (buffer a)) t L" and "length (patch_all t L (buffer a)) = length (buffer a)"
proof -
  note L = assms [unfolded label_linked_def all_apart.simps]
  have "\<forall>(p, _) \<in> set (list_cb L). 0 \<le> p" "\<forall>(p, _) \<in> set (list_cj L). 0 \<le> p"
    "\<forall>(p, _) \<in> set (list_b L). 0 \<le> p" "\<forall>(p, _) \<in> set (list_j L). 0 \<le> p"
    using L linked_nonneg [of cb_class] linked_nonneg [of cj_class] linked_nonneg [of b_class]
      linked_nonneg [of j_class] by blast+
  then show "label_resolved (patch_all t L (buffer a)) t L"
    using L
    by (simp add: label_resolved_def patch_all_def linked_patch_others resolved_patches apart_commute)
  show "length (patch_all t L (buffer a)) = length (buffer a)"
    using L by (simp add: patch_all_def linked_patch_others length_patches apart_commute)
qed

lemma Position_neq: "Position a \<noteq> - 1"
  by (simp add: Position_def)

lemma Label_cleared:
  "r\<lparr>unresolved_cb := - 1, unresolved_cj := - 1, unresolved_b := - 1, unresolved_j := - 1,
     unresolved_far := - 1, position := t\<rparr> = new_Label\<lparr>position := t\<rparr>"
  by (cases r) (simp add: new_Label_def)

lemma Bind_patches:
  assumes "label_linked l a L" and "label_reachable a L" and "\<not> IsBound l a"
  shows "Bind l a = Some (Inr (a\<lparr>buffer := patch_all (Position a) L (buffer a),
    labels := (labels a)(l := new_Label\<lparr>position := Position a\<rparr>)\<rparr>))"
  using assms
  by (simp add: Bind_def label_linked_def label_reachable_def cb.BIND_patches [where bs = "list_cb L"]
      cj.BIND_patches [where bs = "list_cj L"] b.BIND_patches [where bs = "list_b L"]
      j.BIND_patches [where bs = "list_j L"] far.BIND_patches [where bs = "list_far L"]
      linked_patch_others and_then_def reachable_from_cong patch_all_def
      BindTo_def ASSERT_def IsBound_def IsLinked_def Let_def Position_neq Label_cleared)

end
