(* ===== verification/Riscv_Forward.thy ===== *)
theory Riscv_Forward
  imports Riscv_Labels
begin

text \<open>
  Branches to labels that are not bound yet, from their emission to \<open>Bind\<close>.

  \<open>labels_ok a LL\<close> is the invariant of the label store: the lists \<open>LL l\<close> of every
  label \<open>l\<close> are linked through the code buffer, and no two branches of any of
  them overlap.  It holds of a new assembler, is kept by all code that is
  appended, by every operation that emits a branch or a jump, and by \<open>Bind\<close>,
  which empties the lists of its label.  At the end the pieces meet: a forward
  branch, a body, and \<open>Bind\<close> give code that skips the body exactly when the
  condition holds.
\<close>

unbundle bit_operations_syntax

subsection \<open>Places of unresolved branches\<close>

definition all_sites :: "label_lists \<Rightarrow> (int \<times> int) list" where
  "all_sites L = sites cb_class (list_cb L) @ sites cj_class (list_cj L) @ sites b_class (list_b L) @
     sites j_class (list_j L) @ sites far_class (list_far L)"

definition no_branches :: label_lists where
  "no_branches = \<lparr>list_cb = [], list_cj = [], list_b = [], list_j = [], list_far = []\<rparr>"

definition labels_ok :: "asm \<Rightarrow> (label \<Rightarrow> label_lists) \<Rightarrow> bool" where
  "labels_ok a LL \<longleftrightarrow>
     (\<forall>l. label_linked l a (LL l)) \<and> (\<forall>l m. l \<noteq> m \<longrightarrow> apart (all_sites (LL l)) (all_sites (LL m)))"

definition within :: "int \<Rightarrow> (int \<times> int) list \<Rightarrow> bool" where
  "within n xs \<longleftrightarrow> (\<forall>(p, m) \<in> set xs. p + m \<le> n)"

lemma within_simps [simp]:
  "within n []" "within n (x # xs) \<longleftrightarrow> fst x + snd x \<le> n \<and> within n xs"
  "within n (xs @ ys) \<longleftrightarrow> within n xs \<and> within n ys"
  by (auto simp: within_def)

lemma apart_simps [simp]:
  "apart [] ys" "apart xs []" "apart (xs @ xs') ys \<longleftrightarrow> apart xs ys \<and> apart xs' ys"
  "apart xs (ys @ ys') \<longleftrightarrow> apart xs ys \<and> apart xs ys'"
  unfolding apart_def by (simp_all add: ball_Un) fastforce

lemma apart_Cons:
  "apart ((p, m) # xs) ys \<longleftrightarrow> (\<forall>(q, n) \<in> set ys. p + m \<le> q \<or> q + n \<le> p) \<and> apart xs ys"
  "apart xs ((q, n) # ys) \<longleftrightarrow> (\<forall>(p, m) \<in> set xs. p + m \<le> q \<or> q + n \<le> p) \<and> apart xs ys"
  unfolding apart_def by simp_all fastforce

lemma apart_end: "within n xs \<Longrightarrow> apart xs [(n, m)]" "within n xs \<Longrightarrow> apart [(n, m)] xs"
  by (auto simp: apart_def within_def)

lemma linked_within: "linked C xs bs \<Longrightarrow> within (int (length xs)) (sites C bs)"
  using linked_in by (fastforce simp: within_def sites_def)

lemma label_linked_within: "label_linked l a L \<Longrightarrow> within (Position a) (all_sites L)"
  by (simp add: label_linked_def all_sites_def linked_within Position_def)

lemma sites_Cons: "sites C ((p, k) # bs) = (p, int (width C)) # sites C bs"
  by (simp add: sites_def)

lemma sites_Nil [simp]: "sites C [] = []"
  by (simp add: sites_def)

subsection \<open>Appended code\<close>

lemma label_linked_append: "label_linked l a L \<Longrightarrow> label_linked l (append_code code a) L"
  by (simp add: label_linked_def linked_append)

lemma labels_ok_append: "labels_ok a LL \<Longrightarrow> labels_ok (append_code code a) LL"
  by (simp add: labels_ok_def label_linked_append)

lemma labels_ok_init:
  assumes "MicroAssembler_init level exts = Inr a"
  shows "labels_ok a (\<lambda>_. no_branches)"
  using assms
  by (auto simp: MicroAssembler_init_def ASSERT_def labels_ok_def label_linked_def no_branches_def new_Label_def
      head_def all_sites_def split: if_splits)

subsection \<open>A new branch\<close>

text \<open>The distance that a new branch at the end of the buffer stores.\<close>

definition link_distance :: "int \<Rightarrow> (int \<times> 'k) list \<Rightarrow> int" where
  "link_distance p bs = (case bs of [] \<Rightarrow> 0 | (q, _) # _ \<Rightarrow> p - q)"

lemma linked_new:
  assumes "linked C xs bs" and "kind_ok C k" and "p = int (length xs)" and "fits C (link_distance p bs)"
    and "length (enc C k (link_distance p bs)) = width C"
  shows "linked C (xs @ enc C k (link_distance p bs)) ((p, k) # bs)"
proof (cases bs)
  case Nil
  then show ?thesis using assms slice_at_end [of xs "enc C k 0"] by (simp add: link_distance_def)
next
  case (Cons b bs')
  obtain q j where b: "b = (q, j)" by (cases b)
  have "0 \<le> q" "nat q + width C \<le> length xs" using assms(1) Cons b by simp_all
  then show ?thesis
    using assms Cons b slice_at_end [of xs "enc C k (p - q)"] linked_append [OF assms(1)]
    by (simp add: link_distance_def)
qed

lemma link_offset_linked:
  assumes "linked C (buffer a) bs" and "0 < width C"
  shows "link_offset (Position a) (head bs) = Inr (link_distance (Position a) bs)"
proof (cases bs)
  case Nil
  then show ?thesis by (simp add: link_offset_def ASSERT_def head_def link_distance_def Position_def)
next
  case (Cons b bs')
  obtain q j where b: "b = (q, j)" by (cases b)
  have "0 \<le> q" "nat q + width C \<le> length (buffer a)" using assms(1) Cons b by simp_all
  then show ?thesis
    using Cons b assms(2) by (simp add: link_offset_def ASSERT_def head_def link_distance_def Position_def)
qed

lemma head_Cons [simp]: "head ((p, k) # bs) = p"
  by (simp add: head_def)

lemma class_widths:
  "width cb_class = 2" "width cj_class = 2" "width b_class = 4" "width j_class = 4" "width far_class = 8"
  by (simp_all add: cb_class_def cj_class_def b_class_def j_class_def far_class_def)

text \<open>
  \<open>links l a L code a' L'\<close>: from \<open>a\<close> to \<open>a'\<close> the code was appended, and one branch
  in it was put on the lists of \<open>l\<close>.
\<close>

definition links :: "label \<Rightarrow> asm \<Rightarrow> label_lists \<Rightarrow> u8 list \<Rightarrow> asm \<Rightarrow> label_lists \<Rightarrow> bool" where
  "links l a L code a' L' \<longleftrightarrow>
     buffer a' = buffer a @ code \<and> extensions a' = extensions a \<and> far_branch_level a' = far_branch_level a \<and>
     (\<forall>m. m \<noteq> l \<longrightarrow> labels a' m = labels a m) \<and> position (labels a' l) = position (labels a l) \<and>
     label_linked l a' L' \<and>
     (\<exists>p w. Position a \<le> p \<and> set (all_sites L') \<subseteq> insert (p, w) (set (all_sites L)))"

locale link_class = patchable C update
  for C :: "'k branch_class" and update :: "int \<Rightarrow> int \<Rightarrow> asm \<Rightarrow> asm_error + int \<times> asm" +
  fixes link :: "label \<Rightarrow> asm \<Rightarrow> asm_error + int \<times> asm"
    and head_of :: "Label \<Rightarrow> int"
    and put :: "int \<Rightarrow> Label \<Rightarrow> Label"
    and get :: "label_lists \<Rightarrow> (int \<times> 'k) list"
    and put_list :: "(int \<times> 'k) list \<Rightarrow> label_lists \<Rightarrow> label_lists"
  assumes link_eq: "link l a = bindE (link_offset (Position a) (head_of (labels a l)))
      (\<lambda>offset. Inr (offset, a\<lparr>labels := (labels a)(l := put (Position a) (labels a l))\<rparr>))"
    and head_linked: "label_linked l a L \<Longrightarrow> head_of (labels a l) = head (get L) \<and> linked C (buffer a) (get L)"
    and linked_put: "label_linked l a L \<Longrightarrow> linked C (buffer a @ code) ((Position a, k) # get L) \<Longrightarrow>
      label_linked l (append_code code (a\<lparr>labels := (labels a)(l := put (Position a) (labels a l))\<rparr>))
        (put_list ((Position a, k) # get L) L)"
    and sites_put: "set (all_sites (put_list ((p, k) # get L) L)) = insert (p, int (width C)) (set (all_sites L))"
    and position_put: "position (put p x) = position x"
begin

lemma links_new:
  assumes "label_linked l a L" and "kind_ok C k" and "d = link_distance (Position a) (get L)" and "fits C d"
  shows "\<exists>a'. link l a = Inr (d, a') \<and> Position a' = Position a \<and> extensions a' = extensions a \<and>
    links l a L (enc C k d) (append_code (enc C k d) a') (put_list ((Position a, k) # get L) L)"
proof -
  have h: "head_of (labels a l) = head (get L)" "linked C (buffer a) (get L)"
    using head_linked [OF assms(1)] by simp_all
  have "linked C (buffer a @ enc C k d) ((Position a, k) # get L)"
    unfolding assms(3) by (rule linked_new) (use assms h in \<open>simp_all add: Position_def length_enc\<close>)
  then show ?thesis
    using linked_put [OF assms(1)] link_offset_linked [OF h(2) width]
    by (auto simp: link_eq h(1) links_def assms(3) sites_put position_put Position_def)
qed

end

lemma class_sites:
  "width cb_class = 2" "width cj_class = 2" "width b_class = 4" "width j_class = 4" "width far_class = 8"
  by (simp_all add: cb_class_def cj_class_def b_class_def j_class_def far_class_def)

text \<open>A site at the end of the buffer is apart from all the others.\<close>

lemma apart_sites_end:
  assumes "label_linked l a L"
  shows "apart (sites cb_class (list_cb L)) [(Position a, w)]" "apart (sites cj_class (list_cj L)) [(Position a, w)]"
    "apart (sites b_class (list_b L)) [(Position a, w)]" "apart (sites j_class (list_j L)) [(Position a, w)]"
    "apart (sites far_class (list_far L)) [(Position a, w)]"
    "apart [(Position a, w)] (sites cb_class (list_cb L))" "apart [(Position a, w)] (sites cj_class (list_cj L))"
    "apart [(Position a, w)] (sites b_class (list_b L))" "apart [(Position a, w)] (sites j_class (list_j L))"
    "apart [(Position a, w)] (sites far_class (list_far L))"
  using label_linked_within [OF assms] by (simp_all add: all_sites_def apart_end)

lemma label_linked_heads:
  assumes "label_linked l a L"
  shows "unresolved_cb (labels a l) = head (list_cb L) \<and> linked cb_class (buffer a) (list_cb L)"
    "unresolved_cj (labels a l) = head (list_cj L) \<and> linked cj_class (buffer a) (list_cj L)"
    "unresolved_b (labels a l) = head (list_b L) \<and> linked b_class (buffer a) (list_b L)"
    "unresolved_j (labels a l) = head (list_j L) \<and> linked j_class (buffer a) (list_j L)"
    "unresolved_far (labels a l) = head (list_far L) \<and> linked far_class (buffer a) (list_far L)"
  using assms by (simp_all only: label_linked_def)

text \<open>The label with the new branch at the head of one of its lists.\<close>

lemma linked_puts:
  assumes "label_linked l a L"
  shows "linked cb_class (buffer a @ code) ((Position a, k0) # list_cb L) \<Longrightarrow>
      label_linked l (append_code code (a\<lparr>labels := (labels a)(l := labels a l\<lparr>unresolved_cb := Position a\<rparr>)\<rparr>))
        (L\<lparr>list_cb := (Position a, k0) # list_cb L\<rparr>)"
    and "linked cj_class (buffer a @ code) ((Position a, k1) # list_cj L) \<Longrightarrow>
      label_linked l (append_code code (a\<lparr>labels := (labels a)(l := labels a l\<lparr>unresolved_cj := Position a\<rparr>)\<rparr>))
        (L\<lparr>list_cj := (Position a, k1) # list_cj L\<rparr>)"
    and "linked b_class (buffer a @ code) ((Position a, k2) # list_b L) \<Longrightarrow>
      label_linked l (append_code code (a\<lparr>labels := (labels a)(l := labels a l\<lparr>unresolved_b := Position a\<rparr>)\<rparr>))
        (L\<lparr>list_b := (Position a, k2) # list_b L\<rparr>)"
    and "linked j_class (buffer a @ code) ((Position a, k3) # list_j L) \<Longrightarrow>
      label_linked l (append_code code (a\<lparr>labels := (labels a)(l := labels a l\<lparr>unresolved_j := Position a\<rparr>)\<rparr>))
        (L\<lparr>list_j := (Position a, k3) # list_j L\<rparr>)"
    and "linked far_class (buffer a @ code) ((Position a, k4) # list_far L) \<Longrightarrow>
      label_linked l (append_code code (a\<lparr>labels := (labels a)(l := labels a l\<lparr>unresolved_far := Position a\<rparr>)\<rparr>))
        (L\<lparr>list_far := (Position a, k4) # list_far L\<rparr>)"
  using assms label_linked_heads [OF assms] apart_sites_end [OF assms]
  by (simp_all add: label_linked_def linked_append sites_Cons apart_Cons del: linked.simps)

lemma all_sites_puts:
  "set (all_sites (L\<lparr>list_cb := (p, k0) # list_cb L\<rparr>)) = insert (p, int (width cb_class)) (set (all_sites L))"
  "set (all_sites (L\<lparr>list_cj := (p, k1) # list_cj L\<rparr>)) = insert (p, int (width cj_class)) (set (all_sites L))"
  "set (all_sites (L\<lparr>list_b := (p, k2) # list_b L\<rparr>)) = insert (p, int (width b_class)) (set (all_sites L))"
  "set (all_sites (L\<lparr>list_j := (p, k3) # list_j L\<rparr>)) = insert (p, int (width j_class)) (set (all_sites L))"
  "set (all_sites (L\<lparr>list_far := (p, k4) # list_far L\<rparr>)) = insert (p, int (width far_class)) (set (all_sites L))"
  by (simp_all add: all_sites_def sites_Cons Un_insert_right)

interpretation link_cb: link_class cb_class UpdateCBOffset link_cb unresolved_cb
    "\<lambda>p. unresolved_cb_update (\<lambda>_. p)" list_cb "\<lambda>bs. list_cb_update (\<lambda>_. bs)"
  by unfold_locales (simp_all add: link_cb_def label_linked_heads linked_puts all_sites_puts del: linked.simps)

interpretation link_cj: link_class cj_class UpdateCJOffset link_cj unresolved_cj
    "\<lambda>p. unresolved_cj_update (\<lambda>_. p)" list_cj "\<lambda>bs. list_cj_update (\<lambda>_. bs)"
  by unfold_locales (simp_all add: link_cj_def label_linked_heads linked_puts all_sites_puts del: linked.simps)

interpretation link_b: link_class b_class UpdateBOffset link_b unresolved_b
    "\<lambda>p. unresolved_b_update (\<lambda>_. p)" list_b "\<lambda>bs. list_b_update (\<lambda>_. bs)"
  by unfold_locales (simp_all add: link_b_def label_linked_heads linked_puts all_sites_puts del: linked.simps)

interpretation link_j: link_class j_class UpdateJOffset link_j unresolved_j
    "\<lambda>p. unresolved_j_update (\<lambda>_. p)" list_j "\<lambda>bs. list_j_update (\<lambda>_. bs)"
  by unfold_locales (simp_all add: link_j_def label_linked_heads linked_puts all_sites_puts del: linked.simps)

interpretation link_far: link_class far_class UpdateFarOffset link_far unresolved_far
    "\<lambda>p. unresolved_far_update (\<lambda>_. p)" list_far "\<lambda>bs. list_far_update (\<lambda>_. bs)"
  by unfold_locales (simp_all add: link_far_def label_linked_heads linked_puts all_sites_puts del: linked.simps)

subsection \<open>The invariant\<close>

lemma label_linked_other:
  assumes "label_linked m a M" and "buffer a' = buffer a @ code" and "labels a' m = labels a m"
  shows "label_linked m a' M"
  using assms by (simp add: label_linked_def linked_append)

lemma apart_insert:
  assumes "set xs' \<subseteq> insert (p, w) (set xs)" and "apart xs ys" and "within n ys" and "n \<le> p"
  shows "apart xs' ys"
  unfolding apart_def
proof (safe)
  fix q k r m assume "(q, k) \<in> set xs'" and y: "(r, m) \<in> set ys" and "\<not> r + m \<le> q"
  moreover have "r + m \<le> p" using assms(3,4) y by (force simp: within_def)
  ultimately have "(q, k) \<in> set xs" using assms(1) by auto
  then show "q + k \<le> r" using assms(2) y \<open>\<not> r + m \<le> q\<close> by (force simp: apart_def)
qed

lemma labels_ok_links:
  assumes ok: "labels_ok a LL" and l: "links l a (LL l) code a' L"
  shows "labels_ok a' (LL(l := L))"
proof -
  obtain p w where p: "Position a \<le> p" "set (all_sites L) \<subseteq> insert (p, w) (set (all_sites (LL l)))"
    using l unfolding links_def by blast
  have sep: "apart (all_sites L) (all_sites (LL m))" "apart (all_sites (LL m)) (all_sites L)" if "m \<noteq> l" for m
  proof -
    have w: "within (Position a) (all_sites (LL m))" and ap: "apart (all_sites (LL l)) (all_sites (LL m))"
      using ok that label_linked_within [of m a "LL m"] by (simp_all add: labels_ok_def)
    show "apart (all_sites L) (all_sites (LL m))" by (rule apart_insert [OF p(2) ap w p(1)])
    then show "apart (all_sites (LL m)) (all_sites L)" by (rule apart_commute [THEN iffD1])
  qed
  have other: "label_linked m a' (LL m)" if "m \<noteq> l" for m
    by (rule label_linked_other [of m a]) (use l ok that in \<open>simp_all add: links_def labels_ok_def\<close>)
  show ?thesis
    unfolding labels_ok_def
  proof (intro conjI allI impI)
    fix m show "label_linked m a' ((LL(l := L)) m)"
      using l other by (cases "m = l") (simp_all add: links_def)
  next
    fix m n :: label assume "m \<noteq> n"
    then show "apart (all_sites ((LL(l := L)) m)) (all_sites ((LL(l := L)) n))"
      using ok sep by (cases "m = l"; cases "n = l") (simp_all add: labels_ok_def)
  qed
qed

lemma links_after_append:
  assumes "links l (append_code xs a) L ys a' L'"
  shows "links l a L (xs @ ys) a' L'"
proof -
  obtain p w where p: "Position a + int (length xs) \<le> p" "set (all_sites L') \<subseteq> insert (p, w) (set (all_sites L))"
    using assms by (auto simp: links_def Position_append_code)
  have "Position a \<le> p" using p(1) by simp
  then have "\<exists>p w. Position a \<le> p \<and> set (all_sites L') \<subseteq> insert (p, w) (set (all_sites L))"
    using p(2) by blast
  then show ?thesis using assms by (simp add: links_def)
qed

lemma linked_patch_all:
  assumes "label_linked l a L" and "linked D (buffer a) cs" and "apart (all_sites L) (sites D cs)"
  shows "linked D (patch_all t L (buffer a)) cs"
  using assms unfolding label_linked_def all_apart.simps
  by (simp add: patch_all_def linked_patch_others apart_commute all_sites_def)

lemma label_linked_bound:
  "label_linked l (a\<lparr>buffer := xs, labels := (labels a)(l := new_Label\<lparr>position := t\<rparr>)\<rparr>) no_branches"
  by (simp add: label_linked_def no_branches_def new_Label_def head_def)

lemma labels_ok_Bind:
  assumes ok: "labels_ok a LL" and "label_reachable a (LL l)" and "\<not> IsBound l a"
  shows "\<exists>a'. Bind l a = Some (Inr a') \<and> IsBound l a' \<and> labels_ok a' (LL(l := no_branches)) \<and>
    extensions a' = extensions a \<and>
    buffer a' = patch_all (Position a) (LL l) (buffer a) \<and> label_resolved (buffer a') (Position a) (LL l) \<and>
    labels a' = (labels a)(l := new_Label\<lparr>position := Position a\<rparr>)"
proof -
  let ?a = "a\<lparr>buffer := patch_all (Position a) (LL l) (buffer a),
    labels := (labels a)(l := new_Label\<lparr>position := Position a\<rparr>)\<rparr>"
  have L: "label_linked l a (LL l)" using ok by (simp add: labels_ok_def)
  have "label_linked m ?a (LL m)" if "m \<noteq> l" for m
  proof -
    have m: "label_linked m a (LL m)" "apart (all_sites (LL l)) (all_sites (LL m))"
      using ok that by (auto simp: labels_ok_def)
    show ?thesis
      using that m(1) m(2) [unfolded all_sites_def [of "LL m"]]
      by (simp add: label_linked_def linked_patch_all [OF L])
  qed
  then have "labels_ok ?a (LL(l := no_branches))"
    using ok label_linked_bound by (auto simp: labels_ok_def all_sites_def no_branches_def)
  then show ?thesis
    using Bind_patches [OF L assms(2,3)] patch_all_resolved(1) [OF L] Position_neq
    by (simp add: IsBound_def)
qed

subsection \<open>Operations on an unbound label\<close>

lemma EmitCBranch_links:
  assumes "label_linked l a L" and "\<not> IsBound l a" and "op = C_BEQZ \<or> op = C_BNEZ" and "IsCRs1p rs1p"
    and "d = link_distance (Position a) (list_cb L)" and "fits cb_class d"
  shows "\<exists>a'. EmitCBranch rs1p l op a = Inr a' \<and>
    links l a L (enc cb_class (op, rs1p) d) a' (L\<lparr>list_cb := (Position a, op, rs1p) # list_cb L\<rparr>)"
proof -
  obtain a' where a': "link_cb l a = Inr (d, a')" and
    "links l a L (enc cb_class (op, rs1p) d) (append_code (enc cb_class (op, rs1p) d) a')
      (L\<lparr>list_cb := (Position a, op, rs1p) # list_cb L\<rparr>)"
    using link_cb.links_new [of l a L "(op, rs1p)" d] assms by (auto simp: cb_class_def)
  moreover have "EmitCBranch rs1p l op a = Inr (append_code (enc cb_class (op, rs1p) d) a')"
    using assms a' by (simp add: EmitCBranch_def FATAL_unless_def ASSERT_def Emit_append_code cb_class_def)
  ultimately show ?thesis by blast
qed

lemma EmitCJump_links:
  assumes "label_linked l a L" and "\<not> IsBound l a"
    and "d = link_distance (Position a) (list_cj L)" and "fits cj_class d"
  shows "\<exists>a'. EmitCJump l C_J a = Inr a' \<and>
    links l a L (enc cj_class () d) a' (L\<lparr>list_cj := (Position a, ()) # list_cj L\<rparr>)"
proof -
  obtain a' where a': "link_cj l a = Inr (d, a')" and
    "links l a L (enc cj_class () d) (append_code (enc cj_class () d) a')
      (L\<lparr>list_cj := (Position a, ()) # list_cj L\<rparr>)"
    using link_cj.links_new [of l a L "()" d] assms by (auto simp: cj_class_def)
  moreover have "EmitCJump l C_J a = Inr (append_code (enc cj_class () d) a')"
    using assms a' by (simp add: EmitCJump_def FATAL_unless_def Emit_append_code cj_class_def)
  ultimately show ?thesis by blast
qed

text \<open>A conditional branch: one instruction, or an inverted branch over a jump or over a far jump.\<close>

definition is_near :: "JumpDistance \<Rightarrow> asm \<Rightarrow> bool" where
  "is_near distance a \<longleftrightarrow> distance = kNearJump \<or> far_branch_level a = 0"

lemma EmitBranch_links_near:
  assumes "label_linked l a L" and "\<not> IsBound l a" and "is_branch funct3" and "is_near distance a"
    and "d = link_distance (Position a) (list_b L)" and "fits b_class d"
  shows "\<exists>a'. EmitBranch rs1 rs2 l funct3 distance a = Inr a' \<and>
    links l a L (enc b_class (rs1, rs2, funct3) d) a' (L\<lparr>list_b := (Position a, rs1, rs2, funct3) # list_b L\<rparr>)"
proof -
  obtain a' where a': "link_b l a = Inr (d, a')" and
    "links l a L (enc b_class (rs1, rs2, funct3) d) (append_code (enc b_class (rs1, rs2, funct3) d) a')
      (L\<lparr>list_b := (Position a, rs1, rs2, funct3) # list_b L\<rparr>)"
    using link_b.links_new [of l a L "(rs1, rs2, funct3)" d] assms by (auto simp: b_class_def)
  moreover have "EmitBranch rs1 rs2 l funct3 distance a = Inr (append_code (enc b_class (rs1, rs2, funct3) d) a')"
    using assms(2-4,6) a'
    by (cases "distance = kNearJump")
      (simp_all add: EmitBranch_def FATAL_unless_def Emit_branch_eqs b_class_def is_near_def)
  ultimately show ?thesis by blast
qed

lemma EmitBranch_links_jump:
  assumes "label_linked l a L" and "\<not> IsBound l a" and "\<not> is_near distance a" and "far_branch_level a = 1"
    and inv: "InvertFunct3 funct3 = Inr inverse3" "is_branch inverse3"
    and "d = link_distance (Position a + 4) (list_j L)" and "fits j_class d"
  shows "\<exists>a'. EmitBranch rs1 rs2 l funct3 distance a = Inr a' \<and>
    links l a L (bytes32 (BType 8 rs2 rs1 inverse3 op_BRANCH) @ enc j_class ZR d) a'
      (L\<lparr>list_j := (Position a + 4, ZR) # list_j L\<rparr>)"
proof -
  let ?b = "append_code (bytes32 (BType 8 rs2 rs1 inverse3 op_BRANCH)) a"
  have P: "Position ?b = Position a + 4" by (simp add: Position_append_code)
  obtain a' where a': "link_j l ?b = Inr (d, a')" "Position a' = Position a + 4" and l:
    "links l ?b L (enc j_class ZR d) (append_code (enc j_class ZR d) a') (L\<lparr>list_j := (Position a + 4, ZR) # list_j L\<rparr>)"
    using link_j.links_new [of l ?b L ZR d] label_linked_append [OF assms(1)] assms(7,8) P
    by (auto simp: j_class_def)
  have "EmitBranch rs1 rs2 l funct3 distance a = Inr (append_code (enc j_class ZR d) a')"
    using assms a' by (simp add: EmitBranch_def is_near_def Emit_branch_eqs IsBTypeImm_lengths j_class_def ASSERT_def
        Position_append_code)
  then show ?thesis using links_after_append [OF l] by simp
qed

lemma EmitBranch_links_far:
  assumes "label_linked l a L" and "\<not> IsBound l a" and "\<not> is_near distance a" and "far_branch_level a \<noteq> 1"
    and inv: "InvertFunct3 funct3 = Inr inverse3" "is_branch inverse3"
    and "d = link_distance (Position a + 4) (list_far L)" and "fits far_class d"
  shows "\<exists>a'. EmitBranch rs1 rs2 l funct3 distance a = Inr a' \<and>
    links l a L (bytes32 (BType 12 rs2 rs1 inverse3 op_BRANCH) @ enc far_class () d) a'
      (L\<lparr>list_far := (Position a + 4, ()) # list_far L\<rparr>)"
proof -
  let ?b = "append_code (bytes32 (BType 12 rs2 rs1 inverse3 op_BRANCH)) a"
  have P: "Position ?b = Position a + 4" by (simp add: Position_append_code)
  obtain a' where a': "link_far l ?b = Inr (d, a')" "Position a' = Position a + 4" and l:
    "links l ?b L (enc far_class () d) (append_code (enc far_class () d) a') (L\<lparr>list_far := (Position a + 4, ()) # list_far L\<rparr>)"
    using link_far.links_new [of l ?b L "()" d] label_linked_append [OF assms(1)] assms(7,8) P
    by (auto simp: far_class_def)
  have "EmitBranch rs1 rs2 l funct3 distance a = Inr (append_code (enc far_class () d) a')"
    using assms a' by (simp add: EmitBranch_def is_near_def Emit_branch_eqs IsBTypeImm_lengths far_class_def ASSERT_def
        EmitFar_eq Position_append_code length_far_code)
  then show ?thesis using links_after_append [OF l] by simp
qed

lemma EmitJump_links_jump:
  assumes "label_linked l a L" and "\<not> IsBound l a" and "distance = kNearJump \<or> far_branch_level a < 2"
    and "d = link_distance (Position a) (list_j L)" and "fits j_class d"
  shows "\<exists>a'. EmitJump rd l distance a = Inr a' \<and>
    links l a L (enc j_class rd d) a' (L\<lparr>list_j := (Position a, rd) # list_j L\<rparr>)"
proof -
  obtain a' where a': "link_j l a = Inr (d, a')" and
    "links l a L (enc j_class rd d) (append_code (enc j_class rd d) a') (L\<lparr>list_j := (Position a, rd) # list_j L\<rparr>)"
    using link_j.links_new [of l a L rd d] assms by (auto simp: j_class_def)
  moreover have "EmitJump rd l distance a = Inr (append_code (enc j_class rd d) a')"
    using assms(2,3,5) a'
    by (cases "distance = kNearJump") (simp_all add: EmitJump_def FATAL_unless_def Emit_branch_eqs j_class_def)
  ultimately show ?thesis by blast
qed

lemma EmitJump_links_far:
  assumes "label_linked l a L" and "\<not> IsBound l a" and "distance \<noteq> kNearJump" and "\<not> far_branch_level a < 2"
    and "d = link_distance (Position a) (list_far L)" and "fits far_class d"
  shows "\<exists>a'. EmitJump rd l distance a = Inr a' \<and>
    links l a L (enc far_class () d) a' (L\<lparr>list_far := (Position a, ()) # list_far L\<rparr>)"
proof -
  obtain a' where a': "link_far l a = Inr (d, a')" and
    "links l a L (enc far_class () d) (append_code (enc far_class () d) a') (L\<lparr>list_far := (Position a, ()) # list_far L\<rparr>)"
    using link_far.links_new [of l a L "()" d] assms by (auto simp: far_class_def)
  moreover have "EmitJump rd l distance a = Inr (append_code (enc far_class () d) a')"
    using assms(2-4) a' by (simp add: EmitJump_def EmitFar_eq far_class_def)
  ultimately show ?thesis by blast
qed

subsection \<open>Displacements\<close>

lemma aligned_int:
  "IsAligned (word_of_int d :: intptr) 2 \<longleftrightarrow> 2 dvd d" "IsAligned (word_of_int d :: intptr) 4 \<longleftrightarrow> 4 dvd d"
proof -
  have "take_bit n (word_of_int d :: intptr) = 0 \<longleftrightarrow> 2 ^ n dvd d" if "n \<le> 64" for n
  proof -
    have "take_bit n (word_of_int d :: intptr) = word_of_int (take_bit n d)"
      by (rule bit_word_eqI) (auto simp: bit_simps)
    also have "\<dots> = 0 \<longleftrightarrow> take_bit 64 (take_bit n d) = 0"
      by (simp add: word_of_int_eq_0_iff take_bit_eq_0_iff del: take_bit_take_bit)
    also have "\<dots> \<longleftrightarrow> 2 ^ n dvd d"
      using that by (simp add: min_absorb2 take_bit_eq_0_iff)
    finally show ?thesis .
  qed
  from this [of 1] this [of 2] show
    "IsAligned (word_of_int d :: intptr) 2 \<longleftrightarrow> 2 dvd d" "IsAligned (word_of_int d :: intptr) 4 \<longleftrightarrow> 4 dvd d"
    by (simp_all add: IsAligned_numeral)
qed

lemma exact_small: "- (2 ^ 62) \<le> d \<Longrightarrow> d < 2 ^ 62 \<Longrightarrow> exact d"
  unfolding exact_def by (rule sint_word_of_int_fits) simp_all

lemma fits_small:
  assumes "even d"
  shows "- 2048 \<le> d \<Longrightarrow> d < 2048 \<Longrightarrow> fits b_class d"
    and "- (2 ^ 19) \<le> d \<Longrightarrow> d < 2 ^ 19 \<Longrightarrow> fits j_class d"
    and "- 2147479552 \<le> d \<Longrightarrow> d < 2147479552 \<Longrightarrow> fits far_class d"
proof -
  have e: "sint (word_of_int d :: intptr) = d" if "- (2 ^ 62) \<le> d" "d < 2 ^ 62"
    using exact_small [OF that] by (simp add: exact_def)
  show "fits b_class d" if "- 2048 \<le> d" "d < 2048"
    using that assms e exact_small [of d]
    by (simp add: b_class_def IsBTypeImm_def IsInt_iff_sint aligned_int)
  show "fits j_class d" if "- (2 ^ 19) \<le> d" "d < 2 ^ 19"
    using that assms e exact_small [of d]
    by (simp add: j_class_def IsJTypeImm_def IsInt_iff_sint aligned_int)
  show "fits far_class d" if d: "- 2147479552 \<le> d" "d < 2147479552"
  proof -
    let ?w = "word_of_int d :: intptr"
    have lo: "- 2048 \<le> sint (split_lo ?w)" "sint (split_lo ?w) < 2048"
      using IsITypeImm_split_lo [of ?w] by (simp_all add: IsITypeImm_def IsInt_iff_sint)
    have "?w - split_lo ?w = word_of_int (d - sint (split_lo ?w))" by simp
    moreover have "sint (word_of_int (d - sint (split_lo ?w)) :: intptr) = d - sint (split_lo ?w)"
      using d lo by (intro sint_word_of_int_fits) simp_all
    ultimately have "sint (?w - split_lo ?w) = d - sint (split_lo ?w)" by simp
    then have "IsInt 32 (?w - split_lo ?w)"
      using d lo by (simp add: IsInt_iff_sint)
    then show ?thesis using exact_small [of d] d by (simp add: far_class_def)
  qed
qed

subsection \<open>A branch over code\<close>

definition aligned :: "asm \<Rightarrow> int \<Rightarrow> bool" where
  "aligned a n \<longleftrightarrow> (if Supports RV_C a then 2 else 4) dvd n"

definition forward_reaches :: "JumpDistance \<Rightarrow> asm \<Rightarrow> nat \<Rightarrow> bool" where
  "forward_reaches distance a n \<longleftrightarrow>
     (if is_near distance a then n + 4 < 2048
      else if far_branch_level a = 1 then n + 4 < 2 ^ 19 else n + 8 < 2147479552)"

lemma aligned_code: "IsAligned (word_of_int n :: intptr) (code_alignment a) \<longleftrightarrow> aligned a n"
  by (simp add: aligned_def code_alignment_def aligned_int)

lemma aligned_add: "aligned a m \<Longrightarrow> aligned a n \<Longrightarrow> aligned a (m + n)"
  by (simp add: aligned_def)

lemma aligned_4: "aligned a 4" "aligned a 8"
  by (simp_all add: aligned_def)

lemma aligned_even: "aligned a n \<Longrightarrow> even n"
  by (auto simp: aligned_def split: if_splits)

lemma aligned_cong: "extensions a' = extensions a \<Longrightarrow> aligned a' n = aligned a n"
  by (simp add: aligned_def Supports_def)

lemma write_bytes_middle:
  "length bs = length ys \<Longrightarrow> p = int (length xs) \<Longrightarrow> write_bytes (nat p) bs (xs @ ys @ zs) = xs @ bs @ zs"
  by (simp add: write_bytes_def)

lemma bind_forward:
  assumes ok: "labels_ok a LL" "LL l = no_branches" "\<not> IsBound l a" and l: "links l a no_branches code a' L"
    and r: "label_reachable (append_code cs a') L"
    and p: "patch_all (Position a + int (length (code @ cs))) L (buffer a @ code @ cs) = buffer a @ code' @ cs"
  shows "\<exists>a''. Bind l (append_code cs a') = Some (Inr a'') \<and> buffer a'' = buffer a @ code' @ cs \<and>
    IsBound l a'' \<and> labels_ok a'' LL \<and> extensions a'' = extensions a"
proof -
  have "labels_ok (append_code cs a') (LL(l := L))"
    using labels_ok_links [OF ok(1)] l ok(2) by (simp add: labels_ok_append)
  moreover have "\<not> IsBound l (append_code cs a')"
    using ok(3) l by (simp add: IsBound_def links_def)
  moreover have "Position (append_code cs a') = Position a + int (length (code @ cs))"
    and "buffer (append_code cs a') = buffer a @ code @ cs" and "extensions (append_code cs a') = extensions a"
    using l by (simp_all add: links_def Position_def)
  moreover have "LL(l := no_branches) = LL" using ok(2) by auto
  ultimately show ?thesis
    using labels_ok_Bind [of "append_code cs a'" "LL(l := L)" l] r p by auto
qed

lemma label_reachable_single:
  assumes "aligned a p" and "aligned a d" and "d = Position a - p"
  shows "fits b_class d \<Longrightarrow> label_reachable a (no_branches\<lparr>list_b := [(p, k)]\<rparr>)"
    and "fits j_class d \<Longrightarrow> label_reachable a (no_branches\<lparr>list_j := [(p, rd)]\<rparr>)"
    and "fits far_class d \<Longrightarrow> label_reachable a (no_branches\<lparr>list_far := [(p, ())]\<rparr>)"
  using assms by (simp_all add: label_reachable_def reachable_from_def no_branches_def aligned_code
      del: of_int_diff)

text \<open>
  \<open>skips l a a' LL c cs\<close>: after the code \<open>cs\<close> is appended to \<open>a'\<close> and \<open>l\<close> is bound
  behind it, the code between \<open>a\<close> and \<open>a'\<close> skips \<open>cs\<close> exactly when \<open>c\<close> holds.
\<close>

definition skips ::
  "label \<Rightarrow> asm \<Rightarrow> asm \<Rightarrow> (label \<Rightarrow> label_lists) \<Rightarrow> (sim \<Rightarrow> bool) \<Rightarrow> u8 list \<Rightarrow> bool"
where
  "skips l a a' LL c cs \<longleftrightarrow>
     (\<exists>a'' code. Bind l (append_code cs a') = Some (Inr a'') \<and> buffer a'' = buffer a @ code @ cs \<and>
        extensions a' = extensions a \<and> extensions a'' = extensions a \<and> IsBound l a'' \<and> labels_ok a'' LL \<and>
        exits code (\<lambda>s. s) c (of_nat (length (code @ cs))))"

text \<open>A label that nothing has branched to yet, at an instruction boundary.\<close>

definition fresh :: "label \<Rightarrow> asm \<Rightarrow> (label \<Rightarrow> label_lists) \<Rightarrow> bool" where
  "fresh l a LL \<longleftrightarrow> labels_ok a LL \<and> LL l = no_branches \<and> \<not> IsBound l a \<and> aligned a (Position a)"

lemma freshD:
  assumes "fresh l a LL"
  shows "labels_ok a LL" and "LL l = no_branches" and "\<not> IsBound l a" and "aligned a (Position a)"
    and "label_linked l a no_branches"
proof -
  show *: "labels_ok a LL" "LL l = no_branches" "\<not> IsBound l a" "aligned a (Position a)"
    using assms by (simp_all add: fresh_def)
  then show "label_linked l a no_branches" unfolding labels_ok_def by metis
qed

text \<open>The three forms of a branch; \<open>pre\<close> is the inverted branch in front of a jump.\<close>

lemma skipsI:
  assumes fr: "fresh l a LL" and l: "links l a no_branches (pre @ enc C k 0) a' L"
    and L: "\<And>b d. aligned b (Position a + int (length pre)) \<Longrightarrow> aligned b d \<Longrightarrow> fits C d \<Longrightarrow>
        d = Position b - (Position a + int (length pre)) \<Longrightarrow> label_reachable b L"
    and p: "\<And>t xs. patch_all t L xs =
        write_bytes (nat (Position a + int (length pre))) (enc C k (t - (Position a + int (length pre)))) xs"
    and w: "\<And>d. length (enc C k d) = width C" and pre: "aligned a (int (length pre))" "aligned a (int (width C))"
    and cs: "aligned a (int (length cs))" "fits C (int (width C + length cs))"
    and e: "exits (pre @ enc C k (int (width C + length cs))) (\<lambda>s. s) c (of_nat (length pre + width C + length cs))"
  shows "skips l a a' LL c cs"
proof -
  let ?d = "int (width C + length cs)" and ?p = "Position a + int (length pre)"
  have pos: "Position (append_code cs a') = ?p + ?d" "extensions (append_code cs a') = extensions a"
    using l by (simp_all add: links_def Position_def w)
  have "aligned a ?p" "aligned a ?d"
    using freshD(4) [OF fr] pre cs(1) by (simp_all add: aligned_def)
  then have "label_reachable (append_code cs a') L"
    using pos(1) cs(2) by (intro L [of _ ?d]) (simp_all add: aligned_cong [OF pos(2)])
  moreover have "patch_all (Position a + int (length ((pre @ enc C k 0) @ cs))) L (buffer a @ (pre @ enc C k 0) @ cs)
      = buffer a @ (pre @ enc C k ?d) @ cs"
    using write_bytes_middle [of "enc C k ?d" "enc C k 0" ?p "buffer a @ pre" cs]
    by (simp add: p w Position_def)
  ultimately obtain a'' where "Bind l (append_code cs a') = Some (Inr a'')" "IsBound l a''" "labels_ok a'' LL"
    "buffer a'' = buffer a @ (pre @ enc C k ?d) @ cs" "extensions a'' = extensions a"
    using bind_forward [OF freshD(1-3) [OF fr] l] by blast
  then show ?thesis
    using e pos(2) unfolding skips_def
    by (intro exI [of _ a''] exI [of _ "pre @ enc C k ?d"]) (simp add: w add.assoc)
qed

lemma patch_all_single:
  "patch_all t (no_branches\<lparr>list_b := [(p, k)]\<rparr>) xs = write_bytes (nat p) (enc b_class k (t - p)) xs"
  "patch_all t (no_branches\<lparr>list_j := [(p, rd)]\<rparr>) xs = write_bytes (nat p) (enc j_class rd (t - p)) xs"
  "patch_all t (no_branches\<lparr>list_far := [(p, u)]\<rparr>) xs = write_bytes (nat p) (enc far_class u (t - p)) xs"
  by (simp_all add: patch_all_def no_branches_def)

lemma fits_aligned:
  assumes "aligned a (int n)"
  shows "n + 4 < 2048 \<Longrightarrow> fits b_class (int (4 + n))" and "n + 4 < 2 ^ 19 \<Longrightarrow> fits j_class (int (4 + n))"
    and "n + 8 < 2147479552 \<Longrightarrow> fits far_class (int (8 + n))"
  using aligned_even [OF assms] by (simp_all add: fits_small)

lemma forward_near:
  assumes fr: "fresh l a LL" and f: "is_branch funct3" and near: "is_near distance a"
  shows "\<exists>a'. EmitBranch rs1 rs2 l funct3 distance a = Inr a' \<and>
    (\<forall>cs. aligned a (int (length cs)) \<longrightarrow> length cs + 4 < 2048 \<longrightarrow>
       skips l a a' LL (\<lambda>s. branch_test funct3 (get_xreg s rs1) (get_xreg s rs2)) cs)"
proof -
  let ?k = "(rs1, rs2, funct3)"
  obtain a' where a': "EmitBranch rs1 rs2 l funct3 distance a = Inr a'"
    and l: "links l a no_branches ([] @ enc b_class ?k 0) a' (no_branches\<lparr>list_b := [(Position a, ?k)]\<rparr>)"
    using EmitBranch_links_near [OF freshD(5,3) [OF fr] f near refl, of rs1 rs2] b.fits_0
    by (auto simp: no_branches_def link_distance_def)
  have "exits (enc b_class ?k (int (4 + n))) (\<lambda>s. s) (\<lambda>s. branch_test funct3 (get_xreg s rs1) (get_xreg s rs2)) (of_nat (4 + n))"
    if "fits b_class (int (4 + n))" for n
    using BType_step [OF f, of "word_of_int (int (4 + n))" rs2 rs1] that
    by (intro exits_step) (simp add: b_class_def cong: if_cong)
  then have "skips l a a' LL (\<lambda>s. branch_test funct3 (get_xreg s rs1) (get_xreg s rs2)) cs"
    if "aligned a (int (length cs))" "length cs + 4 < 2048" for cs
    using that fits_aligned(1) [OF that]
    by (intro skipsI [OF fr l])
      (simp_all add: label_reachable_single patch_all_single b.length_enc class_widths aligned_4 aligned_def)
  then show ?thesis using a' by blast
qed

lemma forward_jump:
  assumes fr: "fresh l a LL" and f: "is_branch funct3" and jump: "\<not> is_near distance a" "far_branch_level a = 1"
  shows "\<exists>a'. EmitBranch rs1 rs2 l funct3 distance a = Inr a' \<and>
    (\<forall>cs. aligned a (int (length cs)) \<longrightarrow> length cs + 4 < 2 ^ 19 \<longrightarrow>
       skips l a a' LL (\<lambda>s. branch_test funct3 (get_xreg s rs1) (get_xreg s rs2)) cs)"
proof -
  obtain inverse3 where inv: "InvertFunct3 funct3 = Inr inverse3" "is_branch inverse3"
    "\<And>a b. branch_test inverse3 a b \<longleftrightarrow> \<not> branch_test funct3 a b"
    using InvertFunct3_is_branch [OF f] by blast
  let ?b = "bytes32 (BType 8 rs2 rs1 inverse3 op_BRANCH)"
  obtain a' where a': "EmitBranch rs1 rs2 l funct3 distance a = Inr a'"
    and l: "links l a no_branches (?b @ enc j_class ZR 0) a' (no_branches\<lparr>list_j := [(Position a + 4, ZR)]\<rparr>)"
    using EmitBranch_links_jump [OF freshD(5,3) [OF fr] jump inv(1,2) refl, of rs1 rs2] j.fits_0
    by (auto simp: no_branches_def link_distance_def)
  have "exits (?b @ enc j_class ZR (int (4 + n))) (\<lambda>s. s)
      (\<lambda>s. branch_test funct3 (get_xreg s rs1) (get_xreg s rs2)) (of_nat (8 + n))"
    if "fits j_class (int (4 + n))" for n
    using exits_inverted [OF f inv(2,3) _ JType_exits, of "of_nat (8 + n)" rs2 rs1] that
    by (simp add: j_class_def IsBTypeImm_lengths)
  then have "skips l a a' LL (\<lambda>s. branch_test funct3 (get_xreg s rs1) (get_xreg s rs2)) cs"
    if "aligned a (int (length cs))" "length cs + 4 < 2 ^ 19" for cs
    using that fits_aligned(2) [OF that]
    by (intro skipsI [OF fr l])
      (simp_all add: label_reachable_single patch_all_single j.length_enc class_widths aligned_4)
  then show ?thesis using a' by blast
qed

lemma forward_far:
  assumes fr: "fresh l a LL" and f: "is_branch funct3" and far: "\<not> is_near distance a" "far_branch_level a \<noteq> 1"
  shows "\<exists>a'. EmitBranch rs1 rs2 l funct3 distance a = Inr a' \<and>
    (\<forall>cs. aligned a (int (length cs)) \<longrightarrow> length cs + 8 < 2147479552 \<longrightarrow>
       skips l a a' LL (\<lambda>s. branch_test funct3 (get_xreg s rs1) (get_xreg s rs2)) cs)"
proof -
  obtain inverse3 where inv: "InvertFunct3 funct3 = Inr inverse3" "is_branch inverse3"
    "\<And>a b. branch_test inverse3 a b \<longleftrightarrow> \<not> branch_test funct3 a b"
    using InvertFunct3_is_branch [OF f] by blast
  let ?b = "bytes32 (BType 12 rs2 rs1 inverse3 op_BRANCH)"
  obtain a' where a': "EmitBranch rs1 rs2 l funct3 distance a = Inr a'"
    and l: "links l a no_branches (?b @ enc far_class () 0) a' (no_branches\<lparr>list_far := [(Position a + 4, ())]\<rparr>)"
    using EmitBranch_links_far [OF freshD(5,3) [OF fr] far inv(1,2) refl, of rs1 rs2] far.fits_0
    by (auto simp: no_branches_def link_distance_def)
  have "exits (?b @ enc far_class () (int (8 + n))) (\<lambda>s. s)
      (\<lambda>s. branch_test funct3 (get_xreg s rs1) (get_xreg s rs2)) (of_nat (12 + n))"
    if "fits far_class (int (8 + n))" for n
    using exits_inverted [OF f inv(2,3) _ far_code_exits, of "of_nat (12 + n)" rs2 rs1] that
    by (simp add: far_class_def IsBTypeImm_lengths length_far_code)
  then have "skips l a a' LL (\<lambda>s. branch_test funct3 (get_xreg s rs1) (get_xreg s rs2)) cs"
    if "aligned a (int (length cs))" "length cs + 8 < 2147479552" for cs
    using that fits_aligned(3) [OF that]
    by (intro skipsI [OF fr l])
      (simp_all add: label_reachable_single patch_all_single far.length_enc class_widths aligned_4)
  then show ?thesis using a' by blast
qed

lemma forward_branch:
  assumes "fresh l a LL" and "is_branch funct3"
  shows "\<exists>a'. EmitBranch rs1 rs2 l funct3 distance a = Inr a' \<and>
    (\<forall>cs. aligned a (int (length cs)) \<longrightarrow> forward_reaches distance a (length cs) \<longrightarrow>
       skips l a a' LL (\<lambda>s. branch_test funct3 (get_xreg s rs1) (get_xreg s rs2)) cs)"
  using forward_near [OF assms, of distance rs1 rs2] forward_jump [OF assms, of distance rs1 rs2]
    forward_far [OF assms, of distance rs1 rs2]
  unfolding forward_reaches_def by (cases "is_near distance a"; cases "far_branch_level a = 1") simp_all

text \<open>
  A near branch over too much code: \<open>Bind\<close> reports the error that makes the caller
  assemble again with far branches.
\<close>

lemma BIND_empty:
  "h (labels a l) = - 1 \<Longrightarrow> BIND h c u t l a = Some (Inr (a\<lparr>labels := (labels a)(l := c (labels a l))\<rparr>))"
  by (subst BIND_def, subst BIND_loop.simps) simp

lemma UpdateBOffset_far:
  assumes "0 \<le> p" and "nat p + 4 \<le> length (buffer a)" and "is_branch funct3"
    and "slice (nat p) 4 (buffer a) = bytes32 (BType imm rs2 rs1 funct3 op_BRANCH)" and "\<not> IsBTypeImm (word_of_int d)"
  shows "UpdateBOffset p d a = Inl BranchOffsetError"
  using Read32_slice [OF assms(1,2,4)] is_branch_IsFunct3 [OF assms(3)] assms(5)
  by (simp add: UpdateBOffset_def update_simps)

lemma near_branch_out_of_reach:
  assumes f: "fresh l a LL" and b: "is_branch funct3" and "is_near distance a"
  shows "\<exists>a'. EmitBranch rs1 rs2 l funct3 distance a = Inr a' \<and>
    (\<forall>cs. aligned a (int (length cs)) \<longrightarrow> 2044 \<le> length cs \<longrightarrow> length cs < 2 ^ 31 \<longrightarrow>
       Bind l (append_code cs a') = Some (Inl BranchOffsetError))"
proof -
  let ?L = "no_branches\<lparr>list_b := [(Position a, rs1, rs2, funct3)]\<rparr>"
  have "\<exists>a'. EmitBranch rs1 rs2 l funct3 distance a = Inr a' \<and>
      links l a no_branches (enc b_class (rs1, rs2, funct3) 0) a'
        (no_branches\<lparr>list_b := (Position a, rs1, rs2, funct3) # list_b no_branches\<rparr>)"
    by (rule EmitBranch_links_near [OF freshD(5,3) [OF f] b assms(3)])
      (simp_all add: link_distance_def no_branches_def b.fits_0)
  then obtain a' where a': "EmitBranch rs1 rs2 l funct3 distance a = Inr a'"
    and l: "links l a no_branches (enc b_class (rs1, rs2, funct3) 0) a' ?L" by (auto simp: no_branches_def)
  have ll: "label_linked l a' ?L" "position (labels a' l) = position (labels a l)"
    "buffer a' = buffer a @ bytes32 (BType 0 rs2 rs1 funct3 op_BRANCH)" "extensions a' = extensions a"
    using l by (auto simp: links_def b_class_def)
  have h: "unresolved_cb (labels a' l) = - 1" "unresolved_cj (labels a' l) = - 1" "unresolved_b (labels a' l) = Position a"
    using ll(1) by (simp_all add: label_linked_def no_branches_def head_def)
  have "Bind l (append_code cs a') = Some (Inl BranchOffsetError)"
    if cs: "aligned a (int (length cs))" "2044 \<le> length cs" "length cs < 2 ^ 31" for cs
  proof -
    let ?c = "append_code cs a'"
    let ?d = "4 + int (length cs)"
    have "slice (nat (Position a)) 4 (buffer ?c) = bytes32 (BType 0 rs2 rs1 funct3 op_BRANCH)"
      by (simp add: append_code_def ll(3) slice_def Position_def)
    moreover have "sint (word_of_int ?d :: intptr) = ?d" using cs(3) by (intro sint_word_of_int_fits) simp_all
    then have "\<not> IsBTypeImm (word_of_int ?d :: intptr)" using cs(2) by (simp add: IsBTypeImm_def IsInt_iff_sint del: of_int_add)
    ultimately have u: "UpdateBOffset (Position a) ?d (?c\<lparr>labels := ls\<rparr>) = Inl BranchOffsetError" for ls
      by (intro UpdateBOffset_far [OF _ _ b]) (simp_all add: append_code_def ll(3) Position_def)
    have "Position ?c = Position a + ?d" by (simp add: Position_def append_code_def ll(3))
    moreover have "\<not> IsBound l ?c" using freshD(3) [OF f] ll(2) by (simp add: IsBound_def append_code_def)
    moreover have "code_alignment (?c\<lparr>labels := ls\<rparr>) = code_alignment a" for ls
      by (simp add: code_alignment_def Supports_def append_code_def ll(4))
    moreover have "IsAligned (word_of_int (Position a) :: intptr) (code_alignment a)"
      "IsAligned (word_of_int ?d :: intptr) (code_alignment a)"
      unfolding aligned_code using freshD(4) [OF f] cs(1) by (auto intro: aligned_add aligned_4)
    moreover have "0 \<le> Position a" by (simp add: Position_def)
    ultimately show ?thesis
      using u h by (simp add: Bind_def BIND_empty and_then_def append_code_def [of cs a'] Let_def)
        (simp add: BIND_def BIND_loop.simps and_then_def)
  qed
  then show ?thesis using a' by blast
qed

end
