(* ===== verification/Riscv_Sim_Invariant.thy ===== *)
theory Riscv_Sim_Invariant
  imports Riscv_Exec
begin

text \<open>
  Invariants of the simulator.

  \<open>machine_invariant\<close> is the contract of a predicate on states that no single
  update of the interpreter can break: writes of registers, of the program
  counter, of memory and of the bookkeeping fields.  Inside the locale every
  \<open>Interpret...\<close> function is shown to keep such a predicate, hence so do one
  iteration of the loop and a whole call of \<open>Execute\<close>.  It is interpreted on the
  zero register and on the bounds of the simulated stack.  Host functions, which
  are a parameter, are required to keep it too.
\<close>

subsection \<open>Results that keep a predicate\<close>

definition keeps :: "(sim \<Rightarrow> bool) \<Rightarrow> 'e + sim \<Rightarrow> bool" where
  "keeps I r \<longleftrightarrow> (case r of Inl e \<Rightarrow> True | Inr s \<Rightarrow> I s)"

lemma keeps_simps [simp]: "keeps I (Inl e)" "keeps I (Inr s) \<longleftrightarrow> I s"
  by (simp_all add: keeps_def)

lemma keepsD: "keeps I r \<Longrightarrow> r = Inr s \<Longrightarrow> I s"
  by simp

lemma keeps_if: "(c \<Longrightarrow> keeps I r) \<Longrightarrow> (\<not> c \<Longrightarrow> keeps I r') \<Longrightarrow> keeps I (if c then r else r')"
  by simp

lemma keeps_bindE: "keeps I r \<Longrightarrow> (\<And>s. I s \<Longrightarrow> keeps I (k s)) \<Longrightarrow> keeps I (bindE r k)"
  by (cases r) simp_all

lemma keeps_bindE_value: "(\<And>v. keeps I (k v)) \<Longrightarrow> keeps I (bindE r k)"
  by (cases r) simp_all

lemma keeps_option:
  "(\<And>x. v = Some x \<Longrightarrow> keeps I (f x)) \<Longrightarrow> keeps I r \<Longrightarrow> keeps I (case v of None \<Rightarrow> r | Some x \<Rightarrow> f x)"
  by (cases v) simp_all

lemmas keeps_intros = keeps_if keeps_bindE keeps_option

text \<open>Every host function leaves a state of the predicate, whether it returns or throws.\<close>

fun outcome_state :: "'a outcome \<Rightarrow> sim" where
  "outcome_state (Returned x s) = s"
| "outcome_state (Thrown s) = s"

lemma keeps_outcome:
  "I (outcome_state r) \<Longrightarrow> (\<And>x s. I s \<Longrightarrow> keeps I (f x s)) \<Longrightarrow>
   keeps I (case r of Returned x s \<Rightarrow> f x s | Thrown s \<Rightarrow> Inr s)"
  by (cases r) simp_all

definition host_keeps :: "(sim \<Rightarrow> bool) \<Rightarrow> host \<Rightarrow> bool" where
  "host_keeps I h \<longleftrightarrow>
     (\<forall>s. I s \<longrightarrow>
        (\<forall>f x. I (outcome_state (host_runtime_call h f x s))) \<and>
        (\<forall>f xs. I (outcome_state (host_leaf_call h f xs s))) \<and>
        (\<forall>f xs. I (outcome_state (host_leaf_float_call h f xs s))) \<and>
        (\<forall>f x y. I (outcome_state (host_native_call h f x y s))))"

locale machine_invariant =
  fixes I :: "sim \<Rightarrow> bool"
  assumes set_xreg_keeps: "I s \<Longrightarrow> I (set_xreg rd v s)"
    and pc_keeps: "I s \<Longrightarrow> I (s\<lparr>pc := p\<rparr>)"
    and instret_keeps: "I s \<Longrightarrow> I (s\<lparr>instret := n\<rparr>)"
    and memory_keeps: "I s \<Longrightarrow> I (s\<lparr>memory := m\<rparr>)"
    and fregs_keeps: "I s \<Longrightarrow> I (s\<lparr>fregs := f\<rparr>)"
    and reservation_keeps: "I s \<Longrightarrow> I (s\<lparr>reserved_address := x, reserved_value := y\<rparr>)"
    and randomize_keeps: "I s \<Longrightarrow> 0 < i \<Longrightarrow> i < 32 \<Longrightarrow> I (randomize_xreg i s)"
begin

lemmas state_keeps = set_xreg_keeps pc_keeps instret_keeps memory_keeps fregs_keeps reservation_keeps

lemma fregs_write_keeps: "I s \<Longrightarrow> I (set_fregd rd v s)" "I s \<Longrightarrow> I (set_fregs rd w s)"
  by (simp_all add: set_fregd_def set_fregs_def fregs_keeps)

lemma pc_add_keeps: "I s \<Longrightarrow> I (pc_add n s)"
  by (simp add: pc_add_def pc_keeps)

lemma MemoryWrite_keeps: "I s \<Longrightarrow> keeps I (MemoryWrite sz addr v base s)"
  by (simp add: MemoryWrite_def memory_keeps split: option.split)

lemma keeps_next: "keeps I r \<Longrightarrow> keeps I (bindE r (\<lambda>s'. Inr (pc_add n s')))"
  by (cases r) (simp_all add: pc_add_keeps)

lemma CSR_keeps: "keeps I (CSRWrite csr v s)" "keeps I (CSRSet csr v s)" "keeps I (CSRClear csr v s)"
  by (simp_all add: CSRWrite_def CSRSet_def CSRClear_def)

lemma retire_keeps:
  "I s \<Longrightarrow> keeps I (retire_rd instr v s)" "I s \<Longrightarrow> keeps I (retire_fs instr w s)"
  "I s \<Longrightarrow> keeps I (retire_fd instr v s)"
  by (simp_all add: retire_rd_def retire_fs_def retire_fd_def state_keeps fregs_write_keeps pc_add_keeps)

lemmas write_keeps = state_keeps fregs_write_keeps pc_add_keeps MemoryWrite_keeps CSR_keeps retire_keeps

lemma fold_keeps:
  assumes "\<And>i s. i \<in> set is \<Longrightarrow> I s \<Longrightarrow> I (f i s)" and "I s"
  shows "I (fold f is s)"
  using assms by (induction "is" arbitrary: s) simp_all

lemma clobber_registers_keeps:
  assumes "I s"
  shows "I (clobber_registers s)"
proof -
  have "kAbiVolatileCpuRegs AND 1 = 0"
    by (simp add: kAbiVolatileCpuRegs_def RegList_def)
  then have "i \<noteq> 0" if "kAbiVolatileCpuRegs AND push_bit i 1 \<noteq> 0" for i
    using that by (intro notI) simp
  then show ?thesis
    unfolding clobber_registers_def
    by (intro fold_keeps) (auto simp: fregs_keeps assms intro!: randomize_keeps)
qed

lemma clobber_keeps: "I s \<Longrightarrow> I (ClobberVolatileRegisters s)"
  by (simp add: ClobberVolatileRegisters_def clobber_registers_keeps reservation_keeps)

lemma Interpret_base_keeps:
  assumes "I s"
  shows "keeps I (InterpretLUI e s)" "keeps I (InterpretAUIPC e s)" "keeps I (InterpretJAL e s)"
    "keeps I (InterpretJALR e s)" "keeps I (InterpretBRANCH e s)" "keeps I (InterpretMISCMEM e s)"
    "keeps I (InterpretOPIMM e s)" "keeps I (InterpretOPIMM32 e s)"
  by (simp_all add: InterpretLUI_def InterpretAUIPC_def InterpretJAL_def InterpretJALR_def
      InterpretBRANCH_def InterpretMISCMEM_def InterpretOPIMM_def InterpretOPIMM32_def Let_def
      write_keeps assms)

lemma Interpret_memory_keeps:
  assumes "I s"
  shows "keeps I (InterpretLOAD e s)" "keeps I (InterpretSTORE e s)" "keeps I (InterpretLOADFP e s)"
    "keeps I (InterpretSTOREFP e s)"
  by (simp_all add: InterpretLOAD_def InterpretSTORE_def InterpretLOADFP_def InterpretSTOREFP_def Let_def
      write_keeps assms keeps_bindE_value keeps_bindE)

lemma InterpretOP_keeps:
  assumes "I s"
  shows "keeps I (InterpretOP e s)" "keeps I (InterpretOP32 e s)"
  by (simp_all add: InterpretOP_def InterpretOP_0_def InterpretOP_MULDIV_def InterpretOP_SUB_def
      InterpretOP32_def InterpretOP32_0_def InterpretOP32_SUB_def InterpretOP32_MULDIV_def Let_def
      write_keeps assms)

lemma AMO_rmw_keeps: "I s \<Longrightarrow> keeps I (AMO_rmw n f e s)"
  by (simp add: AMO_rmw_def Let_def write_keeps)

lemma InterpretAMO_keeps:
  assumes "I s"
  shows "keeps I (InterpretAMO e s)"
proof -
  have "keeps I (InterpretLR n e s)" "keeps I (InterpretSC n e s)" for n
    by (simp_all add: InterpretLR_def InterpretSC_def Let_def write_keeps assms)
  then have "keeps I (InterpretAMOn n e s)" for n
    unfolding InterpretAMOn_def Let_def
    by (intro keeps_intros)
      (simp_all add: write_keeps assms AMO_rmw_keeps InterpretAMOSWAP_def InterpretAMOADD_def InterpretAMOXOR_def
        InterpretAMOAND_def InterpretAMOOR_def InterpretAMOMIN_def InterpretAMOMAX_def)
  then show ?thesis
    by (simp add: InterpretAMO_def InterpretAMO32_def InterpretAMO64_def Let_def)
qed

lemma Interpret_float_keeps:
  assumes "I s"
  shows "keeps I (InterpretFMADD h e s)" "keeps I (InterpretFMSUB h e s)" "keeps I (InterpretFNMADD h e s)"
    "keeps I (InterpretFNMSUB h e s)"
  by (simp_all add: InterpretFMADD_def InterpretFMSUB_def InterpretFNMADD_def InterpretFNMSUB_def Let_def
      write_keeps assms)

lemma InterpretOPFP_keeps:
  assumes "I s"
  shows "keeps I (InterpretOPFP h e s)"
proof -
  have "keeps I (InterpretOPFP_s h e s)"
    unfolding InterpretOPFP_s_def Let_def
    by (intro keeps_if keeps_bindE_value keeps_option; simp add: write_keeps assms)
  moreover have "keeps I (InterpretOPFP_d h e s)"
    unfolding InterpretOPFP_d_def Let_def
    by (intro keeps_if keeps_bindE_value keeps_option; simp add: write_keeps assms)
  ultimately show ?thesis by (simp add: InterpretOPFP_def)
qed

lemma InterpretSYSTEM_keeps:
  assumes "I s" and "host_keeps I h"
  shows "keeps I (InterpretSYSTEM h e s)"
proof -
  have "keeps I (InterpretECALL h e s)"
    using assms unfolding InterpretECALL_def Let_def host_keeps_def
    by (intro keeps_if keeps_outcome) (simp_all add: write_keeps clobber_keeps)
  then show ?thesis
    unfolding InterpretSYSTEM_def InterpretEBREAK_def Let_def
    by (simp add: keeps_bindE keeps_bindE_value keeps_next CSR_keeps retire_keeps assms(1))
qed

lemmas instruction_keeps = Interpret_base_keeps Interpret_memory_keeps InterpretOP_keeps InterpretAMO_keeps
  Interpret_float_keeps InterpretOPFP_keeps InterpretSYSTEM_keeps

lemma Interpret_keeps: "I s \<Longrightarrow> host_keeps I h \<Longrightarrow> keeps I (Interpret h e s)"
  by (simp add: Interpret_def Let_def instruction_keeps)

lemma InterpretC_keeps:
  assumes "I s"
  shows "keeps I (InterpretC e s)"
proof -
  have "keeps I r" if "InterpretC_mem opcode c s = Some r" for opcode c r
    using that assms unfolding InterpretC_mem_def Let_def
    by (auto split: if_splits simp: keeps_next keeps_bindE_value write_keeps)
  moreover have "keeps I (InterpretC_JR c s)" "keeps I (InterpretC_MISCALU c s)" for c
    by (simp_all add: InterpretC_JR_def InterpretC_MISCALU_def InterpretEBREAK_def Let_def write_keeps assms)
  ultimately show ?thesis
    unfolding InterpretC_def Let_def by (intro keeps_intros) (simp_all add: write_keeps assms)
qed

lemma step_keeps: "I s \<Longrightarrow> host_keeps I h \<Longrightarrow> keeps I (step h s)"
  unfolding step_def Let_def
  by (intro keeps_intros) (simp_all add: instret_keeps Interpret_keeps InterpretC_keeps)

lemma steps_keep:
  assumes "(loop_step h)\<^sup>*\<^sup>* s t" and "I s" and "host_keeps I h"
  shows "I t"
  using assms
proof (induction rule: rtranclp_induct)
  case (step t u)
  then show ?case using step_keeps [of t h] by (simp add: loop_step_def)
qed simp

lemma Execute_keeps:
  assumes "Execute h s = Some r" and "I s" and "host_keeps I h"
  shows "keeps I r"
proof -
  have "I s \<longrightarrow> host_keeps I h \<longrightarrow> keeps I r"
  proof (rule Execute.raw_induct [OF _ assms(1)])
    fix f h s r
    assume ih: "\<And>h s r. f h s = Some r \<Longrightarrow> I s \<longrightarrow> host_keeps I h \<longrightarrow> keeps I r"
      and r: "(if pc s = kEndSimulatingPC then Some (Inr s)
        else case step h s of Inl e \<Rightarrow> Some (Inl e) | Inr s' \<Rightarrow> f h s') = Some r"
    show "I s \<longrightarrow> host_keeps I h \<longrightarrow> keeps I r"
      using r step_keeps [of s h] by (cases "step h s") (auto simp: step_keeps split: if_splits dest: ih)
  qed
  then show ?thesis using assms(2,3) by simp
qed

end

subsection \<open>The zero register and the bounds of the stack\<close>

lemma randomize_xreg_fields:
  "get_xreg (randomize_xreg i s) r = (if r = of_nat i then fst (Random_NextUInt64 (random s)) else get_xreg s r)"
  "stack_limit (randomize_xreg i s) = stack_limit s" "stack_base (randomize_xreg i s) = stack_base s"
  "overflow_stack_limit (randomize_xreg i s) = overflow_stack_limit s"
  "pc (randomize_xreg i s) = pc s" "memory (randomize_xreg i s) = memory s" "fregs (randomize_xreg i s) = fregs s"
  by (simp_all add: randomize_xreg_def get_xreg_def split: prod.split)

lemma of_nat_register_neq_0: "0 < i \<Longrightarrow> i < 32 \<Longrightarrow> (of_nat i :: Register) \<noteq> 0"
  by (auto simp: word_of_nat_eq_0_iff dest: dvd_imp_le)

interpretation zero: machine_invariant zero_ok
proof
  fix s :: sim and i :: nat
  assume "zero_ok s" "0 < i" "i < 32"
  then show "zero_ok (randomize_xreg i s)"
    using of_nat_register_neq_0 [of i] by (simp add: zero_ok_def randomize_xreg_fields)
qed simp_all

definition stack_bounds :: "sim \<Rightarrow> u64 \<times> u64 \<times> u64" where
  "stack_bounds s = (stack_limit s, overflow_stack_limit s, stack_base s)"

interpretation bounds: machine_invariant "\<lambda>s. stack_bounds s = b" for b
  by unfold_locales (simp_all add: stack_bounds_def randomize_xreg_fields set_xreg_def)

end
