(* ===== verification/Riscv_Calls.thy ===== *)
theory Riscv_Calls
  imports Riscv_Compare Riscv_Sim_Invariant
begin

text \<open>
  Assembled routines called from C++ through \<open>Simulator::CallX\<close>.

  \<open>ret\<close> jumps to the address in \<open>RA\<close>, which \<open>RunCall\<close> sets to the sentinel
  \<open>kEndSimulatingPC\<close>.  \<open>leaf_call\<close>: a straight-line routine that writes only
  volatile registers, followed by \<open>ret\<close>, is executed to its end by the simulator
  (the loop terminates, without an error of the interpreter), passes the check of
  the preserved registers and returns the contents of \<open>A0\<close>.
\<close>

unbundle bit_operations_syntax

subsection \<open>The return instruction\<close>

lemma ret_step:
  assumes "wf_asm a"
  shows "\<exists>code. ret a = Inr (append_code code a) \<and> length code \<le> 4 \<and>
    step_is code (\<lambda>h s. Inr (s\<lparr>pc := get_xreg s RA\<rparr>))"
proof (cases "Supports RV_C a")
  case True
  have "step_is (bytes16 (CR C_JR RA ZR)) (\<lambda>h s. Inr (s\<lparr>pc := get_xreg s RA\<rparr>))"
    by (rule step_is_16) (simp_all add: exec_simps)
  then show ?thesis
    using True assms by (intro exI [of _ "bytes16 (CR C_JR RA ZR)"])
      (simp add: jalr_def asm_defs ASSERT_def wf_asm_Supports Emit_append_code)
next
  case False
  have "step_is (bytes32 (IType 0 RA f3_0 ZR op_JALR)) (\<lambda>h s. Inr (s\<lparr>pc := get_xreg s RA\<rparr>))"
    by (rule step_is_32) (simp_all add: exec_simps IsITypeImm_0)
  then show ?thesis
    using False assms by (intro exI [of _ "bytes32 (IType 0 RA f3_0 ZR op_JALR)"])
      (simp add: jalr_def asm_defs ASSERT_def wf_asm_Supports Emit_append_code IsITypeImm_0 IsFunct3_def IsOpcode_def)
qed

subsection \<open>Registers that a call may change\<close>

definition volatile :: "Register set" where
  "volatile = {r. bit kAbiVolatileCpuRegs (unat r)}"

definition writes_only :: "Register set \<Rightarrow> (sim \<Rightarrow> sim) \<Rightarrow> bool" where
  "writes_only D f \<longleftrightarrow>
     (\<forall>s. fregs (f s) = fregs s \<and> (\<forall>q. q \<notin> D \<longrightarrow> get_xreg (f s) q = get_xreg s q))"

lemma unat_of_nat_register: "i < 32 \<Longrightarrow> unat (of_nat i :: Register) = i"
  by (simp add: unat_of_nat take_bit_nat_eq_self)

lemma of_nat_register_inject: "i < 32 \<Longrightarrow> j < 32 \<Longrightarrow> (of_nat i :: Register) = of_nat j \<longleftrightarrow> i = j"
  by (metis unat_of_nat_register)

lemma fold_keeps_field:
  assumes "\<And>i s. i \<in> set is \<Longrightarrow> g (f i s) = g s"
  shows "g (fold f is s) = g s"
  using assms by (induction "is" arbitrary: s) simp_all

lemma clobber_keeps_field:
  assumes "\<And>i s. i < 32 \<Longrightarrow> kAbiVolatileCpuRegs AND push_bit i 1 \<noteq> 0 \<Longrightarrow> g (randomize_xreg i s) = g s"
    and "\<And>i s. i < 32 \<Longrightarrow> kAbiVolatileFpuRegs AND push_bit i 1 \<noteq> 0 \<Longrightarrow>
      g (s\<lparr>fregs := (fregs s)(of_nat i := kNaNBox)\<rparr>) = g s"
  shows "g (clobber_registers s) = g s"
  unfolding clobber_registers_def
  by (rule trans [OF fold_keeps_field [where g = g] fold_keeps_field [where g = g]]) (simp_all add: assms)

lemma clobber_xregs_other:
  assumes "i < 32" and "kAbiVolatileCpuRegs AND push_bit i 1 = 0"
  shows "get_xreg (clobber_registers s) (of_nat i) = get_xreg s (of_nat i)"
  using assms by (intro clobber_keeps_field) (auto simp: randomize_xreg_fields of_nat_register_inject)

lemma clobber_fregs_other:
  assumes "i < 32" and "kAbiVolatileFpuRegs AND push_bit i 1 = 0"
  shows "fregs (clobber_registers s) (of_nat i) = fregs s (of_nat i)"
  using assms by (intro clobber_keeps_field) (auto simp: randomize_xreg_fields of_nat_register_inject)

lemma clobber_memory: "memory (clobber_registers s) = memory s"
  by (rule clobber_keeps_field) (simp_all add: randomize_xreg_fields)

lemma volatile_members:
  "i < 32 \<Longrightarrow> of_nat i \<in> volatile \<longleftrightarrow> kAbiVolatileCpuRegs AND push_bit i 1 \<noteq> 0"
  by (simp add: volatile_def unat_of_nat_register and_exp_eq_0_iff_not_bit)

abbreviation (input) preserved_at_call :: u32 where
  "preserved_at_call \<equiv> kAbiPreservedCpuRegs OR RegList [4, 3, 2, 8]"

lemma preserved_not_volatile:
  "kAbiVolatileCpuRegs AND preserved_at_call = 0" "\<not> bit preserved_at_call 1"
  by (simp_all add: kAbiVolatileCpuRegs_def kAbiPreservedCpuRegs_def RegList_def)

lemma CheckPreservedRegisters_ok:
  assumes x: "\<And>i. i < 32 \<Longrightarrow> preserved_at_call AND push_bit i 1 \<noteq> 0 \<Longrightarrow> xregs t (of_nat i) = pres_xregs p (of_nat i)"
    and f: "\<And>i. i < 32 \<Longrightarrow> kAbiVolatileFpuRegs AND push_bit i 1 = 0 \<Longrightarrow> fregs t (of_nat i) = pres_fregs p (of_nat i)"
  shows "CheckPreservedRegisters p t = Inr ()"
proof -
  have "xregs t SP = pres_xregs p SP"
    using x [of 2] by (simp add: kAbiPreservedCpuRegs_def RegList_def)
  moreover have "filter (\<lambda>i. preserved_at_call AND push_bit i 1 \<noteq> 0 \<and> pres_xregs p (of_nat i) \<noteq> xregs t (of_nat i)) [0..<32] = []"
    unfolding filter_empty_conv using x by fastforce
  moreover have "filter (\<lambda>i. kAbiVolatileFpuRegs AND push_bit i 1 = 0 \<and> pres_fregs p (of_nat i) \<noteq> fregs t (of_nat i)) [0..<32] = []"
    unfolding filter_empty_conv using f by fastforce
  ultimately show ?thesis
    unfolding CheckPreservedRegisters_def Let_def by simp
qed

subsection \<open>Calls of leaf routines\<close>

definition call_state :: "u64 \<Rightarrow> u64 \<Rightarrow> u64 \<Rightarrow> u64 \<Rightarrow> u64 \<Rightarrow> sim \<Rightarrow> sim" where
  "call_state entry arg0 arg1 arg2 arg3 s =
     set_xreg RA kEndSimulatingPC
       ((set_xreg A3 arg3 (set_xreg A2 arg2 (set_xreg A1 arg1 (set_xreg A0 arg0 (clobber_registers s)))))\<lparr>pc := entry\<rparr>)"

lemma call_state_simps:
  "memory (call_state entry x0 x1 x2 x3 s) = memory s" "pc (call_state entry x0 x1 x2 x3 s) = entry"
  "zero_ok s \<Longrightarrow> zero_ok (call_state entry x0 x1 x2 x3 s)"
  "get_xreg (call_state entry x0 x1 x2 x3 s) RA = kEndSimulatingPC"
  "get_xreg (call_state entry x0 x1 x2 x3 s) A0 = x0" "get_xreg (call_state entry x0 x1 x2 x3 s) A1 = x1"
  "get_xreg (call_state entry x0 x1 x2 x3 s) A2 = x2" "get_xreg (call_state entry x0 x1 x2 x3 s) A3 = x3"
  by (simp_all add: call_state_def clobber_memory zero.clobber_registers_keeps)

lemma call_state_preserved:
  assumes "i < 32" and "preserved_at_call AND push_bit i 1 \<noteq> 0"
  shows "of_nat i \<notin> volatile" and "get_xreg (call_state entry x0 x1 x2 x3 s) (of_nat i) = get_xreg s (of_nat i)"
proof -
  have p: "bit preserved_at_call i"
    using assms(2) by (simp add: and_exp_eq_0_iff_not_bit)
  have "\<not> bit (kAbiVolatileCpuRegs AND preserved_at_call) i" "\<not> bit preserved_at_call 1"
    using preserved_not_volatile by simp_all
  then have v: "\<not> bit kAbiVolatileCpuRegs i" and "i \<noteq> 1"
    using p by (auto simp: bit_and_iff)
  show "of_nat i \<notin> volatile"
    using v assms(1) by (simp add: volatile_def unat_of_nat_register)
  have "bit kAbiVolatileCpuRegs 10" "bit kAbiVolatileCpuRegs 11" "bit kAbiVolatileCpuRegs 12" "bit kAbiVolatileCpuRegs 13"
    by (simp_all add: kAbiVolatileCpuRegs_def RegList_def)
  then have "i \<notin> {10, 11, 12, 13}" using v by auto
  then have "(of_nat i :: Register) \<notin> {of_nat 10, of_nat 11, of_nat 12, of_nat 13, of_nat 1}"
    using \<open>i \<noteq> 1\<close> assms(1) by (simp only: insert_iff empty_iff of_nat_register_inject) auto
  then show "get_xreg (call_state entry x0 x1 x2 x3 s) (of_nat i) = get_xreg s (of_nat i)"
    using clobber_xregs_other [of i s] assms(1) v by (simp add: call_state_def and_exp_eq_0_iff_not_bit)
qed

lemma call_state_fregs:
  assumes "i < 32" and "kAbiVolatileFpuRegs AND push_bit i 1 = 0"
  shows "fregs (call_state entry x0 x1 x2 x3 s) (of_nat i) = fregs s (of_nat i)"
  by (simp add: call_state_def clobber_fregs_other [OF assms])

lemma CallX_eq:
  "CallX h entry x0 x1 x2 x3 s =
     (case Execute h (call_state entry x0 x1 x2 x3 s) of
        None \<Rightarrow> None
      | Some (Inl e) \<Rightarrow> Some (Inl e)
      | Some (Inr t) \<Rightarrow> Some (bindE (CheckPreservedRegisters (SavePreservedRegisters s) t) (\<lambda>_. Inr (get_xreg t A0, t))))"
  by (simp add: CallX_def PrepareCall_def RunCall_def call_state_def bindE_assoc split: option.split sum.split)

lemma leaf_reaches:
  assumes "assembles n (op a) f a" and "wf_asm a"
  shows "\<exists>code. seqE [op, ret] a = Inr (append_code code a) \<and> length code \<le> n + 4 \<and>
    (\<forall>h s. placed code s \<longrightarrow> reaches h s ((f s)\<lparr>pc := get_xreg (f s) RA\<rparr>))"
proof -
  obtain xs where xs: "op a = Inr (append_code xs a)" "runs xs f" "length xs \<le> n" "frame f"
    using assms(1) by (auto simp: assembles_def)
  obtain ys where ys: "ret (append_code xs a) = Inr (append_code (xs @ ys) a)" "length ys \<le> 4"
    "step_is ys (\<lambda>h s. Inr (s\<lparr>pc := get_xreg s RA\<rparr>))"
    using ret_step [of "append_code xs a"] assms(2) by (auto simp: append_code_append)
  have "reaches h s ((f s)\<lparr>pc := get_xreg (f s) RA\<rparr>)" if p: "placed (xs @ ys) s" for h s
  proof -
    let ?t = "(f s)\<lparr>pc := pc s + of_nat (length xs)\<rparr>"
    have "placed ys (?t\<lparr>instret := k\<rparr>)" for k
      by (rule placed_append(2) [OF p]) (simp_all add: frame_simps [OF xs(4)])
    then have "loop_step h (?t\<lparr>instret := k\<rparr>) ((f s)\<lparr>pc := get_xreg (f s) RA, instret := k + 1\<rparr>)" for k
      using ys(3) placed_not_end [of ys "?t\<lparr>instret := k\<rparr>"]
      by (simp add: loop_step_def step_is_def placed_def)
    then show ?thesis
      using runsD [OF xs(2) placed_append(1) [OF p], of h] unfolding reaches_def
      by (metis rtranclp.rtrancl_into_rtrancl)
  qed
  then show ?thesis
    using xs ys by (intro exI [of _ "xs @ ys"]) simp
qed

lemma leaf_call:
  assumes "assembles n (op a) f a" and "wf_asm a" and "writes_only D f" and "D \<subseteq> volatile"
  shows "\<exists>code. seqE [op, ret] a = Inr (append_code code a) \<and> length code \<le> n + 4 \<and>
    (\<forall>h s entry x0 x1 x2 x3. code_at (memory s) entry code \<longrightarrow> unat entry + length code < 2 ^ 64 - 2 \<longrightarrow> zero_ok s \<longrightarrow>
       (\<exists>t. CallX h entry x0 x1 x2 x3 s = Some (Inr (get_xreg (f (call_state entry x0 x1 x2 x3 s)) A0, t))))"
proof -
  obtain code where code: "seqE [op, ret] a = Inr (append_code code a)" "length code \<le> n + 4"
    "\<And>h s. placed code s \<Longrightarrow> reaches h s ((f s)\<lparr>pc := get_xreg (f s) RA\<rparr>)"
    using leaf_reaches [of n op a f, OF assms(1,2)] by blast
  have keep: "fregs (f s) = fregs s" "q \<notin> volatile \<Longrightarrow> get_xreg (f s) q = get_xreg s q" for s q
    using assms(3,4) by (auto simp: writes_only_def)
  have RA: "RA \<notin> volatile"
    by (simp add: volatile_def kAbiVolatileCpuRegs_def RegList_def)
  have "\<exists>t. CallX h entry x0 x1 x2 x3 s = Some (Inr (get_xreg (f (call_state entry x0 x1 x2 x3 s)) A0, t))"
    if "code_at (memory s) entry code" "unat entry + length code < 2 ^ 64 - 2" "zero_ok s"
    for h s entry x0 x1 x2 x3
  proof -
    let ?c = "call_state entry x0 x1 x2 x3 s"
    have "placed code ?c" using that by (simp add: placed_def call_state_simps)
    then obtain k where e: "Execute h ?c = Some (Inr ((f ?c)\<lparr>pc := kEndSimulatingPC, instret := k\<rparr>))"
      using reaches_Execute [OF code(3)] by (fastforce simp: keep RA call_state_simps)
    have "CheckPreservedRegisters (SavePreservedRegisters s) ((f ?c)\<lparr>pc := kEndSimulatingPC, instret := k\<rparr>) = Inr ()"
      by (rule CheckPreservedRegisters_ok)
        (use call_state_preserved keep in \<open>simp_all add: SavePreservedRegisters_def call_state_fregs get_xreg_def [symmetric]\<close>)
    then show ?thesis by (simp add: CallX_eq e)
  qed
  then show ?thesis using code(1,2) by blast
qed

end
