(* ===== verification/Riscv_Programs.thy ===== *)
theory Riscv_Programs
  imports Riscv_Forward Riscv_Calls
begin

text \<open>
  Routines with a label: a branch over straight-line code, the label bound after it,
  and a return.  The routine is assembled with \<open>EmitBranch\<close>, the operation for the
  code, \<open>Bind\<close> and \<open>ret\<close>, and executed by the loop of the simulator.
\<close>

unbundle bit_operations_syntax

definition conditional_routine ::
  "Register \<Rightarrow> Register \<Rightarrow> label \<Rightarrow> Funct3 \<Rightarrow> JumpDistance \<Rightarrow> asm_op \<Rightarrow> asm \<Rightarrow> (asm_error + asm) option"
where
  "conditional_routine rs1 rs2 l funct3 distance op a =
     and_then (Some (bindE (EmitBranch rs1 rs2 l funct3 distance a) op))
       (\<lambda>a. and_then (Bind l a) (\<lambda>a. Some (ret a)))"

lemma reaches_trans:
  assumes "reaches h s t" and "\<And>k. reaches h (t\<lparr>instret := k\<rparr>) u"
  shows "reaches h s u"
  using assms by (auto simp: reaches_def [of h s t] intro: reaches_then)

lemma reaches_instret_pc: "reaches h s (t\<lparr>instret := k, pc := p\<rparr>) \<longleftrightarrow> reaches h s (t\<lparr>pc := p\<rparr>)"
proof -
  have "t\<lparr>instret := k, pc := p\<rparr> = (t\<lparr>pc := p\<rparr>)\<lparr>instret := k\<rparr>" by (cases t) simp
  then show ?thesis by (simp only: reaches_instret)
qed

lemma conditional_routine_returns:
  assumes f: "fresh l a LL" "wf_asm a" and b: "is_branch funct3"
    and op: "\<And>b. extensions b = extensions a \<Longrightarrow> op b = Inr (append_code cs b)" and run: "runs cs f" "frame f"
    and al: "aligned a (int (length cs))" "forward_reaches distance a (length cs)"
    and RA: "\<And>s. get_xreg (f s) RA = get_xreg s RA"
  shows "\<exists>a' code. conditional_routine rs1 rs2 l funct3 distance op a = Some (Inr a') \<and> buffer a' = buffer a @ code \<and>
    (\<forall>h s. placed code s \<longrightarrow> get_xreg s RA = kEndSimulatingPC \<longrightarrow>
       (\<exists>v k. let u = set_xreg FAR_TMP v s
          in Execute h s = Some (Inr ((if branch_test funct3 (get_xreg s rs1) (get_xreg s rs2) then u else f u)
               \<lparr>pc := kEndSimulatingPC, instret := k\<rparr>))))"
proof -
  let ?c = "\<lambda>s. branch_test funct3 (get_xreg s rs1) (get_xreg s rs2)"
  obtain a1 where a1: "EmitBranch rs1 rs2 l funct3 distance a = Inr a1" and sk: "skips l a a1 LL ?c cs"
    using forward_branch [OF f(1) b, of rs1 rs2 distance] al by blast
  obtain a2 xs where a2: "Bind l (append_code cs a1) = Some (Inr a2)" "buffer a2 = buffer a @ xs @ cs"
    and e: "extensions a1 = extensions a" "extensions a2 = extensions a"
    and ex: "exits xs (\<lambda>s. s) ?c (of_nat (length (xs @ cs)))"
    using sk unfolding skips_def by blast
  have "wf_asm a2" using f(2) e(2) by (simp add: wf_asm_def)
  then obtain rs where r: "ret a2 = Inr (append_code rs a2)" "step_is rs (\<lambda>h s. Inr (s\<lparr>pc := get_xreg s RA\<rparr>))"
    using ret_step [of a2] by blast
  have "\<exists>v k. let u = set_xreg FAR_TMP v s in Execute h s = Some (Inr ((if ?c s then u else f u)
      \<lparr>pc := kEndSimulatingPC, instret := k\<rparr>))"
    if p: "placed (xs @ cs @ rs) s" and ra: "get_xreg s RA = kEndSimulatingPC" for h s
  proof -
    obtain v where v: "reaches h s ((set_xreg FAR_TMP v s)\<lparr>pc := pc s + (if ?c s then of_nat (length (xs @ cs)) else of_nat (length xs))\<rparr>)"
      using ex placed_append(1) [OF p] unfolding exits_def by blast
    let ?u = "set_xreg FAR_TMP v s"
    let ?g = "\<lambda>u. if ?c s then u else f u"
    have u: "memory ?u = memory s" "pc ?u = pc s" "zero_ok ?u = zero_ok s" by simp_all
    have g1: "reaches h s ((?g ?u)\<lparr>pc := pc s + of_nat (length (xs @ cs))\<rparr>)"
    proof (cases "?c s")
      case False
      have "placed cs (?u\<lparr>pc := pc s + of_nat (length xs), instret := k\<rparr>)" for k
        by (rule placed_append(1) [OF placed_append(2) [OF p]]) simp_all
      from runsD [OF run(1) this, of h] False v show ?thesis
        by (intro reaches_trans [OF v]) (simp add: frame_simps [OF run(2)] reaches_instret_pc add.assoc)
    qed (use v in simp)
    have g: "memory (?g ?u) = memory s" "pc (?g ?u) = pc s" "zero_ok (?g ?u) = zero_ok s" "get_xreg (?g ?u) RA = kEndSimulatingPC"
      using RA ra by (simp_all add: frame_simps [OF run(2)] frame_pc [OF run(2)])
    have "placed rs ((?g ?u)\<lparr>pc := pc s + of_nat (length (xs @ cs)), instret := k\<rparr>)" for k
      by (rule placed_append(2) [of "xs @ cs" rs s]) (use p g in \<open>simp_all only: append_assoc, simp_all\<close>)
    from step_is_reaches [OF r(2) this refl, of h] g(4)
    have "reaches h s ((?g ?u)\<lparr>pc := kEndSimulatingPC\<rparr>)"
      by (intro reaches_trans [OF g1]) (simp add: reaches_instret_pc)
    then have "\<exists>k. Execute h s = Some (Inr ((?g ?u)\<lparr>pc := kEndSimulatingPC, instret := k\<rparr>))"
      by (rule reaches_Execute) simp
    then show ?thesis unfolding Let_def by blast
  qed
  then show ?thesis
    using a1 a2 op [OF e(1)] r
    by (intro exI [of _ "append_code rs a2"] exI [of _ "xs @ cs @ rs"])
      (auto simp: conditional_routine_def and_then_def append_code_def)
qed

end
