(* ===== verification/Data_Stream.thy ===== *)
theory Data_Stream
  imports Platform_Utils
begin

text \<open>
  The byte streams of \<open>runtime/vm/datastream.h\<close> and \<open>datastream.cc\<close>, through which
  snapshots and code metadata are written and read.

  A \<open>ReadStream\<close> is a buffer with a current position; a \<open>BaseWriteStream\<close> is a buffer
  of \<open>capacity\<close> bytes that grows by the virtual \<open>Realloc\<close>, here an argument of every
  operation.  \<open>MallocWriteStream\<close> reallocates; \<open>StreamingWriteStream\<close> first hands the
  bytes to a callback (the list \<open>flushed\<close> of the model).  The heap under \<open>realloc\<close> is a
  record: how large a block it grants and what fresh memory holds.

  Failed \<open>ASSERT\<close>s, accesses outside a buffer, shifts by more than the width of the
  (promoted) type and \<open>ThrowOOM\<close> are error values.  A template parameter \<open>T\<close> is the
  length \<open>'a\<close> of a word.  Sizes and positions are unbounded; they stay below
  $2^{62}$, the memory of the machine.
\<close>

unbundle bit_operations_syntax

datatype stream_error = StreamAssertion | OutOfBounds | ShiftTooFar | OutOfMemory

definition require :: "bool \<Rightarrow> stream_error + 'a \<Rightarrow> stream_error + 'a" where
  "require c r = (if c then r else Inl StreamAssertion)"

lemma bindE_cong [fundef_cong]:
  "r = r' \<Longrightarrow> (\<And>x. r' = Inr x \<Longrightarrow> f x = f' x) \<Longrightarrow> bindE r f = bindE r' f'"
  by (cases r') auto

text \<open>\<open>kEndByteMarker\<close> and \<open>kEndUnsignedByteMarker\<close>.\<close>

definition kEndByteMarker :: u8 where "kEndByteMarker = 255 - 63"
definition kEndUnsignedByteMarker :: u8 where "kEndUnsignedByteMarker = 255 - 127"

text \<open>\<open>RoundUp\<close> of a size, with the assertion of \<open>RoundDown\<close> on the alignment.\<close>

definition round_up :: "int \<Rightarrow> int \<Rightarrow> stream_error + int" where
  "round_up n alignment =
     require (IsPowerOfTwo (word_of_int alignment :: intptr))
       (Inr (sint (RoundUp (word_of_int n :: intptr) (word_of_int alignment))))"

subsection \<open>Reading\<close>

record ReadStream =
  read_buffer :: "u8 list"
  read_current :: int

type_synonym 'a reader = "ReadStream \<Rightarrow> stream_error + 'a \<times> ReadStream"

definition ReadStream_init :: "u8 list \<Rightarrow> ReadStream" where
  "ReadStream_init bytes = \<lparr>read_buffer = bytes, read_current = 0\<rparr>"

abbreviation read_end :: "ReadStream \<Rightarrow> int" where
  "read_end st \<equiv> int (length (read_buffer st))"

definition ReadStream_SetPosition :: "int \<Rightarrow> ReadStream \<Rightarrow> stream_error + ReadStream" where
  "ReadStream_SetPosition p st = require (read_end st \<ge> p) (Inr (st\<lparr>read_current := p\<rparr>))"

definition Advance :: "int \<Rightarrow> ReadStream \<Rightarrow> stream_error + ReadStream" where
  "Advance n st =
     require (read_end st - read_current st \<ge> n) (Inr (st\<lparr>read_current := read_current st + n\<rparr>))"

definition ReadStream_Align :: "int \<Rightarrow> ReadStream \<Rightarrow> stream_error + ReadStream" where
  "ReadStream_Align alignment st =
     bindE (round_up (read_current st) alignment) (\<lambda>position_after. Advance (position_after - read_current st) st)"

definition PendingBytes :: "ReadStream \<Rightarrow> stream_error + int" where
  "PendingBytes st = require (read_end st \<ge> read_current st) (Inr (read_end st - read_current st))"

definition ReadByte :: "u8 reader" where
  "ReadByte st =
     require (read_current st < read_end st)
       (if read_current st < 0 then Inl OutOfBounds
        else Inr (read_buffer st ! nat (read_current st), st\<lparr>read_current := read_current st + 1\<rparr>))"

definition ReadBytes :: "int \<Rightarrow> u8 list reader" where
  "ReadBytes len st =
     require (read_end st - read_current st \<ge> len)
       (if len \<noteq> 0 \<and> (read_current st < 0 \<or> len < 0) then Inl OutOfBounds
        else Inr (take (nat len) (drop (nat (read_current st)) (read_buffer st)),
                  st\<lparr>read_current := read_current st + len\<rparr>))"

lemma ReadByte_decreases:
  "ReadByte st = Inr (c, st') \<Longrightarrow> nat (read_end st' - read_current st') < nat (read_end st - read_current st)"
  by (auto simp: ReadByte_def require_def split: if_splits)

text \<open>
  A shift to the left by \<open>s\<close>; operands narrower than \<open>int\<close> are promoted to its 32 bits.
\<close>

definition shift_left :: "nat \<Rightarrow> 'a::len word \<Rightarrow> stream_error + 'a word" where
  "shift_left s x = (if s < max 32 LENGTH('a) then Inr (push_bit s x) else Inl ShiftTooFar)"

text \<open>The variable length format: seven bits a byte, the last byte above 127.\<close>

function Read_loop :: "u8 \<Rightarrow> u8 \<Rightarrow> 'a::len word \<Rightarrow> nat \<Rightarrow> 'a word reader" where
  "Read_loop end_byte_marker b r s st =
     bindE (shift_left s (ucast b :: 'a word)) (\<lambda>part.
     bindE (ReadByte st) (\<lambda>(c, st).
       let r = r OR part; s = (s + 7) mod 256 in
       if uint c \<le> 127 then Read_loop end_byte_marker c r s st
       else bindE (shift_left s (ucast c - ucast end_byte_marker)) (\<lambda>part. Inr (r OR part, st))))"
  by pat_completeness auto

termination
  by (relation "measure (\<lambda>(_, _, _, _, st). nat (read_end st - read_current st))")
    (auto dest: ReadByte_decreases)

declare Read_loop.simps [simp del]

definition Read :: "u8 \<Rightarrow> 'a::len word reader" where
  "Read end_byte_marker st =
     bindE (ReadByte st) (\<lambda>(b, st).
       if uint b > 127 then Inr (ucast b - ucast end_byte_marker, st)
       else Read_loop end_byte_marker b 0 0 st)"

definition ReadUnsigned :: "'a::len word reader" where
  "ReadUnsigned = Read kEndUnsignedByteMarker"

text \<open>The unrolled versions, as the macros build them.\<close>

definition UNROLLED_INIT :: "u8 \<Rightarrow> ('a::len word \<Rightarrow> 'a word reader) \<Rightarrow> 'a word reader" where
  "UNROLLED_INIT end_byte_marker k st =
     bindE (ReadByte st) (\<lambda>(b, st).
       if uint b > 127 then Inr (ucast b - ucast end_byte_marker, st) else k (ucast b) st)"

definition UNROLLED_BODY ::
  "u8 \<Rightarrow> nat \<Rightarrow> ('a::len word \<Rightarrow> 'a word reader) \<Rightarrow> 'a word \<Rightarrow> 'a word reader" where
  "UNROLLED_BODY end_byte_marker bit_start k r st =
     bindE (ReadByte st) (\<lambda>(b, st).
       if uint b > 127 then Inr (r OR push_bit bit_start (ucast b - ucast end_byte_marker), st)
       else k (r OR push_bit bit_start (ucast b)) st)"

definition UNROLLED_END :: "u8 \<Rightarrow> nat \<Rightarrow> 'a::len word \<Rightarrow> 'a word reader" where
  "UNROLLED_END end_byte_marker bit_start r st =
     bindE (ReadByte st) (\<lambda>(b, st).
       require (uint b > 127) (Inr (r OR push_bit bit_start (ucast b - ucast end_byte_marker), st)))"

definition stream_Read16 :: "u8 \<Rightarrow> u16 reader" where
  "stream_Read16 m = UNROLLED_INIT m (UNROLLED_BODY m 7 (UNROLLED_END m 14))"

definition stream_Read32 :: "u8 \<Rightarrow> u32 reader" where
  "stream_Read32 m =
     UNROLLED_INIT m (UNROLLED_BODY m 7 (UNROLLED_BODY m 14 (UNROLLED_BODY m 21 (UNROLLED_END m 28))))"

definition stream_Read64 :: "u8 \<Rightarrow> u64 reader" where
  "stream_Read64 m =
     UNROLLED_INIT m (UNROLLED_BODY m 7 (UNROLLED_BODY m 14 (UNROLLED_BODY m 21 (UNROLLED_BODY m 28
       (UNROLLED_BODY m 35 (UNROLLED_BODY m 42 (UNROLLED_BODY m 49 (UNROLLED_BODY m 56 (UNROLLED_END m 63)))))))))"

fun ReadWordWith32BitReads_loop :: "nat \<Rightarrow> nat \<Rightarrow> u64 \<Rightarrow> u64 reader" where
  "ReadWordWith32BitReads_loop j 0 acc st = Inr (acc, st)"
| "ReadWordWith32BitReads_loop j (Suc n) acc st =
     bindE (stream_Read32 kEndByteMarker st) (\<lambda>(partial_value, st).
       ReadWordWith32BitReads_loop (j + 1) n (acc OR push_bit (j * 32) (ucast partial_value)) st)"

definition ReadWordWith32BitReads :: "u64 reader" where
  "ReadWordWith32BitReads = ReadWordWith32BitReads_loop 0 2 0"

text \<open>
  LEB128: seven bits a byte, the high bit set in all but the last byte.  The loop is
  shared by the unsigned and the signed format; it returns the value, the number of
  bits read and the last byte.
\<close>

function LEB128_loop :: "'a::len word \<Rightarrow> nat \<Rightarrow> ('a word \<times> nat \<times> u8) reader" where
  "LEB128_loop r s st =
     require (s < LENGTH('a))
       (bindE (ReadByte st) (\<lambda>(b, st).
          let r = r OR push_bit s (ucast (b AND 0x7F)); s = (s + 7) mod 256 in
          if b AND 0x80 \<noteq> 0 then LEB128_loop r s st
          else require (s < 7 + LENGTH('a)) (Inr ((r, s, b), st))))"
  by pat_completeness auto

termination
  by (relation "measure (\<lambda>(_, _, st). nat (read_end st - read_current st))")
    (auto dest: ReadByte_decreases)

declare LEB128_loop.simps [simp del]

definition ReadLEB128 :: "'a::len word reader" where
  "ReadLEB128 st = bindE (LEB128_loop 0 0 st) (\<lambda>((r, s, b), st). Inr (r, st))"

definition ReadSLEB128 :: "'a::len word reader" where
  "ReadSLEB128 st =
     bindE (LEB128_loop 0 0 st) (\<lambda>((r, s, b), st).
       let sign_bits = (if b AND 0x40 \<noteq> 0 \<and> s < LENGTH('a) then NOT (push_bit s 1 - 1) else 0)
       in Inr (r OR sign_bits, st))"

subsection \<open>Writing\<close>

record heap =
  heap_limit :: nat
  heap_fresh :: "nat \<Rightarrow> u8"

text \<open>\<open>realloc\<close>: the old bytes, then fresh memory, or a null pointer.\<close>

definition realloc :: "heap \<Rightarrow> u8 list option \<Rightarrow> nat \<Rightarrow> u8 list option" where
  "realloc h old n =
     (let bytes = (case old of None \<Rightarrow> [] | Some m \<Rightarrow> m)
      in if n \<le> heap_limit h then Some (take n bytes @ map (heap_fresh h) [length bytes..<n]) else None)"

record WriteStream =
  initial_size :: int
  write_buffer :: "u8 list option"
  write_current :: int
  capacity :: int
  flushed :: "u8 list"
  flushed_size :: int

type_synonym writer = "WriteStream \<Rightarrow> stream_error + WriteStream"
type_synonym reallocator = "int \<Rightarrow> WriteStream \<Rightarrow> WriteStream"

definition WriteStream_init :: "u64 \<Rightarrow> WriteStream" where
  "WriteStream_init n =
     \<lparr>initial_size = uint (RoundUpToPowerOfTwo n), write_buffer = None, write_current = 0, capacity = 0,
      flushed = [], flushed_size = 0\<rparr>"

text \<open>
  The virtual \<open>Position\<close>: \<open>StreamingWriteStream\<close> adds the flushed size, which is 0 in
  the other classes.
\<close>

definition WriteStream_Position :: "WriteStream \<Rightarrow> int" where
  "WriteStream_Position st = flushed_size st + write_current st"

definition Remaining :: "WriteStream \<Rightarrow> int" where
  "Remaining st = capacity st - write_current st"

definition MallocWriteStream_Realloc :: "heap \<Rightarrow> reallocator" where
  "MallocWriteStream_Realloc h new_size st =
     (let new_buffer = realloc h (write_buffer st) (nat new_size)
      in st\<lparr>write_buffer := new_buffer,
            capacity := (if new_buffer \<noteq> None then new_size else 0),
            write_current := (if new_buffer \<noteq> None then write_current st else 0)\<rparr>)"

definition Flush :: "WriteStream \<Rightarrow> WriteStream" where
  "Flush st =
     (let n = write_current st; bytes = (case write_buffer st of None \<Rightarrow> [] | Some m \<Rightarrow> take (nat n) m)
      in st\<lparr>flushed := flushed st @ bytes, flushed_size := flushed_size st + n, write_current := 0\<rparr>)"

definition StreamingWriteStream_Realloc :: "heap \<Rightarrow> reallocator" where
  "StreamingWriteStream_Realloc h new_size st =
     (let st = Flush st
      in if new_size \<le> capacity st then st
         else let new_capacity = sint (RoundUp (word_of_int new_size :: intptr) (64 * 1024));
                  new_buffer = realloc h (write_buffer st) (nat new_capacity)
              in st\<lparr>write_buffer := new_buffer,
                    capacity := (if new_buffer \<noteq> None then new_capacity else 0),
                    write_current := 0\<rparr>)"

definition EnsureSpace :: "reallocator \<Rightarrow> int \<Rightarrow> writer" where
  "EnsureSpace Realloc size_needed st =
     (if Remaining st \<ge> size_needed then Inr st
      else bindE (if size_needed > capacity st then round_up size_needed (initial_size st) else Inr (capacity st))
        (\<lambda>increment_size.
           let new_size = capacity st + increment_size
           in require (new_size > capacity st)
                (let st' = Realloc new_size st
                 in if write_buffer st' = None then Inl OutOfMemory
                    else require (Remaining st' \<ge> size_needed) (Inr st'))))"

text \<open>\<open>memmove\<close> or \<open>memset\<close> to \<open>current_\<close>.\<close>

definition store_bytes :: "u8 list \<Rightarrow> writer" where
  "store_bytes bs st =
     (case write_buffer st of
        None \<Rightarrow> if bs = [] then Inr st else Inl OutOfBounds
      | Some m \<Rightarrow>
          let p = nat (write_current st)
          in if write_current st < 0 \<or> p + length bs > length m then Inl OutOfBounds
             else Inr (st\<lparr>write_buffer := Some (take p m @ bs @ drop (p + length bs) m)\<rparr>))"

definition move_current :: "int \<Rightarrow> WriteStream \<Rightarrow> WriteStream" where
  "move_current n st = st\<lparr>write_current := write_current st + n\<rparr>"

definition BaseWriteStream_SetPosition :: "reallocator \<Rightarrow> int \<Rightarrow> writer" where
  "BaseWriteStream_SetPosition Realloc p st =
     bindE (EnsureSpace Realloc (p - write_current st) st) (\<lambda>st. Inr (st\<lparr>write_current := p\<rparr>))"

text \<open>The virtual \<open>SetPosition\<close>, relative to the flushed bytes.\<close>

definition WriteStream_SetPosition :: "reallocator \<Rightarrow> int \<Rightarrow> writer" where
  "WriteStream_SetPosition Realloc p st =
     require (p \<ge> flushed_size st) (BaseWriteStream_SetPosition Realloc (p - flushed_size st) st)"

definition WriteStream_Align :: "reallocator \<Rightarrow> int \<Rightarrow> writer" where
  "WriteStream_Align Realloc alignment st =
     bindE (round_up (WriteStream_Position st) alignment) (\<lambda>position_after.
       let n = position_after - WriteStream_Position st
       in if n \<noteq> 0 then
            bindE (EnsureSpace Realloc n st) (\<lambda>st.
            bindE (store_bytes (replicate (nat n) 0) st) (WriteStream_SetPosition Realloc position_after))
          else Inr st)"

definition WriteByte :: "reallocator \<Rightarrow> u8 \<Rightarrow> writer" where
  "WriteByte Realloc b st =
     bindE (EnsureSpace Realloc 1 st) (\<lambda>st.
     bindE (store_bytes [b] st) (\<lambda>st. Inr (move_current 1 st)))"

definition WriteBytes :: "reallocator \<Rightarrow> u8 list \<Rightarrow> writer" where
  "WriteBytes Realloc bs st =
     (let len = int (length bs)
      in if len \<noteq> 0 then
           bindE (EnsureSpace Realloc len st) (\<lambda>st.
           bindE (store_bytes bs st) (\<lambda>st. Inr (move_current len st)))
         else Inr st)"

text \<open>\<open>Steal\<close>: the bytes written, and the stream without its buffer.\<close>

definition Steal :: "WriteStream \<Rightarrow> (u8 list option \<times> int) \<times> WriteStream" where
  "Steal st =
     ((write_buffer st, WriteStream_Position st),
      st\<lparr>write_current := 0, write_buffer := None, capacity := 0\<rparr>)"

text \<open>The bytes of a value in the memory of a little-endian host.\<close>

definition host_bytes :: "'a::len word \<Rightarrow> u8 list" where
  "host_bytes x = map (\<lambda>i. ucast (drop_bit (8 * i) x)) [0..<LENGTH('a) div 8]"

definition WriteFixed :: "reallocator \<Rightarrow> 'a::len word \<Rightarrow> writer" where
  "WriteFixed Realloc x = WriteBytes Realloc (host_bytes x)"

text \<open>\<open>Write\<close> of a signed type, \<open>WriteUnsigned\<close> of a signed or an unsigned one.\<close>

function Write :: "reallocator \<Rightarrow> 'a::len word \<Rightarrow> writer" where
  "Write Realloc v st =
     (if sint v < - 64 \<or> sint v > 63 then
        bindE (WriteByte Realloc (ucast (v AND 0x7F)) st) (Write Realloc (signed_drop_bit 7 v))
      else WriteByte Realloc (word_of_int (sint v) + kEndByteMarker) st)"
  by pat_completeness auto

termination
  by (relation "measure (\<lambda>(_, v, _). nat \<bar>sint v\<bar>)")
    (auto simp: sint_signed_drop_bit_eq drop_bit_eq_div)

declare Write.simps [simp del]

lemma uint_drop_bit_7:
  fixes x :: "'a::len word"
  shows "uint (drop_bit 7 x) = uint x div 128"
  unfolding unsigned_drop_bit_eq by (simp add: drop_bit_eq_div take_bit_int_eq_self)

lemma drop_bit_7_less:
  fixes x :: "'a::len word"
  assumes "x \<noteq> 0"
  shows "unat (drop_bit 7 x) < unat x"
proof -
  have "uint x \<noteq> 0" using assms by (metis uint_0_iff)
  then have "0 < uint x" using uint_nonnegative [of x] by linarith
  then have "uint (drop_bit 7 x) < uint x" unfolding uint_drop_bit_7 by simp
  then show ?thesis by (simp only: nat_uint_eq [symmetric] nat_less_eq_zless [OF uint_nonnegative])
qed

function WriteUnsigned_loop :: "reallocator \<Rightarrow> 'a::len word \<Rightarrow> writer" where
  "WriteUnsigned_loop Realloc v st =
     (if uint v > 127 then
        bindE (WriteByte Realloc (ucast (v AND 0x7F)) st) (WriteUnsigned_loop Realloc (drop_bit 7 v))
      else WriteByte Realloc (ucast v + kEndUnsignedByteMarker) st)"
  by pat_completeness auto

termination
  by (relation "measure (\<lambda>(_, v, _). unat v)") (auto intro!: drop_bit_7_less)

declare WriteUnsigned_loop.simps [simp del]

definition WriteUnsigned :: "bool \<Rightarrow> reallocator \<Rightarrow> 'a::len word \<Rightarrow> writer" where
  "WriteUnsigned is_signed Realloc v st =
     require (is_signed \<longrightarrow> sint v \<ge> 0) (WriteUnsigned_loop Realloc v st)"

fun WriteWordWith32BitWrites_loop :: "reallocator \<Rightarrow> nat \<Rightarrow> nat \<Rightarrow> u64 \<Rightarrow> writer" where
  "WriteWordWith32BitWrites_loop Realloc j 0 x st = Inr st"
| "WriteWordWith32BitWrites_loop Realloc j (Suc n) x st =
     bindE (Write Realloc (ucast (drop_bit (j * 32) x) AND 0xFFFFFFFF :: u32) st)
       (WriteWordWith32BitWrites_loop Realloc (j + 1) n x)"

definition WriteWordWith32BitWrites :: "reallocator \<Rightarrow> u64 \<Rightarrow> writer" where
  "WriteWordWith32BitWrites Realloc x = WriteWordWith32BitWrites_loop Realloc 0 2 x"

function WriteLEB128 :: "reallocator \<Rightarrow> 'a::len word \<Rightarrow> writer" where
  "WriteLEB128 Realloc v st =
     (let part = ucast (v AND 0x7F); remainder = drop_bit 7 v
      in if remainder \<noteq> 0 then bindE (WriteByte Realloc (part OR 0x80) st) (WriteLEB128 Realloc remainder)
         else WriteByte Realloc part st)"
  by pat_completeness auto

termination
  by (relation "measure (\<lambda>(_, v, _). unat v)") (auto intro!: drop_bit_7_less)

declare WriteLEB128.simps [simp del]

text \<open>
  \<open>WriteSLEB128\<close> of a 64-bit value.  The language leaves open whether the shift of a
  negative value is arithmetic: \<open>arithmetic\<close> is the choice of the compiler.
\<close>

definition shift_right_7 :: "bool \<Rightarrow> u64 \<Rightarrow> u64" where
  "shift_right_7 arithmetic x = (if arithmetic then signed_drop_bit 7 x else drop_bit 7 x)"

definition SLEB128_remainder :: "bool \<Rightarrow> bool \<Rightarrow> u64 \<Rightarrow> u64" where
  "SLEB128_remainder arithmetic is_negative x =
     (let remainder = shift_right_7 arithmetic x
      in if is_negative then remainder OR NOT (push_bit (64 - 7) 1 - 1) else remainder)"

definition SLEB128_last :: "bool \<Rightarrow> u64 \<Rightarrow> u8 \<Rightarrow> bool" where
  "SLEB128_last is_negative remainder part =
     (if is_negative then remainder = NOT 0 \<and> part AND 0x40 \<noteq> 0 else remainder = 0 \<and> part AND 0x40 = 0)"

lemma SLEB128_remainder_negative:
  "NOT (SLEB128_remainder arithmetic True x) = drop_bit 7 (NOT x)"
proof -
  have "push_bit (64 - 7) 1 - 1 = (mask 57 :: u64)" by (simp add: mask_eq_exp_minus_1)
  then have "SLEB128_remainder arithmetic True x = shift_right_7 arithmetic x OR NOT (mask 57)"
    by (simp only: SLEB128_remainder_def Let_def if_True)
  moreover have "NOT (shift_right_7 arithmetic x OR NOT (mask 57)) = drop_bit 7 (NOT x)"
    by (rule bit_word_eqI) (auto simp: shift_right_7_def bit_simps)
  ultimately show ?thesis by simp
qed

lemma SLEB128_remainder_nonnegative:
  assumes "0 \<le> sint (SLEB128_remainder arithmetic False x)"
  shows "SLEB128_remainder arithmetic False x = drop_bit 7 x"
proof (cases arithmetic)
  case True
  then have "0 \<le> sint x" using assms
    by (simp add: SLEB128_remainder_def shift_right_7_def sint_signed_drop_bit_eq)
  then have "\<not> bit x 63" using bit_last_iff [of x] by simp
  then have "signed_drop_bit 7 x = drop_bit 7 x"
    by (intro bit_word_eqI) (auto simp: bit_simps dest: bit_imp_le_length split: if_splits)
  then show ?thesis using True by (simp add: SLEB128_remainder_def shift_right_7_def)
qed (simp add: SLEB128_remainder_def shift_right_7_def)

lemma SLEB128_decreases:
  assumes "r = SLEB128_remainder arithmetic is_negative x" and "is_negative \<longleftrightarrow> sint r < 0"
    and "\<not> SLEB128_last is_negative r (ucast (x AND 0x7F))"
  shows "unat (if is_negative then NOT r else r) < unat (if is_negative then NOT x else x)"
proof (cases is_negative)
  case True
  then have r: "NOT r = drop_bit 7 (NOT x)" using assms(1) by (simp add: SLEB128_remainder_negative)
  have "NOT x \<noteq> 0"
  proof
    assume "NOT x = 0"
    then have "NOT x = NOT (- 1)" and "NOT r = NOT (- 1)" using r by simp_all
    then have "x = - 1" and "r = - 1" unfolding bit.compl_eq_compl_iff .
    then show False using assms(3) True by (simp add: SLEB128_last_def)
  qed
  from drop_bit_7_less [OF this] show ?thesis unfolding r [symmetric] by (simp only: True if_True)
next
  case False
  then have "0 \<le> sint (SLEB128_remainder arithmetic False x)" using assms(1,2) by (metis linorder_not_less)
  from SLEB128_remainder_nonnegative [OF this] have r: "r = drop_bit 7 x" using assms(1) False by metis
  have "x \<noteq> 0"
  proof
    assume "x = 0"
    then have "r = 0" using r by simp
    then show False using assms(3) False \<open>x = 0\<close> by (simp add: SLEB128_last_def)
  qed
  from drop_bit_7_less [OF this] show ?thesis unfolding r [symmetric] by (simp only: False if_False)
qed

function WriteSLEB128_loop :: "bool \<Rightarrow> bool \<Rightarrow> reallocator \<Rightarrow> u64 \<Rightarrow> writer" where
  "WriteSLEB128_loop arithmetic is_negative Realloc x st =
     (let part = ucast (x AND 0x7F);
          remainder = SLEB128_remainder arithmetic is_negative x
      in if \<not> (is_negative \<longleftrightarrow> sint remainder < 0) then Inl StreamAssertion
         else if SLEB128_last is_negative remainder part then WriteByte Realloc part st
         else bindE (WriteByte Realloc (part OR 0x80) st)
                (WriteSLEB128_loop arithmetic is_negative Realloc remainder))"
  by pat_completeness auto

termination
proof (relation "measure (\<lambda>(_, neg, _, x, _). unat (if neg then NOT x else x))")
  fix arithmetic is_negative and R :: reallocator and x r :: u64 and part :: u8 and st st'
  assume "part = ucast (x AND 0x7F)" and "r = SLEB128_remainder arithmetic is_negative x"
    and "\<not> \<not> (is_negative \<longleftrightarrow> sint r < 0)" and "\<not> SLEB128_last is_negative r part"
  then have "unat (if is_negative then NOT r else r) < unat (if is_negative then NOT x else x)"
    using SLEB128_decreases [of r arithmetic is_negative x] by blast
  then show "((arithmetic, is_negative, R, r, st'), arithmetic, is_negative, R, x, st)
      \<in> measure (\<lambda>(_, neg, _, x, _). unat (if neg then NOT x else x))"
    by simp
qed simp

declare WriteSLEB128_loop.simps [simp del]

definition WriteSLEB128 :: "bool \<Rightarrow> reallocator \<Rightarrow> u64 \<Rightarrow> writer" where
  "WriteSLEB128 arithmetic Realloc x = WriteSLEB128_loop arithmetic (sint x < 0) Realloc x"

end
