(* ===== verification/Stream_Read.thy ===== *)
theory Stream_Read
  imports Data_Stream
begin

text \<open>
  What the readers of \<open>Data_Stream\<close> return: the formats as lists of bytes, and that
  each reader, placed before the bytes of a value, returns the value and stops behind
  them.  The unrolled readers are shown to agree with the loop.
\<close>

unbundle bit_operations_syntax

subsection \<open>Readers on a stream split at the current position\<close>

definition stream_at :: "u8 list \<Rightarrow> u8 list \<Rightarrow> ReadStream" where
  "stream_at pre post = \<lparr>read_buffer = pre @ post, read_current = int (length pre)\<rparr>"

definition reads :: "'a reader \<Rightarrow> u8 list \<Rightarrow> 'a \<Rightarrow> bool" where
  "reads f bs v = (\<forall>pre post. f (stream_at pre (bs @ post)) = Inr (v, stream_at (pre @ bs) post))"

lemma ReadByte_stream_at [simp]:
  "ReadByte (stream_at pre (b # post)) = Inr (b, stream_at (pre @ [b]) post)"
  by (simp add: ReadByte_def stream_at_def require_def)

lemma reads_bindE:
  assumes "reads f bs v" and "reads (g v) cs w"
  shows "reads (\<lambda>st. bindE (f st) (\<lambda>(x, st). g x st)) (bs @ cs) w"
  using assms by (simp add: reads_def)

lemma reads_ReadBytes: "reads (ReadBytes (int (length bs))) bs bs"
  by (simp add: reads_def ReadBytes_def stream_at_def require_def)

subsection \<open>Formats\<close>

text \<open>
  A number in digits of seven bits, the lowest first.  The last group is a signed or an
  unsigned number; \<open>digit\<close> and \<open>final\<close> say how the groups are marked.
\<close>

function signed_format :: "(int \<Rightarrow> u8) \<Rightarrow> (int \<Rightarrow> u8) \<Rightarrow> int \<Rightarrow> u8 list" where
  "signed_format digit final k =
     (if - 64 \<le> k \<and> k \<le> 63 then [final k] else digit (k mod 128) # signed_format digit final (k div 128))"
  by pat_completeness auto

termination
  by (relation "measure (\<lambda>(_, _, k). nat \<bar>k\<bar>)") auto

function unsigned_format :: "(int \<Rightarrow> u8) \<Rightarrow> (int \<Rightarrow> u8) \<Rightarrow> int \<Rightarrow> u8 list" where
  "unsigned_format digit final k =
     (if k \<le> 127 then [final k] else digit (k mod 128) # unsigned_format digit final (k div 128))"
  by pat_completeness auto

termination
  by (relation "measure (\<lambda>(_, _, k). nat k)") auto

declare signed_format.simps [simp del] unsigned_format.simps [simp del]

definition varint :: "int \<Rightarrow> u8 list" where
  "varint = signed_format word_of_int (\<lambda>k. word_of_int (k + 192))"

definition unsigned_varint :: "int \<Rightarrow> u8 list" where
  "unsigned_varint = unsigned_format word_of_int (\<lambda>k. word_of_int (k + 128))"

definition leb128 :: "int \<Rightarrow> u8 list" where
  "leb128 = unsigned_format (\<lambda>k. word_of_int (k + 128)) word_of_int"

definition sleb128 :: "int \<Rightarrow> u8 list" where
  "sleb128 = signed_format (\<lambda>k. word_of_int (k + 128)) (\<lambda>k. word_of_int (k mod 128))"

lemma join_7:
  "push_bit s (word_of_int (k mod 128)) OR push_bit (s + 7) (word_of_int (k div 128)) =
   push_bit s (word_of_int k :: 'a::len word)"
proof -
  have k: "k mod 128 = take_bit 7 k" "k div 128 = drop_bit 7 k"
    by (simp_all add: take_bit_eq_mod drop_bit_eq_div)
  have *: "7 + (n - (s + 7)) = n - s" if "\<not> n - s < 7" for n using that by linarith
  show ?thesis
  proof (rule bit_word_eqI)
    fix n
    show "bit (push_bit s (word_of_int (k mod 128)) OR push_bit (s + 7) (word_of_int (k div 128)) :: 'a word) n =
        bit (push_bit s (word_of_int k :: 'a word)) n"
      by (cases "n - s < 7") (auto simp: k * bit_simps)
  qed
qed

lemma uint_byte: "0 \<le> k \<Longrightarrow> k < 256 \<Longrightarrow> uint (word_of_int k :: u8) = k"
  by (simp add: uint_word_of_int_eq take_bit_int_eq_self)

lemma ucast_byte: "0 \<le> k \<Longrightarrow> k < 256 \<Longrightarrow> ucast (word_of_int k :: u8) = (word_of_int k :: 'a::len word)"
  by (metis uint_byte word_of_int_uint ucast_eq)

text \<open>Ranges shrink by seven bits with every group.\<close>

lemma signed_range_div:
  fixes k :: int
  assumes "- (2 ^ n) \<le> k" and "k < 2 ^ n" and "\<not> (- 64 \<le> k \<and> k \<le> 63)"
  shows "7 \<le> n" and "- (2 ^ (n - 7)) \<le> k div 128" and "k div 128 < 2 ^ (n - 7)"
proof -
  show n: "7 \<le> n"
  proof (rule ccontr)
    assume "\<not> 7 \<le> n"
    then have "(2 :: int) ^ n \<le> 2 ^ 6" by (intro power_increasing) simp_all
    then show False using assms by simp
  qed
  then have "(2 :: int) ^ n = 128 * 2 ^ (n - 7)"
    using power_add [of "2 :: int" 7 "n - 7"] by simp
  then show "- (2 ^ (n - 7)) \<le> k div 128" and "k div 128 < 2 ^ (n - 7)" using assms by linarith+
qed

lemma unsigned_range_div:
  fixes k :: int
  assumes "k < 2 ^ n" and "127 < k"
  shows "7 < n" and "k div 128 < 2 ^ (n - 7)" and "0 \<le> k div 128"
proof -
  show n: "7 < n"
  proof (rule ccontr)
    assume "\<not> 7 < n"
    then have "(2 :: int) ^ n \<le> 2 ^ 7" by (intro power_increasing) simp_all
    then show False using assms by simp
  qed
  then have "(2 :: int) ^ n = 128 * 2 ^ (n - 7)"
    using power_add [of "2 :: int" 7 "n - 7"] by simp
  then show "k div 128 < 2 ^ (n - 7)" and "0 \<le> k div 128" using assms by linarith+
qed

subsection \<open>The variable length format\<close>

lemma Read_loop_step:
  assumes "s + 7 < max 32 LENGTH('a::len)" and "LENGTH('a) \<le> 64"
  shows "Read_loop m b (r :: 'a word) s (stream_at pre (c # post)) =
    (if uint c \<le> 127 then Read_loop m c (r OR push_bit s (ucast b)) (s + 7) (stream_at (pre @ [c]) post)
     else Inr (r OR push_bit s (ucast b) OR push_bit (s + 7) (ucast c - ucast m), stream_at (pre @ [c]) post))"
proof -
  have "(s + 7) mod 256 = s + 7" using assms by simp
  then show ?thesis using assms by (subst Read_loop.simps) (simp add: shift_left_def Let_def or.assoc)
qed

lemma signed_format_final: "- 64 \<le> k \<Longrightarrow> k \<le> 63 \<Longrightarrow> signed_format digit final k = [final k]"
  by (simp add: signed_format.simps)

lemma signed_format_digit:
  "\<not> (- 64 \<le> k \<and> k \<le> 63) \<Longrightarrow> signed_format digit final k = digit (k mod 128) # signed_format digit final (k div 128)"
  by (subst signed_format.simps) (simp only: if_False)

lemma unsigned_format_final: "k \<le> 127 \<Longrightarrow> unsigned_format digit final k = [final k]"
  by (simp add: unsigned_format.simps)

lemma unsigned_format_digit:
  "127 < k \<Longrightarrow> unsigned_format digit final k = digit (k mod 128) # unsigned_format digit final (k div 128)"
  by (subst unsigned_format.simps) simp

lemma length_signed_format:
  "- (2 ^ n) \<le> k \<Longrightarrow> k < 2 ^ n \<Longrightarrow> length (signed_format digit final k) \<le> n div 7 + 1"
proof (induction "nat \<bar>k\<bar>" arbitrary: k n rule: less_induct)
  case less
  show ?case
  proof (cases "- 64 \<le> k \<and> k \<le> 63")
    case False
    note range = signed_range_div [OF less.prems False]
    have "nat \<bar>k div 128\<bar> < nat \<bar>k\<bar>" using False by auto
    from less.hyps [OF this range(2,3)] show ?thesis
      using range(1) False by (simp add: signed_format_digit)
  qed (simp add: signed_format_final)
qed

lemma length_unsigned_format:
  "k < 2 ^ n \<Longrightarrow> length (unsigned_format digit final k) \<le> (n - 1) div 7 + 1"
proof (induction "nat k" arbitrary: k n rule: less_induct)
  case less
  show ?case
  proof (cases "k \<le> 127")
    case False
    note range = unsigned_range_div [OF less.prems]
    have "nat (k div 128) < nat k" "7 < n" using False range by auto
    moreover from \<open>7 < n\<close> have "(n - 7 - 1) div 7 + 1 = (n - 1) div 7"
      using div_add_self2 [of 7 "n - 7 - 1"] by simp
    ultimately show ?thesis
      using less.hyps [of "k div 128" "n - 7"] range False by (simp add: unsigned_format_digit)
  qed (simp add: unsigned_format_final)
qed

lemma Read_loop_varint:
  fixes r :: "'a::len word"
  assumes "\<not> (- 64 \<le> k \<and> k \<le> 63)" and "- (2 ^ n) \<le> k" and "k < 2 ^ n" and "s + n < LENGTH('a)" and "LENGTH('a) \<le> 64"
  shows "Read_loop kEndByteMarker (word_of_int (k mod 128)) r s (stream_at pre (varint (k div 128) @ post)) =
    Inr (r OR push_bit s (word_of_int k), stream_at (pre @ varint (k div 128)) post)"
  using assms
proof (induction "nat \<bar>k\<bar>" arbitrary: k r s n pre rule: less_induct)
  case less
  let ?k = "k div 128"
  note range = signed_range_div [OF less.prems(2,3,1)]
  have s: "s + 7 < max 32 LENGTH('a)" using range(1) less.prems(4) by linarith
  have digit: "ucast (word_of_int (k mod 128) :: u8) = (word_of_int (k mod 128) :: 'a word)"
    by (rule ucast_byte) simp_all
  show ?case
  proof (cases "- 64 \<le> ?k \<and> ?k \<le> 63")
    case True
    have "varint ?k = [word_of_int (?k + 192)]" using True by (simp add: varint_def signed_format_final)
    moreover have "uint (word_of_int (?k + 192) :: u8) = ?k + 192" using True by (intro uint_byte) simp_all
    moreover have "ucast (word_of_int (?k + 192) :: u8) = (word_of_int (?k + 192) :: 'a word)"
      using True by (intro ucast_byte) simp_all
    moreover have "(ucast kEndByteMarker :: 'a word) = word_of_int 192"
      using ucast_byte [of 192] by (simp add: kEndByteMarker_def)
    ultimately show ?thesis
      using True join_7 [of s k, where 'a = 'a] digit
      by (simp add: Read_loop_step [OF s less.prems(5)] or.assoc)
  next
    case False
    have fmt: "varint ?k = word_of_int (?k mod 128) # varint (?k div 128)"
      using False by (simp add: varint_def signed_format_digit)
    have "uint (word_of_int (?k mod 128) :: u8) = ?k mod 128" by (rule uint_byte) simp_all
    then have small: "uint (word_of_int (?k mod 128) :: u8) \<le> 127" using pos_mod_bound [of 128 ?k] by simp
    have "nat \<bar>?k\<bar> < nat \<bar>k\<bar>" using less.prems(1) by auto
    from less.hyps [OF this False range(2,3), of "s + 7" "r OR push_bit s (word_of_int (k mod 128))"] range(1) less.prems(4,5) small
    show ?thesis
      using join_7 [of s k, where 'a = 'a]
      by (simp add: fmt Read_loop_step [OF s less.prems(5)] digit or.assoc)
  qed
qed

lemma markers: "(ucast kEndByteMarker :: 'a::len word) = word_of_int 192"
  "(ucast kEndUnsignedByteMarker :: 'a word) = word_of_int 128"
  using ucast_byte [of 192] ucast_byte [of 128]
  by (simp_all add: kEndByteMarker_def kEndUnsignedByteMarker_def)

lemma digit_byte: "uint (word_of_int (k mod 128) :: u8) \<le> 127"
  "ucast (word_of_int (k mod 128) :: u8) = (word_of_int (k mod 128) :: 'a::len word)"
  using uint_byte [of "k mod 128"] ucast_byte [of "k mod 128", where 'a = 'a] pos_mod_bound [of 128 k] by simp_all

lemma Read_varint:
  assumes "- (2 ^ (LENGTH('a::len) - 1)) \<le> k" and "k < 2 ^ (LENGTH('a) - 1)" and "LENGTH('a) \<le> 64"
  shows "reads (Read kEndByteMarker) (varint k) (word_of_int k :: 'a word)"
proof (cases "- 64 \<le> k \<and> k \<le> 63")
  case True
  then have "varint k = [word_of_int (k + 192)]" "uint (word_of_int (k + 192) :: u8) = k + 192"
    "ucast (word_of_int (k + 192) :: u8) = (word_of_int (k + 192) :: 'a word)"
    using ucast_byte [of "k + 192", where 'a = 'a] uint_byte [of "k + 192"]
    by (simp_all add: varint_def signed_format_final)
  then show ?thesis using True by (simp add: reads_def Read_def markers)
next
  case False
  then have fmt: "varint k = word_of_int (k mod 128) # varint (k div 128)"
    by (simp add: varint_def signed_format_digit)
  show ?thesis
    using digit_byte(1) [of k] Read_loop_varint [OF False assms(1,2) _ assms(3), of 0 0]
    by (simp add: reads_def Read_def fmt)
qed

lemma Read_loop_unsigned_varint:
  fixes r :: "'a::len word"
  assumes "127 < k" and "k < 2 ^ n" and "s + n \<le> LENGTH('a)" and "LENGTH('a) \<le> 64"
  shows "Read_loop kEndUnsignedByteMarker (word_of_int (k mod 128)) r s (stream_at pre (unsigned_varint (k div 128) @ post)) =
    Inr (r OR push_bit s (word_of_int k), stream_at (pre @ unsigned_varint (k div 128)) post)"
  using assms
proof (induction "nat k" arbitrary: k r s n pre rule: less_induct)
  case less
  let ?k = "k div 128"
  note range = unsigned_range_div [OF less.prems(2,1)]
  have s: "s + 7 < max 32 LENGTH('a)" using range(1) less.prems(3) by linarith
  note join = join_7 [of s k, where 'a = 'a]
  show ?case
  proof (cases "?k \<le> 127")
    case True
    then have "unsigned_varint ?k = [word_of_int (?k + 128)]" "uint (word_of_int (?k + 128) :: u8) = ?k + 128"
      "ucast (word_of_int (?k + 128) :: u8) = (word_of_int (?k + 128) :: 'a word)"
      using range(3) ucast_byte [of "?k + 128", where 'a = 'a] uint_byte [of "?k + 128"]
      by (simp_all add: unsigned_varint_def unsigned_format_final)
    then show ?thesis
      using True range(3) join
      by (simp add: Read_loop_step [OF s less.prems(4)] or.assoc markers digit_byte)
  next
    case False
    then have fmt: "unsigned_varint ?k = word_of_int (?k mod 128) # unsigned_varint (?k div 128)"
      by (simp add: unsigned_varint_def unsigned_format_digit)
    have "nat ?k < nat k" and "127 < ?k" using less.prems(1) False by auto
    from less.hyps [OF this range(2), of "s + 7" "r OR push_bit s (word_of_int (k mod 128))"] range(1) less.prems(3,4)
      digit_byte(1) [of ?k]
    show ?thesis
      using join by (simp add: fmt Read_loop_step [OF s less.prems(4)] digit_byte or.assoc)
  qed
qed

lemma ReadUnsigned_unsigned_varint:
  assumes "0 \<le> k" and "k < 2 ^ LENGTH('a::len)" and "LENGTH('a) \<le> 64"
  shows "reads ReadUnsigned (unsigned_varint k) (word_of_int k :: 'a word)"
proof (cases "k \<le> 127")
  case True
  then have "unsigned_varint k = [word_of_int (k + 128)]" "uint (word_of_int (k + 128) :: u8) = k + 128"
    "ucast (word_of_int (k + 128) :: u8) = (word_of_int (k + 128) :: 'a word)"
    using assms(1) ucast_byte [of "k + 128", where 'a = 'a] uint_byte [of "k + 128"]
    by (simp_all add: unsigned_varint_def unsigned_format_final)
  then show ?thesis using assms(1) by (simp add: reads_def ReadUnsigned_def Read_def markers)
next
  case False
  then have fmt: "unsigned_varint k = word_of_int (k mod 128) # unsigned_varint (k div 128)"
    by (simp add: unsigned_varint_def unsigned_format_digit)
  show ?thesis
    using False digit_byte(1) [of k] Read_loop_unsigned_varint [OF _ assms(2) _ assms(3), of 0 0]
    by (simp add: reads_def ReadUnsigned_def Read_def fmt)
qed

subsection \<open>The unrolled readers\<close>

text \<open>The rest of the loop: the next byte is read at bit \<open>s\<close>.\<close>

definition Read_rest :: "u8 \<Rightarrow> nat \<Rightarrow> 'a::len word \<Rightarrow> 'a word reader" where
  "Read_rest m s r st =
     bindE (ReadByte st) (\<lambda>(c, st).
       if uint c \<le> 127 then Read_loop m c r s st
       else bindE (shift_left s (ucast c - ucast m)) (\<lambda>part. Inr (r OR part, st)))"

definition same_result :: "stream_error + 'a \<Rightarrow> stream_error + 'a \<Rightarrow> bool" where
  "same_result r r' = (\<forall>x. r = Inr x \<longleftrightarrow> r' = Inr x)"

lemma Read_loop_rest:
  "Read_loop m b (r :: 'a::len word) s st =
     (if s < max 32 LENGTH('a) then Read_rest m ((s + 7) mod 256) (r OR push_bit s (ucast b)) st else Inl ShiftTooFar)"
  by (subst Read_loop.simps) (simp add: Read_rest_def shift_left_def Let_def)

lemma Read_rest_too_far:
  assumes "max 32 LENGTH('a::len) \<le> s"
  shows "Read_rest m s (r :: 'a word) st \<noteq> Inr x"
  using assms by (cases "ReadByte st") (auto simp: Read_rest_def Read_loop_rest shift_left_def split: prod.splits)

lemma Read_rest_end:
  assumes "s < max 32 LENGTH('a::len)" and "max 32 LENGTH('a) \<le> s + 7" and "s + 7 < 256"
  shows "same_result (UNROLLED_END m s (r :: 'a word) st) (Read_rest m s r st)"
  using assms Read_rest_too_far [of "s + 7", where 'a = 'a]
  by (cases "ReadByte st")
    (auto simp: same_result_def UNROLLED_END_def Read_rest_def Read_loop_rest shift_left_def require_def split: prod.splits)

lemma Read_rest_body:
  assumes "s < max 32 LENGTH('a::len)" and "s + 7 < 256"
    and "\<And>r st. same_result (k r st) (Read_rest m (s + 7) r st)"
  shows "same_result (UNROLLED_BODY m s k (r :: 'a word) st) (Read_rest m s r st)"
  using assms
  by (cases "ReadByte st")
    (auto simp: same_result_def UNROLLED_BODY_def Read_rest_def Read_loop_rest shift_left_def split: prod.splits)

lemma Read_rest_init:
  assumes "\<And>r st. same_result (k r st) (Read_rest m 7 r st)"
  shows "same_result (UNROLLED_INIT m k st) (Read m st :: stream_error + 'a::len word \<times> ReadStream)"
  using assms
  by (cases "ReadByte st")
    (auto simp: same_result_def UNROLLED_INIT_def Read_def Read_loop_rest split: prod.splits)

lemma stream_Read32_Read: "same_result (stream_Read32 m st) (Read m st)"
  unfolding stream_Read32_def
  by (rule Read_rest_init, (rule Read_rest_body, simp, simp, simp)+, rule Read_rest_end) simp_all

lemma stream_Read64_Read: "same_result (stream_Read64 m st) (Read m st)"
  unfolding stream_Read64_def
  by (rule Read_rest_init, (rule Read_rest_body, simp, simp, simp)+, rule Read_rest_end) simp_all

lemma reads_same_result: "reads g bs v \<Longrightarrow> (\<And>st. same_result (f st) (g st)) \<Longrightarrow> reads f bs v"
  by (simp add: reads_def same_result_def)

subsection \<open>LEB128\<close>

lemma low_byte: "(word_of_int (k mod 128) :: u8) = take_bit 7 (word_of_int k)"
  by (rule bit_word_eqI) (auto simp: bit_simps simp flip: take_bit_eq_mod [of 7, simplified])

lemma bit_0x80: "bit (0x80 :: u8) n \<longleftrightarrow> n = 7" "bit (0x80 :: int) n \<longleftrightarrow> n = 7"
proof -
  have "(0x80 :: u8) = 2 ^ 7" "(0x80 :: int) = 2 ^ 7" by simp_all
  then show "bit (0x80 :: u8) n \<longleftrightarrow> n = 7" "bit (0x80 :: int) n \<longleftrightarrow> n = 7"
    by (simp_all only: bit_exp_iff) auto
qed

lemma bit_0x40: "bit (0x40 :: u8) n \<longleftrightarrow> n = 6" "bit (0x40 :: int) n \<longleftrightarrow> n = 6"
proof -
  have "(0x40 :: u8) = 2 ^ 6" "(0x40 :: int) = 2 ^ 6" by simp_all
  then show "bit (0x40 :: u8) n \<longleftrightarrow> n = 6" "bit (0x40 :: int) n \<longleftrightarrow> n = 6"
    by (simp_all only: bit_exp_iff) auto
qed

lemma and_0x7F: "(x :: u8) AND 0x7F = take_bit 7 x"
  by (simp add: take_bit_eq_mask mask_eq_exp_minus_1)

lemmas leb128_bits = bit_0x80 bit_0x40 and_0x7F low_byte bit_simps

lemma leb128_marked: "(word_of_int (k mod 128 + 128) :: u8) = word_of_int (k mod 128) OR 0x80"
proof -
  have "(word_of_int (k mod 128) :: u8) AND 0x80 = 0" by (rule bit_word_eqI) (auto simp: leb128_bits)
  then show ?thesis by (simp add: disjunctive_add_eq_or)
qed

lemma leb128_digit:
  "(word_of_int (k mod 128 + 128) :: u8) AND 0x80 \<noteq> 0"
  "ucast ((word_of_int (k mod 128 + 128) :: u8) AND 0x7F) = (word_of_int (k mod 128) :: 'a::len word)"
proof -
  let ?x = "word_of_int (k mod 128) :: u8"
  have "(?x OR 0x80) AND 0x80 = 0x80" by (rule bit_word_eqI) (auto simp: leb128_bits)
  then show "(word_of_int (k mod 128 + 128) :: u8) AND 0x80 \<noteq> 0" unfolding leb128_marked by simp
  have "(?x OR 0x80) AND 0x7F = ?x" by (rule bit_word_eqI) (auto simp: leb128_bits)
  then show "ucast ((word_of_int (k mod 128 + 128) :: u8) AND 0x7F) = (word_of_int (k mod 128) :: 'a::len word)"
    unfolding leb128_marked by (simp add: digit_byte)
qed

lemma leb128_final:
  "(word_of_int (k mod 128) :: u8) AND 0x80 = 0"
  "ucast ((word_of_int (k mod 128) :: u8) AND 0x7F) = (word_of_int (k mod 128) :: 'a::len word)"
  "(word_of_int (k mod 128) :: u8) AND 0x40 \<noteq> 0 \<longleftrightarrow> bit k 6"
proof -
  let ?x = "word_of_int (k mod 128) :: u8"
  show "?x AND 0x80 = 0" by (rule bit_word_eqI) (auto simp: leb128_bits)
  have "?x AND 0x7F = ?x" by (rule bit_word_eqI) (auto simp: leb128_bits)
  then show "ucast (?x AND 0x7F) = (word_of_int (k mod 128) :: 'a::len word)" by (simp add: digit_byte)
  have "?x AND 0x40 = (if bit k 6 then 0x40 else 0)" by (rule bit_word_eqI) (auto simp: leb128_bits)
  then show "?x AND 0x40 \<noteq> 0 \<longleftrightarrow> bit k 6" by simp
qed

lemma LEB128_loop_step:
  assumes "s < LENGTH('a::len)" and "LENGTH('a) \<le> 64"
  shows "LEB128_loop (r :: 'a word) s (stream_at pre (c # post)) =
    (let r = r OR push_bit s (ucast (c AND 0x7F))
     in if c AND 0x80 \<noteq> 0 then LEB128_loop r (s + 7) (stream_at (pre @ [c]) post)
        else Inr ((r, s + 7, c), stream_at (pre @ [c]) post))"
proof -
  have "(s + 7) mod 256 = s + 7" using assms by simp
  then show ?thesis using assms by (subst LEB128_loop.simps) (simp add: require_def Let_def)
qed

lemma LEB128_loop_leb128:
  fixes r :: "'a::len word"
  assumes "0 \<le> k" and "k < 2 ^ n" and "s + n \<le> LENGTH('a)" and "s < LENGTH('a)" and "LENGTH('a) \<le> 64"
  shows "\<exists>s' b. LEB128_loop r s (stream_at pre (leb128 k @ post)) =
    Inr ((r OR push_bit s (word_of_int k), s', b), stream_at (pre @ leb128 k) post)"
  using assms
proof (induction "nat k" arbitrary: k r s n pre rule: less_induct)
  case less
  note step = LEB128_loop_step [OF less.prems(4,5)]
  show ?case
  proof (cases "k \<le> 127")
    case True
    then have "leb128 k = [word_of_int (k mod 128)]" and "k mod 128 = k"
      using less.prems(1) by (simp_all add: leb128_def unsigned_format_final)
    then show ?thesis using leb128_final(1) [of k] leb128_final(2) [of k, where 'a = 'a] by (simp add: step Let_def)
  next
    case False
    then have fmt: "leb128 k = word_of_int (k mod 128 + 128) # leb128 (k div 128)"
      by (simp add: leb128_def unsigned_format_digit)
    note range = unsigned_range_div [OF less.prems(2)]
    have "nat (k div 128) < nat k" "0 \<le> k div 128" "s + 7 + (n - 7) \<le> LENGTH('a)" "s + 7 < LENGTH('a)"
      using False range less.prems by auto
    from less.hyps [OF this(1,2) _ this(3,4) less.prems(5), of "r OR push_bit s (word_of_int (k mod 128))"
        "pre @ [word_of_int (k mod 128 + 128)]"] range False
    show ?thesis
      using leb128_digit(1) [of k] leb128_digit(2) [of k, where 'a = 'a] join_7 [of s k, where 'a = 'a]
      by (simp add: fmt step Let_def or.assoc)
  qed
qed

lemma ReadLEB128_leb128:
  assumes "0 \<le> k" and "k < 2 ^ LENGTH('a::len)" and "LENGTH('a) \<le> 64"
  shows "reads ReadLEB128 (leb128 k) (word_of_int k :: 'a word)"
  unfolding reads_def ReadLEB128_def
proof (intro allI)
  fix pre post
  obtain s b where "LEB128_loop (0 :: 'a word) 0 (stream_at pre (leb128 k @ post)) =
      Inr ((word_of_int k, s, b), stream_at (pre @ leb128 k) post)"
    using LEB128_loop_leb128 [OF assms(1,2) _ _ assms(3), of 0 0 pre post] by auto
  then show "bindE (LEB128_loop (0 :: 'a word) 0 (stream_at pre (leb128 k @ post))) (\<lambda>((r, s, b), st). Inr (r, st)) =
      Inr (word_of_int k, stream_at (pre @ leb128 k) post)" by simp
qed

lemma bit_6_sign:
  fixes k :: int
  assumes "- 64 \<le> k" and "k \<le> 63"
  shows "bit k 6 \<longleftrightarrow> k < 0"
proof (cases "k < 0")
  case True
  then have "k div 64 = - 1" using assms by simp
  then show ?thesis using True by (simp add: bit_iff_odd)
qed (use assms in \<open>simp add: bit_iff_odd\<close>)

text \<open>A signed number fits the digits of its format; the sign is bit 6 of the last one.\<close>

lemma sleb128_range:
  "- (2 ^ (7 * length (sleb128 k) - 1)) \<le> k \<and> k < 2 ^ (7 * length (sleb128 k) - 1)"
proof (induction "nat \<bar>k\<bar>" arbitrary: k rule: less_induct)
  case less
  show ?case
  proof (cases "- 64 \<le> k \<and> k \<le> 63")
    case True
    then show ?thesis by (simp add: sleb128_def signed_format_final)
  next
    case False
    define n where "n = 7 * length (sleb128 (k div 128)) - 1"
    have "nat \<bar>k div 128\<bar> < nat \<bar>k\<bar>" using False by auto
    from less.hyps [OF this] have IH: "- (2 ^ n) \<le> k div 128" "k div 128 < 2 ^ n" by (simp_all add: n_def)
    have "sleb128 (k div 128) \<noteq> []" unfolding sleb128_def by (subst signed_format.simps) simp
    then have "7 * length (sleb128 k) - 1 = 7 + n"
      using False by (cases "sleb128 (k div 128)") (simp_all add: n_def sleb128_def signed_format_digit)
    moreover have "(2 :: int) ^ (7 + n) = 128 * 2 ^ n" by (simp add: power_add)
    ultimately show ?thesis using IH by (simp only:) linarith
  qed
qed

lemma join_7_take_bit:
  "push_bit s (word_of_int (k mod 128)) OR push_bit (s + 7) (take_bit n (word_of_int (k div 128))) =
   push_bit s (take_bit (7 + n) (word_of_int k :: 'a::len word))"
proof -
  have k: "k mod 128 = take_bit 7 k" "k div 128 = drop_bit 7 k"
    by (simp_all add: take_bit_eq_mod drop_bit_eq_div)
  have *: "7 + (m - (s + 7)) = m - s" if "\<not> m - s < 7" for m using that by linarith
  show ?thesis
  proof (rule bit_word_eqI)
    fix m
    show "bit (push_bit s (word_of_int (k mod 128)) OR push_bit (s + 7) (take_bit n (word_of_int (k div 128))) :: 'a word) m =
        bit (push_bit s (take_bit (7 + n) (word_of_int k :: 'a word))) m"
      by (cases "m - s < 7") (auto simp: k * bit_simps)
  qed
qed

lemma LEB128_loop_sleb128:
  fixes r :: "'a::len word"
  assumes "- (2 ^ n) \<le> k" and "k < 2 ^ n" and "s + n < LENGTH('a)" and "LENGTH('a) \<le> 64"
  shows "\<exists>b. LEB128_loop r s (stream_at pre (sleb128 k @ post)) =
      Inr ((r OR push_bit s (take_bit (7 * length (sleb128 k)) (word_of_int k)), s + 7 * length (sleb128 k), b),
           stream_at (pre @ sleb128 k) post) \<and> (b AND 0x40 \<noteq> 0 \<longleftrightarrow> k < 0)"
  using assms
proof (induction "nat \<bar>k\<bar>" arbitrary: k r s n pre rule: less_induct)
  case less
  have "s < LENGTH('a)" using less.prems(3) by simp
  note step = LEB128_loop_step [OF this less.prems(4)]
  show ?case
  proof (cases "- 64 \<le> k \<and> k \<le> 63")
    case True
    then have fmt: "sleb128 k = [word_of_int (k mod 128)]" by (simp add: sleb128_def signed_format_final)
    have "bit k 6 \<longleftrightarrow> k < 0" using True by (simp add: bit_6_sign)
    moreover have "(word_of_int (k mod 128) :: 'a word) = take_bit 7 (word_of_int k)"
      by (rule bit_word_eqI) (auto simp: bit_simps simp flip: take_bit_eq_mod [of 7, simplified])
    ultimately show ?thesis
      using leb128_final(1,3) [of k] leb128_final(2) [of k, where 'a = 'a] by (simp add: fmt step Let_def)
  next
    case False
    then have fmt: "sleb128 k = word_of_int (k mod 128 + 128) # sleb128 (k div 128)"
      by (simp add: sleb128_def signed_format_digit)
    note range = signed_range_div [OF less.prems(1,2) False]
    have "nat \<bar>k div 128\<bar> < nat \<bar>k\<bar>" and "s + 7 + (n - 7) < LENGTH('a)" using False range(1) less.prems(3) by auto
    from less.hyps [OF this(1) range(2,3) this(2) less.prems(4), of "r OR push_bit s (word_of_int (k mod 128))"
        "pre @ [word_of_int (k mod 128 + 128)]"]
    obtain b where b: "LEB128_loop (r OR push_bit s (word_of_int (k mod 128))) (s + 7)
        (stream_at (pre @ [word_of_int (k mod 128 + 128)]) (sleb128 (k div 128) @ post)) =
        Inr ((r OR push_bit s (word_of_int (k mod 128)) OR
                push_bit (s + 7) (take_bit (7 * length (sleb128 (k div 128))) (word_of_int (k div 128))),
              s + 7 + 7 * length (sleb128 (k div 128)), b),
             stream_at (pre @ [word_of_int (k mod 128 + 128)] @ sleb128 (k div 128)) post)"
      "b AND 0x40 \<noteq> 0 \<longleftrightarrow> k div 128 < 0" by (auto simp: or.assoc)
    have "k div 128 < 0 \<longleftrightarrow> k < 0" by linarith
    moreover have "7 * length (sleb128 k) = 7 + 7 * length (sleb128 (k div 128))" by (simp add: fmt)
    ultimately show ?thesis
      using b leb128_digit(1) [of k] leb128_digit(2) [of k, where 'a = 'a] join_7_take_bit [of s k, where 'a = 'a]
      by (intro exI [of _ b]) (simp add: fmt step Let_def or.assoc)
  qed
qed

lemma sign_extend_digits:
  assumes "- (2 ^ (n - 1)) \<le> k" and "k < 2 ^ (n - 1)" and "0 < n"
  shows "take_bit n (word_of_int k) OR (if k < 0 \<and> n < LENGTH('a) then NOT (push_bit n 1 - 1) else 0) =
    (word_of_int k :: 'a::len word)"
proof (rule bit_word_eqI)
  fix i assume i: "i < LENGTH('a)"
  have "bit k i \<longleftrightarrow> k < 0" if "n \<le> i"
  proof -
    have "n - 1 \<le> i" using that by linarith
    have "signed_take_bit (n - 1) k = k" using assms by (simp add: signed_take_bit_int_eq_self)
    then have "bit k i = bit (signed_take_bit (n - 1) k) i" by simp
    also have "\<dots> = bit (signed_take_bit (n - 1) k) (n - 1)"
      using \<open>n - 1 \<le> i\<close> by (simp add: bit_signed_take_bit_iff min_def)
    also have "\<dots> \<longleftrightarrow> k < 0" using \<open>signed_take_bit (n - 1) k = k\<close> signed_take_bit_negative_iff [of "n - 1" k]
      by (simp add: bit_signed_take_bit_iff)
    finally show ?thesis .
  qed
  then show "bit (take_bit n (word_of_int k) OR (if k < 0 \<and> n < LENGTH('a) then NOT (push_bit n 1 - 1) else 0) :: 'a word) i =
      bit (word_of_int k :: 'a word) i"
    using i by (cases "i < n") (auto simp: bit_simps simp flip: mask_eq_exp_minus_1)
qed

lemma ReadSLEB128_sleb128:
  assumes "- (2 ^ (LENGTH('a::len) - 1)) \<le> k" and "k < 2 ^ (LENGTH('a) - 1)" and "LENGTH('a) \<le> 64"
  shows "reads ReadSLEB128 (sleb128 k) (word_of_int k :: 'a word)"
  unfolding reads_def
proof (intro allI)
  fix pre post
  let ?n = "7 * length (sleb128 k)"
  obtain b where "LEB128_loop (0 :: 'a word) 0 (stream_at pre (sleb128 k @ post)) =
      Inr ((take_bit ?n (word_of_int k), ?n, b), stream_at (pre @ sleb128 k) post)" "b AND 0x40 \<noteq> 0 \<longleftrightarrow> k < 0"
    using LEB128_loop_sleb128 [OF assms(1,2) _ assms(3), of 0 0 pre post] by auto
  moreover have "0 < ?n" unfolding sleb128_def by (subst signed_format.simps) simp
  ultimately show "ReadSLEB128 (stream_at pre (sleb128 k @ post)) =
      Inr (word_of_int k :: 'a word, stream_at (pre @ sleb128 k) post)"
    using sign_extend_digits [of ?n k, where 'a = 'a] sleb128_range [of k]
    by (simp add: ReadSLEB128_def Let_def)
qed

subsection \<open>Words in two halves\<close>

lemma ReadWordWith32BitReads_halves:
  "reads ReadWordWith32BitReads
     (varint (sint (ucast x :: u32)) @ varint (sint (ucast (drop_bit 32 x) :: u32))) x"
proof -
  have half: "reads (stream_Read32 kEndByteMarker) (varint (sint y)) y" for y :: u32
  proof -
    have "reads (Read kEndByteMarker) (varint (sint y)) (word_of_int (sint y) :: u32)"
      using sint_ge [of y] sint_lt [of y] by (intro Read_varint) simp_all
    then show ?thesis using reads_same_result [OF _ stream_Read32_Read] by simp
  qed
  have "ucast (ucast x :: u32) OR push_bit 32 (ucast (ucast (drop_bit 32 x) :: u32)) = x"
    by (rule bit_word_eqI) (auto simp: bit_simps)
  then show ?thesis
    using half [of "ucast x"] half [of "ucast (drop_bit 32 x)"]
    by (simp add: reads_def ReadWordWith32BitReads_def numeral_2_eq_2)
qed

subsection \<open>Readers stay in the buffer\<close>

definition advances :: "'a reader \<Rightarrow> bool" where
  "advances f = (\<forall>st v st'. f st = Inr (v, st') \<longrightarrow> 0 \<le> read_current st \<longrightarrow>
     read_buffer st' = read_buffer st \<and> read_current st < read_current st' \<and> read_current st' \<le> read_end st)"

lemma ReadByte_advances: "advances ReadByte"
  by (auto simp: advances_def ReadByte_def require_def split: if_splits)

text \<open>A reader that reads one byte and then returns or reads on.\<close>

definition continues :: "'a reader \<Rightarrow> ReadStream \<Rightarrow> bool" where
  "continues f st = (\<forall>v st'. f st = Inr (v, st') \<longrightarrow>
     read_buffer st' = read_buffer st \<and> read_current st \<le> read_current st' \<and> read_current st' \<le> read_end st)"

lemma continues_ReadByte_bindE:
  assumes "0 \<le> read_current st"
    and "\<And>c st'. ReadByte st = Inr (c, st') \<Longrightarrow> 0 \<le> read_current st' \<Longrightarrow> read_current st' \<le> read_end st' \<Longrightarrow> continues (g c) st'"
    and "bindE (ReadByte st) (\<lambda>(c, st). g c st) = Inr (v, st')"
  shows "read_buffer st' = read_buffer st \<and> read_current st < read_current st' \<and> read_current st' \<le> read_end st"
proof -
  obtain c st1 where b: "ReadByte st = Inr (c, st1)" "g c st1 = Inr (v, st')"
    using assms(3) by (auto simp: bindE_Inr_iff)
  then have s1: "read_buffer st1 = read_buffer st" "read_current st1 = read_current st + 1" "read_current st1 \<le> read_end st1"
    by (auto simp: ReadByte_def require_def split: if_splits)
  from assms(2) [OF b(1)] s1 assms(1) have "continues (g c) st1" by simp
  then show ?thesis using b(2) s1 by (auto simp: continues_def)
qed

lemma Read_loop_continues:
  "0 \<le> read_current st \<Longrightarrow> continues (Read_loop m b r s) st"
proof (induction m b r s st rule: Read_loop.induct)
  case (1 m b r s st)
  let ?g = "\<lambda>c st. let r' = r OR push_bit s (ucast b); s' = (s + 7) mod 256 in
       if uint c \<le> 127 then Read_loop m c r' s' st
       else bindE (shift_left s' (ucast c - ucast m)) (\<lambda>part. Inr (r' OR part, st))"
  have run: "Read_loop m b r s st = (if s < max 32 LENGTH('a) then bindE (ReadByte st) (\<lambda>(c, st). ?g c st) else Inl ShiftTooFar)"
    by (subst Read_loop.simps) (simp add: shift_left_def)
  have "continues (?g c) st'" if "s < max 32 LENGTH('a)" "ReadByte st = Inr (c, st')" "0 \<le> read_current st'"
    "read_current st' \<le> read_end st'" for c st'
  proof (cases "uint c \<le> 127")
    case True
    then show ?thesis
      using 1(1) [of "push_bit s (ucast b)" "(c, st')" c st'] that by (simp add: shift_left_def Let_def)
  next
    case False
    then show ?thesis using that(4) by (auto simp: continues_def Let_def shift_left_def bindE_Inr_iff split: if_splits)
  qed
  note body = this
  show ?case
    unfolding continues_def
  proof (intro allI impI)
    fix v st' assume "Read_loop m b r s st = Inr (v, st')"
    then have s: "s < max 32 LENGTH('a)" and g: "bindE (ReadByte st) (\<lambda>(c, st). ?g c st) = Inr (v, st')"
      unfolding run by (simp_all split: if_splits)
    from continues_ReadByte_bindE [OF 1(2) body [OF s] g]
    show "read_buffer st' = read_buffer st \<and> read_current st \<le> read_current st' \<and> read_current st' \<le> read_end st" by simp
  qed
qed

lemma Read_advances: "advances (Read m)"
  unfolding advances_def Read_def
proof (intro allI impI)
  fix st v st'
  assume run: "bindE (ReadByte st) (\<lambda>(b, st). if uint b > 127 then Inr (ucast b - ucast m, st) else Read_loop m b 0 0 st) = Inr (v, st')"
    and pos: "0 \<le> read_current st"
  show "read_buffer st' = read_buffer st \<and> read_current st < read_current st' \<and> read_current st' \<le> read_end st"
  proof (rule continues_ReadByte_bindE [OF pos _ run])
    fix c st1 assume "0 \<le> read_current st1" "read_current st1 \<le> read_end st1"
    then show "continues (\<lambda>st. if uint c > 127 then Inr (ucast c - ucast m, st) else Read_loop m c 0 0 st) st1"
      using Read_loop_continues [of st1 m c 0 0] by (auto simp: continues_def)
  qed
qed

lemma LEB128_loop_advances:
  "0 \<le> read_current st \<Longrightarrow> LEB128_loop r s st = Inr (v, st') \<Longrightarrow>
     read_buffer st' = read_buffer st \<and> read_current st < read_current st' \<and> read_current st' \<le> read_end st"
proof (induction r s st arbitrary: v st' rule: LEB128_loop.induct)
  case (1 r s st)
  let ?g = "\<lambda>b st. let r' = r OR push_bit s (ucast (b AND 0x7F)); s' = (s + 7) mod 256 in
          if b AND 0x80 \<noteq> 0 then LEB128_loop r' s' st
          else require (s' < 7 + LENGTH('a)) (Inr ((r', s', b), st))"
  have "require (s < LENGTH('a)) (bindE (ReadByte st) (\<lambda>(c, st). ?g c st)) = Inr (v, st')"
    by (rule trans [OF LEB128_loop.simps [symmetric] 1(3)])
  then have s: "s < LENGTH('a)" and run: "bindE (ReadByte st) (\<lambda>(c, st). ?g c st) = Inr (v, st')"
    by (simp_all add: require_def split: if_splits)
  show ?case
  proof (rule continues_ReadByte_bindE [OF 1(2) _ run])
    fix c st1 assume c: "ReadByte st = Inr (c, st1)" and st1: "0 \<le> read_current st1" "read_current st1 \<le> read_end st1"
    show "continues (?g c) st1"
    proof (cases "c AND 0x80 \<noteq> 0")
      case True
      have "read_buffer st2 = read_buffer st1 \<and> read_current st1 < read_current st2 \<and> read_current st2 \<le> read_end st1"
        if "LEB128_loop (r OR push_bit s (ucast (c AND 0x7F))) ((s + 7) mod 256) st1 = Inr (w, st2)" for w st2
        by (rule 1(1) [OF c refl refl refl True st1(1) that])
      then have "continues (LEB128_loop (r OR push_bit s (ucast (c AND 0x7F))) ((s + 7) mod 256)) st1"
        unfolding continues_def by (meson order_less_imp_le)
      then show ?thesis using True by (simp add: Let_def)
    next
      case False
      then show ?thesis using st1(2) by (auto simp: continues_def Let_def require_def split: if_splits)
    qed
  qed
qed

lemma advances_map:
  assumes "\<And>st v st'. 0 \<le> read_current st \<Longrightarrow> f st = Inr (v, st') \<Longrightarrow>
     read_buffer st' = read_buffer st \<and> read_current st < read_current st' \<and> read_current st' \<le> read_end st"
  shows "advances (\<lambda>st. bindE (f st) (\<lambda>(x, st). Inr (h x, st)))"
  unfolding advances_def
proof (intro allI impI)
  fix st v st' assume "bindE (f st) (\<lambda>(x, st). Inr (h x, st)) = Inr (v, st')" and pos: "0 \<le> read_current st"
  then obtain x where "f st = Inr (x, st')" by (auto simp: bindE_Inr_iff)
  from assms [OF pos this]
  show "read_buffer st' = read_buffer st \<and> read_current st < read_current st' \<and> read_current st' \<le> read_end st" .
qed

lemma ReadLEB128_advances: "advances (ReadLEB128 :: 'a::len word reader)" "advances (ReadSLEB128 :: 'b::len word reader)"
proof -
  have unsigned: "ReadLEB128 = (\<lambda>st. bindE (LEB128_loop (0 :: 'a word) 0 st) (\<lambda>(x, st). Inr ((\<lambda>(r, s, b). r) x, st)))"
    by (rule ext) (simp add: ReadLEB128_def split_def)
  show "advances (ReadLEB128 :: 'a word reader)"
    unfolding unsigned by (rule advances_map [of "LEB128_loop 0 0", OF LEB128_loop_advances])
  have signed: "ReadSLEB128 = (\<lambda>st. bindE (LEB128_loop 0 0 st) (\<lambda>(x, st). Inr ((\<lambda>(r :: 'b word, s, b).
      r OR (if b AND 0x40 \<noteq> 0 \<and> s < LENGTH('b) then NOT (push_bit s 1 - 1) else 0)) x, st)))"
    by (rule ext) (simp add: ReadSLEB128_def split_def Let_def)
  show "advances (ReadSLEB128 :: 'b word reader)"
    unfolding signed by (rule advances_map [of "LEB128_loop 0 0", OF LEB128_loop_advances])
qed

lemma advances_same_result: "advances g \<Longrightarrow> (\<And>st. same_result (f st) (g st)) \<Longrightarrow> advances f"
  by (simp add: advances_def same_result_def)

end
