(* ===== verification/Stream_Write.thy ===== *)
theory Stream_Write
  imports Stream_Read
begin

text \<open>
  Write streams refine append-only lists of bytes.  The contract \<open>extends\<close> relates an
  operation on a stream to a function on the bytes written so far; the only error it
  admits is the lack of memory, and only when the block asked for is larger than the
  bytes written justify.  The locale \<open>stream_buffer\<close> states what \<open>EnsureSpace\<close> and the
  writers need of the virtual \<open>Realloc\<close>; the writers are verified once in it, and it is
  interpreted for \<open>MallocWriteStream\<close> and \<open>StreamingWriteStream\<close>.
\<close>

unbundle bit_operations_syntax

subsection \<open>Streams and their contents\<close>

definition stream_memory :: "WriteStream \<Rightarrow> u8 list" where
  "stream_memory st = (case write_buffer st of None \<Rightarrow> [] | Some m \<Rightarrow> m)"

definition contents :: "WriteStream \<Rightarrow> u8 list" where
  "contents st = flushed st @ take (nat (write_current st)) (stream_memory st)"

definition wf_stream :: "WriteStream \<Rightarrow> bool" where
  "wf_stream st \<longleftrightarrow>
     capacity st = int (length (stream_memory st)) \<and> 0 \<le> write_current st \<and> write_current st \<le> capacity st \<and>
     flushed_size st = int (length (flushed st)) \<and> (\<exists>e\<le>60. initial_size st = 2 ^ e)"

lemma length_contents: "wf_stream st \<Longrightarrow> int (length (contents st)) = WriteStream_Position st"
  by (auto simp: wf_stream_def contents_def WriteStream_Position_def min_def)

lemma sint_small: "uint (x :: intptr) < 2 ^ 63 \<Longrightarrow> sint x = uint x"
  by (simp add: sint_uint signed_take_bit_int_eq_self order_trans [of _ 0])

text \<open>Rounding of a size up to a power of two.\<close>

lemma sint_RoundUp:
  assumes "0 \<le> n" and "n < 2 ^ 62" and "e \<le> 60"
  shows "n \<le> sint (RoundUp (word_of_int n :: intptr) (2 ^ e))"
    and "sint (RoundUp (word_of_int n :: intptr) (2 ^ e)) < n + 2 ^ e"
    and "2 ^ e dvd sint (RoundUp (word_of_int n :: intptr) (2 ^ e))"
proof -
  let ?r = "RoundUp (word_of_int n :: intptr) (2 ^ e)"
  have p: "(2 :: int) ^ e \<le> 1152921504606846976" using power_increasing [of e 60 "2 :: int"] assms(3) by simp
  have n: "uint (word_of_int n :: intptr) = n" using assms by (simp add: uint_word_of_int_eq take_bit_int_eq_self)
  have u: "uint ?r = (n + 2 ^ e - 1) div 2 ^ e * 2 ^ e"
    using RoundUp_power [of e "word_of_int n :: intptr"] n p assms by simp
  have b: "n \<le> uint ?r" "uint ?r < n + 2 ^ e" using div_mult_round [of "2 ^ e" n] u by simp_all
  then have "uint ?r < 2 ^ 63" using p assms(2) by simp
  then have "sint ?r = uint ?r" by (rule sint_small)
  then show "n \<le> sint ?r" "sint ?r < n + 2 ^ e" "2 ^ e dvd sint ?r" using b u by simp_all
qed

lemma round_up_power:
  assumes "e \<le> 60"
  shows "round_up n (2 ^ e) = Inr (sint (RoundUp (word_of_int n :: intptr) (2 ^ e)))"
  using assms IsPowerOfTwo_power [of e, where 'a = 64] by (simp add: round_up_def require_def)

definition extends ::
  "(int \<Rightarrow> WriteStream \<Rightarrow> bool) \<Rightarrow> (int \<Rightarrow> int \<Rightarrow> bool) \<Rightarrow> (u8 list \<Rightarrow> u8 list) \<Rightarrow> writer \<Rightarrow> bool" where
  "extends reserved enough g f \<longleftrightarrow>
     (\<forall>c. length c \<le> length (g c)) \<and>
     (\<forall>st. reserved 0 st \<longrightarrow> int (length (g (contents st))) < 2 ^ 60 \<longrightarrow>
        (case f st of
           Inl e \<Rightarrow> e = OutOfMemory \<and> \<not> enough (initial_size st) (int (length (g (contents st))))
         | Inr st' \<Rightarrow> reserved 0 st' \<and> contents st' = g (contents st) \<and> initial_size st' = initial_size st))"

definition appends ::
  "(int \<Rightarrow> WriteStream \<Rightarrow> bool) \<Rightarrow> (int \<Rightarrow> int \<Rightarrow> bool) \<Rightarrow> u8 list \<Rightarrow> writer \<Rightarrow> bool" where
  "appends reserved enough bs f = extends reserved enough (\<lambda>c. c @ bs) f"

lemma extendsD:
  assumes "extends reserved enough g f" and "reserved 0 st" and "int (length (g (contents st))) < 2 ^ 60"
  shows "case f st of
      Inl e \<Rightarrow> e = OutOfMemory \<and> \<not> enough (initial_size st) (int (length (g (contents st))))
    | Inr st' \<Rightarrow> reserved 0 st' \<and> contents st' = g (contents st) \<and> initial_size st' = initial_size st"
  using assms unfolding extends_def by blast

lemma extends_bindE:
  assumes f: "extends reserved enough g f" and f': "extends reserved enough g' f'"
    and mono: "\<And>i m n. enough i m \<Longrightarrow> n \<le> m \<Longrightarrow> enough i n"
  shows "extends reserved enough (\<lambda>c. g' (g c)) (\<lambda>st. bindE (f st) f')"
  unfolding extends_def
proof (intro conjI allI impI)
  have len: "length c \<le> length (g c)" "length c \<le> length (g' c)" for c
    using f f' by (auto simp: extends_def)
  show "length c \<le> length (g' (g c))" for c using len order_trans by blast
  fix st assume st: "reserved 0 st" and small: "int (length (g' (g (contents st)))) < 2 ^ 60"
  have le: "int (length (g (contents st))) \<le> int (length (g' (g (contents st))))" using len(2) by simp
  then have "int (length (g (contents st))) < 2 ^ 60" using small by linarith
  note * = extendsD [OF f st this]
  show "case bindE (f st) f' of
      Inl e \<Rightarrow> e = OutOfMemory \<and> \<not> enough (initial_size st) (int (length (g' (g (contents st)))))
    | Inr st' \<Rightarrow> reserved 0 st' \<and> contents st' = g' (g (contents st)) \<and> initial_size st' = initial_size st"
  proof (cases "f st")
    case (Inl e)
    then show ?thesis using * mono le by auto
  next
    case (Inr st')
    then have st': "reserved 0 st'" "contents st' = g (contents st)" "initial_size st' = initial_size st" using * by simp_all
    then show ?thesis
      using extendsD [OF f' st'(1)] small Inr by (simp split: sum.splits)
  qed
qed

lemma store_bytes_fields:
  assumes "store_bytes bs st = Inr st'"
  shows "write_current st' = write_current st" "capacity st' = capacity st" "flushed_size st' = flushed_size st"
  using assms by (auto simp: store_bytes_def Let_def split: option.splits if_splits)

text \<open>Zeros up to the next multiple of a power of two.\<close>

definition padding :: "nat \<Rightarrow> u8 list \<Rightarrow> u8 list" where
  "padding k c = replicate (nat ((- int (length c)) mod 2 ^ k)) 0"

lemma RoundUp_padding:
  assumes "0 \<le> n" and "n < 2 ^ 62" and "e \<le> 60"
  shows "sint (RoundUp (word_of_int n :: intptr) (2 ^ e)) - n = (- n) mod 2 ^ e"
proof -
  let ?r = "sint (RoundUp (word_of_int n :: intptr) (2 ^ e))"
  have "(?r - n) mod 2 ^ e = (- n) mod 2 ^ e"
    using sint_RoundUp(3) [OF assms] by (simp add: mod_eq_dvd_iff)
  moreover have "(?r - n) mod 2 ^ e = ?r - n"
    using sint_RoundUp(1,2) [OF assms] by (intro mod_pos_pos_trivial) simp_all
  ultimately show ?thesis by simp
qed

subsection \<open>Digits of words\<close>

lemma low_digit_signed:
  fixes v :: "'a::len word"
  assumes "7 \<le> LENGTH('a)"
  shows "(ucast (v AND 0x7F) :: u8) = word_of_int (sint v mod 128)"
proof -
  have "min (LENGTH('a) - Suc 0) n = n" if "n < 7" for n using that assms by simp
  then show ?thesis
    unfolding low_byte and_literal_masks by (intro bit_word_eqI) (auto simp: bit_simps)
qed

lemma low_digit_unsigned:
  fixes v :: "'a::len word"
  shows "(ucast (v AND 0x7F) :: u8) = word_of_int (uint v mod 128)"
  unfolding low_byte and_literal_masks
  by (intro bit_word_eqI) (auto simp: bit_simps dest: bit_imp_le_length)

lemma length_of_wide:
  fixes v :: "'a::len word"
  assumes "\<not> (- 64 \<le> sint v \<and> sint v \<le> 63)"
  shows "7 \<le> LENGTH('a)"
proof -
  have "- (2 ^ (LENGTH('a) - 1)) \<le> sint v" "sint v < 2 ^ (LENGTH('a) - 1)"
    using sint_ge [of v] sint_lt [of v] by simp_all
  from signed_range_div(1) [OF this assms] show ?thesis by simp
qed

lemma sint_negative_bit: "sint (x :: u64) < 0 \<longleftrightarrow> bit x 63"
  using bit_last_iff [of x] by simp

lemma SLEB128_remainder_signed:
  "SLEB128_remainder arithmetic (sint x < 0) x = signed_drop_bit 7 x"
proof -
  have "push_bit (64 - 7) 1 - 1 = (mask 57 :: u64)" by (simp add: mask_eq_exp_minus_1)
  then have "SLEB128_remainder arithmetic (sint x < 0) x =
      (if bit x 63 then shift_right_7 arithmetic x OR NOT (mask 57) else shift_right_7 arithmetic x)"
    by (simp only: SLEB128_remainder_def Let_def sint_negative_bit)
  also have "\<dots> = signed_drop_bit 7 x"
    by (rule bit_word_eqI) (auto simp: shift_right_7_def bit_simps dest: bit_imp_le_length split: if_splits)
  finally show ?thesis .
qed

lemma SLEB128_last_iff:
  "SLEB128_last (sint x < 0) (signed_drop_bit 7 x) (ucast (x AND 0x7F)) \<longleftrightarrow> - 64 \<le> sint x \<and> sint x \<le> 63"
proof -
  let ?k = "sint x"
  have part: "ucast (x AND 0x7F) AND (0x40 :: u8) \<noteq> 0 \<longleftrightarrow> bit ?k 6"
    using leb128_final(3) [of ?k] low_digit_signed [of x] by simp
  have shift: "sint (signed_drop_bit 7 x) = ?k div 128" by (simp add: sint_signed_drop_bit_eq drop_bit_eq_div)
  have zero: "signed_drop_bit 7 x = 0 \<longleftrightarrow> ?k div 128 = 0" and minus: "signed_drop_bit 7 x = NOT 0 \<longleftrightarrow> ?k div 128 = - 1"
    unfolding shift [symmetric] by (auto intro!: signed_word_eqI)
  have odd: "bit ?k 6 \<longleftrightarrow> odd (?k div 64)" by (simp add: bit_iff_odd)
  show ?thesis
  proof (cases "?k < 0")
    case True
    have "?k div 64 = - 1 \<and> ?k div 128 = - 1" if "- 64 \<le> ?k" using that True by auto
    moreover have "?k div 64 = - 2" if "?k < - 64" "?k div 128 = - 1" using that by linarith
    ultimately have "?k div 128 = - 1 \<and> odd (?k div 64) \<longleftrightarrow> - 64 \<le> ?k"
      by (cases "- 64 \<le> ?k") auto
    then show ?thesis using True part minus odd by (auto simp: SLEB128_last_def)
  next
    case False
    have "?k div 64 = 0 \<and> ?k div 128 = 0" if "?k \<le> 63" using that False by auto
    moreover have "?k div 64 = 1" if "63 < ?k" "?k div 128 = 0" using that by linarith
    ultimately have "?k div 128 = 0 \<and> even (?k div 64) \<longleftrightarrow> ?k \<le> 63"
      by (cases "?k \<le> 63") auto
    then show ?thesis using False part zero odd by (auto simp: SLEB128_last_def)
  qed
qed

subsection \<open>Sequences of write operations\<close>

text \<open>The calls a client makes, what they do to a stream, and what to the list of bytes.\<close>

datatype write_op =
    OpByte u8 | OpBytes "u8 list" | OpFixed u64 | OpSigned u64 | OpUnsigned bool u64
  | OpLEB128 u64 | OpSLEB128 bool u64 | OpHalves u64 | OpAlign nat

fun run_op :: "reallocator \<Rightarrow> write_op \<Rightarrow> writer" where
  "run_op Realloc (OpByte b) = WriteByte Realloc b"
| "run_op Realloc (OpBytes bs) = WriteBytes Realloc bs"
| "run_op Realloc (OpFixed x) = WriteFixed Realloc x"
| "run_op Realloc (OpSigned x) = Write Realloc x"
| "run_op Realloc (OpUnsigned is_signed x) = WriteUnsigned is_signed Realloc x"
| "run_op Realloc (OpLEB128 x) = WriteLEB128 Realloc x"
| "run_op Realloc (OpSLEB128 arithmetic x) = WriteSLEB128 arithmetic Realloc x"
| "run_op Realloc (OpHalves x) = WriteWordWith32BitWrites Realloc x"
| "run_op Realloc (OpAlign k) = WriteStream_Align Realloc (2 ^ k)"

fun spec_op :: "write_op \<Rightarrow> u8 list \<Rightarrow> u8 list" where
  "spec_op (OpByte b) c = c @ [b]"
| "spec_op (OpBytes bs) c = c @ bs"
| "spec_op (OpFixed x) c = c @ host_bytes x"
| "spec_op (OpSigned x) c = c @ varint (sint x)"
| "spec_op (OpUnsigned _ x) c = c @ unsigned_varint (uint x)"
| "spec_op (OpLEB128 x) c = c @ leb128 (uint x)"
| "spec_op (OpSLEB128 _ x) c = c @ sleb128 (sint x)"
| "spec_op (OpHalves x) c = c @ varint (sint (ucast x :: u32)) @ varint (sint (ucast (drop_bit 32 x) :: u32))"
| "spec_op (OpAlign k) c = c @ padding k c"

fun op_ok :: "write_op \<Rightarrow> bool" where
  "op_ok (OpUnsigned is_signed x) = (is_signed \<longrightarrow> 0 \<le> sint x)"
| "op_ok (OpAlign k) = (k \<le> 60)"
| "op_ok _ = True"

lemma appends_spec:
  "appends reserved enough bs f \<Longrightarrow> (\<And>c. spec_op op c = c @ bs) \<Longrightarrow> extends reserved enough (spec_op op) f"
  unfolding appends_def by (metis ext)

subsection \<open>The interface of the virtual reallocation\<close>

locale stream_buffer =
  fixes Realloc :: reallocator
    and reserved :: "int \<Rightarrow> WriteStream \<Rightarrow> bool"
    and enough :: "int \<Rightarrow> int \<Rightarrow> bool"
  assumes reserved_wf: "reserved n st \<Longrightarrow> wf_stream st \<and> n \<le> Remaining st"
    and reserved_more: "reserved 0 st \<Longrightarrow> 0 \<le> n \<Longrightarrow> n \<le> Remaining st \<Longrightarrow> reserved n st"
    and reserved_stored: "reserved n st \<Longrightarrow> 0 \<le> n \<Longrightarrow> write_buffer st = Some m \<Longrightarrow> length m' = length m \<Longrightarrow>
      reserved 0 (st\<lparr>write_buffer := Some m', write_current := write_current st + n\<rparr>)"
    and enough_mono: "enough i p \<Longrightarrow> q \<le> p \<Longrightarrow> enough i q"
    and Realloc_reserves: "reserved 0 st \<Longrightarrow> 0 < n \<Longrightarrow> capacity st + n \<le> new_size \<Longrightarrow> new_size < 2 ^ 62 \<Longrightarrow>
      new_size \<le> 2 * (write_current st + n) + initial_size st \<Longrightarrow> st' = Realloc new_size st \<Longrightarrow>
      if write_buffer st' = None then \<not> enough (initial_size st) (WriteStream_Position st + n)
      else reserved n st' \<and> contents st' = contents st \<and> initial_size st' = initial_size st"
begin

lemma EnsureSpace_reserves:
  assumes st: "reserved 0 st" and n: "0 < n" "WriteStream_Position st + n < 2 ^ 60"
  shows "case EnsureSpace Realloc n st of
      Inl e \<Rightarrow> e = OutOfMemory \<and> \<not> enough (initial_size st) (WriteStream_Position st + n)
    | Inr st' \<Rightarrow> reserved n st' \<and> contents st' = contents st \<and> initial_size st' = initial_size st"
proof (cases "n \<le> Remaining st")
  case True
  then show ?thesis using st n(1) reserved_more [of st n] by (simp add: EnsureSpace_def)
next
  case False
  have wf: "wf_stream st" using reserved_wf [OF st] by simp
  then obtain e where e: "e \<le> 60" "initial_size st = 2 ^ e" and "0 \<le> write_current st" "0 \<le> capacity st"
    "write_current st \<le> capacity st" "0 \<le> flushed_size st" by (auto simp: wf_stream_def)
  have p: "(2 :: int) ^ e \<le> 1152921504606846976" using power_increasing [of e 60 "2 :: int"] e(1) by simp
  have small: "write_current st + n < 2 ^ 60" "n < 2 ^ 60"
    using n(2) \<open>0 \<le> flushed_size st\<close> \<open>0 \<le> write_current st\<close> by (simp_all add: WriteStream_Position_def)
  define inc where "inc = (if n > capacity st then sint (RoundUp (word_of_int n :: intptr) (2 ^ e)) else capacity st)"
  have inc: "n \<le> inc" "capacity st + inc \<le> 2 * (write_current st + n) + initial_size st"
    using sint_RoundUp [of n e] n(1) small(2) e False \<open>0 \<le> write_current st\<close> \<open>0 \<le> capacity st\<close>
    by (auto simp: inc_def Remaining_def)
  have bound: "capacity st + inc < 2 ^ 62" using inc(2) small(1) p e(2) by simp
  let ?st = "Realloc (capacity st + inc) st"
  have "(if n > capacity st then round_up n (initial_size st) else Inr (capacity st)) = Inr inc"
    by (simp add: inc_def e(2) round_up_power [OF e(1)])
  then have run: "EnsureSpace Realloc n st =
      (if write_buffer ?st = None then Inl OutOfMemory else require (Remaining ?st \<ge> n) (Inr ?st))"
    using False inc(1) n(1) by (simp add: EnsureSpace_def require_def Let_def)
  have "capacity st + n \<le> capacity st + inc" using inc(1) by simp
  from Realloc_reserves [OF st n(1) this bound inc(2) refl]
  show ?thesis using reserved_wf [of n ?st] by (simp add: run require_def split: if_splits)
qed

lemma store_reserved:
  assumes "reserved (int (length bs)) st" and "bs \<noteq> []"
  shows "\<exists>st'. store_bytes bs st = Inr st' \<and> reserved 0 (move_current (int (length bs)) st') \<and>
    contents (move_current (int (length bs)) st') = contents st @ bs \<and> initial_size st' = initial_size st"
proof -
  have wf: "wf_stream st" "int (length bs) \<le> Remaining st" using reserved_wf [OF assms(1)] by simp_all
  moreover have "0 < int (length bs)" using assms(2) by simp
  ultimately obtain m where m: "write_buffer st = Some m" "capacity st = int (length m)" "0 \<le> write_current st"
    by (cases "write_buffer st") (auto simp: wf_stream_def stream_memory_def Remaining_def)
  let ?p = "nat (write_current st)"
  let ?m = "take ?p m @ bs @ drop (?p + length bs) m"
  have fits: "?p + length bs \<le> length m" using wf(2) m by (simp add: Remaining_def)
  then have len: "length ?m = length m" by simp
  from reserved_stored [OF assms(1) _ m(1) this]
  have "reserved 0 (st\<lparr>write_buffer := Some ?m, write_current := write_current st + int (length bs)\<rparr>)" by simp
  moreover have "nat (write_current st + int (length bs)) = ?p + length bs" using m(3) by simp
  ultimately show ?thesis
    using m fits by (simp add: store_bytes_def move_current_def contents_def stream_memory_def Let_def)
qed

text \<open>Space for a block of bytes, then the block: what every writer does.\<close>

lemma extends_block:
  assumes "\<And>st. reserved 0 st \<Longrightarrow> int (length (contents st @ g (contents st))) < 2 ^ 60 \<Longrightarrow> g (contents st) \<noteq> [] \<Longrightarrow>
      f st = bindE (EnsureSpace Realloc (int (length (g (contents st)))) st) (\<lambda>st'.
               bindE (store_bytes (g (contents st)) st') (\<lambda>st''. Inr (move_current (int (length (g (contents st)))) st'')))"
    and "\<And>st. reserved 0 st \<Longrightarrow> int (length (contents st)) < 2 ^ 60 \<Longrightarrow> g (contents st) = [] \<Longrightarrow> f st = Inr st"
  shows "extends reserved enough (\<lambda>c. c @ g c) f"
  unfolding extends_def
proof (intro conjI allI impI)
  fix st assume st: "reserved 0 st" and small: "int (length (contents st @ g (contents st))) < 2 ^ 60"
  let ?bs = "g (contents st)" and ?n = "int (length (g (contents st)))"
  have pos: "int (length (contents st)) = WriteStream_Position st"
    using reserved_wf [OF st] by (simp add: length_contents)
  show "case f st of Inl e \<Rightarrow> e = OutOfMemory \<and> \<not> enough (initial_size st) (int (length (contents st @ ?bs)))
    | Inr st' \<Rightarrow> reserved 0 st' \<and> contents st' = contents st @ ?bs \<and> initial_size st' = initial_size st"
  proof (cases "?bs = []")
    case True
    then show ?thesis using assms(2) [OF st _ True] st small by simp
  next
    case False
    then have "0 < ?n" and "WriteStream_Position st + ?n < 2 ^ 60" using small pos by simp_all
    note space = EnsureSpace_reserves [OF st this]
    show ?thesis
    proof (cases "EnsureSpace Realloc ?n st")
      case (Inl e)
      then show ?thesis using space assms(1) [OF st small False] pos by simp
    next
      case (Inr st')
      then have st': "reserved ?n st'" "contents st' = contents st" "initial_size st' = initial_size st"
        using space by simp_all
      from store_reserved [OF st'(1) False] obtain st'' where "store_bytes ?bs st' = Inr st''"
        "reserved 0 (move_current ?n st'')" "contents (move_current ?n st'') = contents st' @ ?bs"
        "initial_size st'' = initial_size st'" by blast
      then show ?thesis
        using st' Inr assms(1) [OF st small False] by (simp add: move_current_def)
    qed
  qed
qed simp

lemma WriteByte_appends: "appends reserved enough [b] (WriteByte Realloc b)"
  unfolding appends_def by (rule extends_block) (simp_all add: WriteByte_def)

lemma WriteBytes_appends: "appends reserved enough bs (WriteBytes Realloc bs)"
  unfolding appends_def by (rule extends_block) (simp_all add: WriteBytes_def Let_def)

lemma appends_bindE:
  assumes "appends reserved enough bs f" and "appends reserved enough cs g"
  shows "appends reserved enough (bs @ cs) (\<lambda>st. bindE (f st) g)"
  using extends_bindE [OF assms [unfolded appends_def] enough_mono] by (simp add: appends_def)

lemma appends_WriteByte_Cons:
  assumes "appends reserved enough bs f"
  shows "appends reserved enough (b # bs) (\<lambda>st. bindE (WriteByte Realloc b st) f)"
  using appends_bindE [OF WriteByte_appends assms] by simp

lemma Write_appends: "appends reserved enough (varint (sint v)) (Write Realloc v)"
proof (induction "nat \<bar>sint v\<bar>" arbitrary: v rule: less_induct)
  case less
  show ?case
  proof (cases "- 64 \<le> sint v \<and> sint v \<le> 63")
    case True
    then have "varint (sint v) = [word_of_int (sint v) + kEndByteMarker]"
      by (simp add: varint_def signed_format_final kEndByteMarker_def)
    moreover have "Write Realloc v = WriteByte Realloc (word_of_int (sint v) + kEndByteMarker)"
      using True by (intro ext, subst Write.simps) simp
    ultimately show ?thesis by (simp add: WriteByte_appends)
  next
    case False
    have shift: "sint (signed_drop_bit 7 v) = sint v div 128"
      by (simp add: sint_signed_drop_bit_eq drop_bit_eq_div)
    have "(ucast (v AND 0x7F) :: u8) = word_of_int (sint v mod 128)"
      by (rule low_digit_signed [OF length_of_wide [OF False]])
    then have fmt: "varint (sint v) = ucast (v AND 0x7F) # varint (sint (signed_drop_bit 7 v))"
      using False by (simp add: varint_def signed_format_digit shift)
    have "Write Realloc v = (\<lambda>st. bindE (WriteByte Realloc (ucast (v AND 0x7F)) st) (Write Realloc (signed_drop_bit 7 v)))"
      using False by (intro ext, subst Write.simps) auto
    moreover have "nat \<bar>sint (signed_drop_bit 7 v)\<bar> < nat \<bar>sint v\<bar>" using False shift by auto
    ultimately show ?thesis using appends_WriteByte_Cons [OF less.hyps] fmt by simp
  qed
qed

lemma WriteUnsigned_loop_appends: "appends reserved enough (unsigned_varint (uint v)) (WriteUnsigned_loop Realloc v)"
proof (induction "unat v" arbitrary: v rule: less_induct)
  case less
  show ?case
  proof (cases "uint v \<le> 127")
    case True
    then have "unsigned_varint (uint v) = [ucast v + kEndUnsignedByteMarker]"
      by (simp add: unsigned_varint_def unsigned_format_final kEndUnsignedByteMarker_def)
    moreover have "WriteUnsigned_loop Realloc v = WriteByte Realloc (ucast v + kEndUnsignedByteMarker)"
      using True by (intro ext, subst WriteUnsigned_loop.simps) simp
    ultimately show ?thesis by (simp add: WriteByte_appends)
  next
    case False
    then have fmt: "unsigned_varint (uint v) = ucast (v AND 0x7F) # unsigned_varint (uint (drop_bit 7 v))"
      by (simp only: unsigned_varint_def unsigned_format_digit uint_drop_bit_7 low_digit_unsigned)
    have run: "WriteUnsigned_loop Realloc v =
        (\<lambda>st. bindE (WriteByte Realloc (ucast (v AND 0x7F)) st) (WriteUnsigned_loop Realloc (drop_bit 7 v)))"
      using False by (intro ext, subst WriteUnsigned_loop.simps) (simp only: not_le if_True)
    have "v \<noteq> 0" using False by auto
    from appends_WriteByte_Cons [OF less.hyps [OF drop_bit_7_less [OF this]]] show ?thesis unfolding fmt run .
  qed
qed

lemma WriteUnsigned_appends:
  assumes "is_signed \<Longrightarrow> 0 \<le> sint v"
  shows "appends reserved enough (unsigned_varint (uint v)) (WriteUnsigned is_signed Realloc v)"
proof -
  have "WriteUnsigned is_signed Realloc v = WriteUnsigned_loop Realloc v"
    using assms by (intro ext) (simp add: WriteUnsigned_def require_def)
  then show ?thesis by (simp add: WriteUnsigned_loop_appends)
qed

lemma WriteLEB128_appends: "appends reserved enough (leb128 (uint v)) (WriteLEB128 Realloc v)"
proof (induction "unat v" arbitrary: v rule: less_induct)
  case less
  have "drop_bit 7 v = 0 \<longleftrightarrow> uint v div 128 = 0" unfolding uint_drop_bit_7 [symmetric] by (metis uint_0_iff)
  then have zero: "drop_bit 7 v = 0 \<longleftrightarrow> uint v \<le> 127" using uint_nonnegative [of v] by auto
  show ?case
  proof (cases "uint v \<le> 127")
    case True
    then have "leb128 (uint v) = [ucast (v AND 0x7F)]"
      by (simp add: leb128_def unsigned_format_final low_digit_unsigned)
    moreover have "WriteLEB128 Realloc v = WriteByte Realloc (ucast (v AND 0x7F))"
      using True zero by (intro ext, subst WriteLEB128.simps) (simp only: Let_def simp_thms if_False)
    ultimately show ?thesis by (simp add: WriteByte_appends)
  next
    case False
    then have fmt: "leb128 (uint v) = (ucast (v AND 0x7F) OR 0x80) # leb128 (uint (drop_bit 7 v))"
      by (simp only: leb128_def unsigned_format_digit uint_drop_bit_7 low_digit_unsigned leb128_marked not_le)
    have run: "WriteLEB128 Realloc v =
        (\<lambda>st. bindE (WriteByte Realloc (ucast (v AND 0x7F) OR 0x80) st) (WriteLEB128 Realloc (drop_bit 7 v)))"
      using False zero by (intro ext, subst WriteLEB128.simps) (simp only: Let_def simp_thms if_True)
    have "v \<noteq> 0" using False by auto
    from appends_WriteByte_Cons [OF less.hyps [OF drop_bit_7_less [OF this]]] show ?thesis unfolding fmt run .
  qed
qed

lemma WriteSLEB128_loop_appends:
  "appends reserved enough (sleb128 (sint x)) (WriteSLEB128_loop arithmetic (sint x < 0) Realloc x)"
proof (induction "nat \<bar>sint x\<bar>" arbitrary: x rule: less_induct)
  case less
  let ?r = "signed_drop_bit 7 x"
  have shift: "sint ?r = sint x div 128" by (simp add: sint_signed_drop_bit_eq drop_bit_eq_div)
  have sign: "(sint ?r < 0) = (sint x < 0)" unfolding shift by linarith
  note low = low_digit_signed [of x]
  note run = WriteSLEB128_loop.simps [of arithmetic "sint x < 0" Realloc x, unfolded Let_def SLEB128_remainder_signed
      SLEB128_last_iff sign]
  show ?case
  proof (cases "- 64 \<le> sint x \<and> sint x \<le> 63")
    case True
    then have "sleb128 (sint x) = [ucast (x AND 0x7F)]" using low by (simp add: sleb128_def signed_format_final)
    moreover have "WriteSLEB128_loop arithmetic (sint x < 0) Realloc x = WriteByte Realloc (ucast (x AND 0x7F))"
      using True by (intro ext, subst run) simp
    ultimately show ?thesis by (simp add: WriteByte_appends)
  next
    case False
    then have fmt: "sleb128 (sint x) = (ucast (x AND 0x7F) OR 0x80) # sleb128 (sint ?r)"
      using low by (simp add: sleb128_def signed_format_digit leb128_marked [simplified] shift)
    have run': "WriteSLEB128_loop arithmetic (sint x < 0) Realloc x =
        (\<lambda>st. bindE (WriteByte Realloc (ucast (x AND 0x7F) OR 0x80) st) (WriteSLEB128_loop arithmetic (sint ?r < 0) Realloc ?r))"
      using False by (intro ext, subst run) (simp only: sign simp_thms if_False)
    have "nat \<bar>sint ?r\<bar> < nat \<bar>sint x\<bar>" using False shift by auto
    from appends_WriteByte_Cons [OF less.hyps [OF this]] show ?thesis unfolding fmt run' .
  qed
qed

lemma WriteSLEB128_appends: "appends reserved enough (sleb128 (sint x)) (WriteSLEB128 arithmetic Realloc x)"
  using WriteSLEB128_loop_appends by (simp add: WriteSLEB128_def)

lemma WriteFixed_appends: "appends reserved enough (host_bytes x) (WriteFixed Realloc x)"
  unfolding WriteFixed_def by (rule WriteBytes_appends)

lemma WriteWordWith32BitWrites_appends:
  "appends reserved enough (varint (sint (ucast x :: u32)) @ varint (sint (ucast (drop_bit 32 x) :: u32)))
     (WriteWordWith32BitWrites Realloc x)"
proof -
  have "(0xFFFFFFFF :: u32) = - 1" by simp
  then have "y AND 0xFFFFFFFF = y" for y :: u32 by (metis and.right_neutral)
  moreover have "bindE r Inr = r" for r :: "stream_error + WriteStream" by (cases r) simp_all
  moreover have "WriteWordWith32BitWrites_loop Realloc j 0 x = Inr" for j by (rule ext) simp
  ultimately have "WriteWordWith32BitWrites_loop Realloc (Suc 0) (Suc 0) x = Write Realloc (ucast (drop_bit 32 x) :: u32)"
    by (intro ext) simp
  with \<open>\<And>y. y AND 0xFFFFFFFF = y\<close> have "WriteWordWith32BitWrites Realloc x =
      (\<lambda>st. bindE (Write Realloc (ucast x :: u32) st) (Write Realloc (ucast (drop_bit 32 x) :: u32)))"
    by (intro ext) (simp add: WriteWordWith32BitWrites_def numeral_2_eq_2)
  then show ?thesis using appends_bindE [OF Write_appends Write_appends] by simp
qed

lemma Align_extends:
  assumes "k \<le> 60"
  shows "extends reserved enough (\<lambda>c. c @ padding k c) (WriteStream_Align Realloc (2 ^ k))"
proof (rule extends_block)
  fix st assume st: "reserved 0 st"
  have wf: "wf_stream st" using reserved_wf [OF st] by simp
  then have pos: "int (length (contents st)) = WriteStream_Position st" by (rule length_contents)
  let ?p = "WriteStream_Position st" and ?bs = "padding k (contents st)"
  let ?r = "sint (RoundUp (word_of_int ?p :: intptr) (2 ^ k))"
  have n: "?r - ?p = int (length ?bs)" if "?p < 2 ^ 60"
  proof -
    have "?r - ?p = (- ?p) mod 2 ^ k" using that pos assms by (intro RoundUp_padding) simp_all
    then show ?thesis by (simp add: padding_def pos)
  qed
  have run: "WriteStream_Align Realloc (2 ^ k) st =
      (if ?r - ?p \<noteq> 0 then bindE (EnsureSpace Realloc (?r - ?p) st) (\<lambda>st'.
         bindE (store_bytes (replicate (nat (?r - ?p)) 0) st') (WriteStream_SetPosition Realloc ?r)) else Inr st)"
    by (simp add: WriteStream_Align_def round_up_power [OF assms] Let_def)
  show "WriteStream_Align Realloc (2 ^ k) st = Inr st" if "int (length (contents st)) < 2 ^ 60" "?bs = []"
    using n that by (simp add: run pos)
  assume small: "int (length (contents st @ ?bs)) < 2 ^ 60" and ne: "?bs \<noteq> []"
  have p: "?p < 2 ^ 60" "?p + int (length ?bs) < 2 ^ 60" using small pos by simp_all
  have "bindE (store_bytes ?bs st') (WriteStream_SetPosition Realloc ?r) =
      bindE (store_bytes ?bs st') (\<lambda>st''. Inr (move_current (int (length ?bs)) st''))"
    if "EnsureSpace Realloc (int (length ?bs)) st = Inr st'" for st'
  proof (cases "store_bytes ?bs st'")
    case (Inr st'')
    have "reserved (int (length ?bs)) st'" "contents st' = contents st"
      using EnsureSpace_reserves [OF st _ p(2)] ne that by simp_all
    then have "wf_stream st'" "int (length ?bs) \<le> Remaining st'" "WriteStream_Position st' = ?p"
      using reserved_wf [of "int (length ?bs)" st'] length_contents [of st'] pos by simp_all
    then show ?thesis
      using Inr n [OF p(1)] store_bytes_fields [OF Inr]
      by (simp add: WriteStream_SetPosition_def BaseWriteStream_SetPosition_def EnsureSpace_def require_def
          Remaining_def WriteStream_Position_def move_current_def wf_stream_def algebra_simps)
  qed simp
  moreover have "replicate (nat (?r - ?p)) 0 = ?bs" unfolding n [OF p(1)] by (simp add: padding_def)
  ultimately show "WriteStream_Align Realloc (2 ^ k) st =
      bindE (EnsureSpace Realloc (int (length ?bs)) st) (\<lambda>st'.
        bindE (store_bytes ?bs st') (\<lambda>st''. Inr (move_current (int (length ?bs)) st'')))"
    using ne n [OF p(1)] unfolding run by (simp cong: bindE_cong)
qed

lemma run_op_extends:
  assumes "op_ok op"
  shows "extends reserved enough (spec_op op) (run_op Realloc op)"
proof -
  note appended = appends_spec [of reserved enough]
  show ?thesis
  proof (cases op)
    case (OpAlign k)
    moreover have "spec_op (OpAlign k) = (\<lambda>c. c @ padding k c)" by (rule ext) simp
    ultimately show ?thesis using Align_extends [of k] assms by simp
  qed (use assms in \<open>auto intro: appended [OF WriteByte_appends] appended [OF WriteBytes_appends]
      appended [OF WriteFixed_appends] appended [OF Write_appends] appended [OF WriteUnsigned_appends]
      appended [OF WriteLEB128_appends] appended [OF WriteSLEB128_appends]
      appended [OF WriteWordWith32BitWrites_appends]\<close>)
qed

lemma run_ops_extends:
  assumes "list_all op_ok ops"
  shows "extends reserved enough (fold spec_op ops) (seqE (map (run_op Realloc) ops))"
  using assms
proof (induction ops)
  case Nil
  then show ?case by (simp add: extends_def)
next
  case (Cons op ops)
  have "seqE (map (run_op Realloc) (op # ops)) = (\<lambda>st. bindE (run_op Realloc op st) (seqE (map (run_op Realloc) ops)))"
    by (rule ext) simp
  moreover have "fold spec_op (op # ops) = (\<lambda>c. fold spec_op ops (spec_op op c))" by (rule ext) simp
  ultimately show ?case
    using extends_bindE [OF run_op_extends Cons.IH enough_mono] Cons.prems by simp
qed

end

subsection \<open>The two kinds of streams\<close>

definition malloc_reserved :: "int \<Rightarrow> WriteStream \<Rightarrow> bool" where
  "malloc_reserved n st \<longleftrightarrow>
     wf_stream st \<and> flushed st = [] \<and> n \<le> Remaining st \<and> capacity st \<le> 2 * (write_current st + n) + initial_size st"

definition malloc_enough :: "heap \<Rightarrow> int \<Rightarrow> int \<Rightarrow> bool" where
  "malloc_enough h initial n \<longleftrightarrow> 2 * n + initial \<le> int (heap_limit h)"

definition streaming_reserved :: "int \<Rightarrow> WriteStream \<Rightarrow> bool" where
  "streaming_reserved n st \<longleftrightarrow>
     wf_stream st \<and> n \<le> Remaining st \<and>
     capacity st \<le> 2 * (WriteStream_Position st + n) + initial_size st + 65536"

definition streaming_enough :: "heap \<Rightarrow> int \<Rightarrow> int \<Rightarrow> bool" where
  "streaming_enough h initial n \<longleftrightarrow> 2 * n + initial + 65536 \<le> int (heap_limit h)"

lemma realloc_granted: "n \<le> heap_limit h \<Longrightarrow> \<exists>m. realloc h old n = Some m"
  by (simp add: realloc_def Let_def)

lemma length_realloc: "realloc h old n = Some m \<Longrightarrow> length (case old of None \<Rightarrow> [] | Some m \<Rightarrow> m) \<le> n \<Longrightarrow> length m = n"
  by (auto simp: realloc_def Let_def split: if_splits)

lemma take_realloc:
  "realloc h old n = Some m \<Longrightarrow> p \<le> length (case old of None \<Rightarrow> [] | Some m \<Rightarrow> m) \<Longrightarrow>
   length (case old of None \<Rightarrow> [] | Some m \<Rightarrow> m) \<le> n \<Longrightarrow>
   take p m = take p (case old of None \<Rightarrow> [] | Some m \<Rightarrow> m)"
  by (auto simp: realloc_def Let_def split: if_splits)

interpretation malloc_stream: stream_buffer "MallocWriteStream_Realloc h" malloc_reserved "malloc_enough h" for h
proof unfold_locales
  fix n st new_size st'
  assume st: "malloc_reserved 0 st" and n: "0 < n" "capacity st + n \<le> new_size"
    "new_size \<le> 2 * (write_current st + n) + initial_size st" and st': "st' = MallocWriteStream_Realloc h new_size st"
  have old: "length (stream_memory st) \<le> nat new_size" "nat (write_current st) \<le> length (stream_memory st)"
    "flushed st = []" "flushed_size st = 0" "0 \<le> write_current st" "0 \<le> new_size"
    using st n by (auto simp: malloc_reserved_def wf_stream_def)
  show "if write_buffer st' = None then \<not> malloc_enough h (initial_size st) (WriteStream_Position st + n)
      else malloc_reserved n st' \<and> contents st' = contents st \<and> initial_size st' = initial_size st"
  proof (cases "realloc h (write_buffer st) (nat new_size)")
    case None
    then have "int (heap_limit h) < new_size" by (auto simp: realloc_def Let_def split: if_splits)
    then show ?thesis
      using None st' n old by (simp add: MallocWriteStream_Realloc_def malloc_enough_def WriteStream_Position_def)
  next
    case (Some m)
    note len = length_realloc [OF Some, folded stream_memory_def, OF old(1)]
    note tk = take_realloc [OF Some, folded stream_memory_def, OF old(2,1)]
    show ?thesis
      using Some st' st n old len tk
      by (auto simp: MallocWriteStream_Realloc_def malloc_reserved_def wf_stream_def stream_memory_def contents_def
          Remaining_def)
  qed
qed (auto simp: malloc_reserved_def malloc_enough_def wf_stream_def stream_memory_def Remaining_def)

lemma contents_Flush: "contents (Flush st) = contents st"
  by (simp add: Flush_def contents_def stream_memory_def Let_def split: option.splits)

lemma streaming_capacity:
  assumes "0 \<le> new_size" and "new_size < 2 ^ 62"
  shows "new_size \<le> sint (RoundUp (word_of_int new_size :: intptr) (64 * 1024))"
    and "sint (RoundUp (word_of_int new_size :: intptr) (64 * 1024)) < new_size + 65536"
  using sint_RoundUp(1,2) [of new_size 16] assms by simp_all

interpretation streaming_stream:
  stream_buffer "StreamingWriteStream_Realloc h" streaming_reserved "streaming_enough h" for h
proof unfold_locales
  fix n st new_size st'
  assume st: "streaming_reserved 0 st" and n: "0 < n" "capacity st + n \<le> new_size" "new_size < 2 ^ 62"
    "new_size \<le> 2 * (write_current st + n) + initial_size st" and st': "st' = StreamingWriteStream_Realloc h new_size st"
  let ?c = "sint (RoundUp (word_of_int new_size :: intptr) (64 * 1024))"
  have old: "length (stream_memory (Flush st)) \<le> nat ?c" "0 \<le> ?c" "n \<le> ?c" "capacity (Flush st) < new_size"
    using streaming_capacity [of new_size] st n
    by (auto simp: streaming_reserved_def wf_stream_def Flush_def stream_memory_def Let_def)
  have size: "?c < 2 * (WriteStream_Position st + n) + initial_size st + 65536"
    using streaming_capacity(2) [of new_size] st n
    by (simp add: streaming_reserved_def wf_stream_def WriteStream_Position_def)
  show "if write_buffer st' = None then \<not> streaming_enough h (initial_size st) (WriteStream_Position st + n)
      else streaming_reserved n st' \<and> contents st' = contents st \<and> initial_size st' = initial_size st"
  proof (cases "realloc h (write_buffer (Flush st)) (nat ?c)")
    case None
    then have "int (heap_limit h) < ?c" by (auto simp: realloc_def Let_def split: if_splits)
    then show ?thesis
      using None st' old size by (simp add: StreamingWriteStream_Realloc_def Let_def streaming_enough_def)
  next
    case (Some m)
    note len = length_realloc [OF Some, folded stream_memory_def, OF old(1)]
    have "contents st' = contents (Flush st)"
      using Some st' old(4) by (simp add: StreamingWriteStream_Realloc_def Let_def contents_def stream_memory_def Flush_def)
    moreover have "streaming_reserved n st'" and "initial_size st' = initial_size st"
      using Some st' st old len size
      by (auto simp: StreamingWriteStream_Realloc_def Let_def streaming_reserved_def wf_stream_def Remaining_def
          WriteStream_Position_def stream_memory_def Flush_def split: option.splits)
    moreover have "write_buffer st' \<noteq> None"
      using Some st' old(4) by (simp add: StreamingWriteStream_Realloc_def Let_def)
    ultimately show ?thesis by (auto simp: contents_Flush)
  qed
qed (auto simp: streaming_reserved_def streaming_enough_def wf_stream_def stream_memory_def Remaining_def
    WriteStream_Position_def)

lemma WriteStream_init_reserved:
  assumes "1 \<le> uint n" and "uint n \<le> 2 ^ 60"
  shows "malloc_reserved 0 (WriteStream_init n)" and "streaming_reserved 0 (WriteStream_init n)"
    and "contents (WriteStream_init n) = []" and "initial_size (WriteStream_init n) < 2 * uint n"
proof -
  obtain e where e: "e \<le> 63" "RoundUpToPowerOfTwo n = 2 ^ e" "2 ^ e < 2 * uint n"
    using RoundUpToPowerOfTwo_power [of n] assms by auto
  then have "(2 :: int) ^ e < 2 ^ 61" using assms(2) by simp
  from power_less_imp_less_exp [OF _ this] have "e \<le> 60" by simp
  moreover have "(2 :: int) ^ e < 2 ^ 64" using e(1) by (intro power_strict_increasing) simp_all
  then have "uint (word_of_int (2 ^ e) :: u64) = 2 ^ e"
    unfolding uint_word_of_int_eq by (intro take_bit_int_eq_self) simp_all
  ultimately have "initial_size (WriteStream_init n) = 2 ^ e" "e \<le> 60" by (simp_all add: WriteStream_init_def e(2))
  then show "malloc_reserved 0 (WriteStream_init n)" "streaming_reserved 0 (WriteStream_init n)"
    "contents (WriteStream_init n) = []" "initial_size (WriteStream_init n) < 2 * uint n"
    using e(3) by (auto simp: malloc_reserved_def streaming_reserved_def wf_stream_def stream_memory_def contents_def
        Remaining_def WriteStream_Position_def WriteStream_init_def)
qed

text \<open>
  \<open>EnsureSpace\<close> always asks for more than the capacity, so a streaming stream never
  keeps its buffer: it flushes it and also doubles it.
\<close>

lemma streaming_EnsureSpace_grows:
  assumes "wf_stream st" and "Remaining st < n" and "0 < n" and "n \<le> capacity st" and "capacity st < 2 ^ 60"
    and "EnsureSpace (StreamingWriteStream_Realloc h) n st = Inr st'"
  shows "2 * capacity st \<le> capacity st'" and "flushed_size st' = WriteStream_Position st" and "write_current st' = 0"
proof -
  let ?c = "sint (RoundUp (word_of_int (2 * capacity st) :: intptr) (64 * 1024))"
  have "0 \<le> 2 * capacity st" "2 * capacity st < 2 ^ 62" using assms(1,5) by (auto simp: wf_stream_def)
  note c = streaming_capacity(1) [OF this]
  have "st' = StreamingWriteStream_Realloc h (2 * capacity st) st" "write_buffer st' \<noteq> None"
    using assms(2-4,6) by (auto simp: EnsureSpace_def require_def Let_def split: if_splits)
  then have "capacity st' = ?c" "flushed_size st' = flushed_size st + write_current st" "write_current st' = 0"
    using assms(3,4) by (auto simp: StreamingWriteStream_Realloc_def Flush_def Let_def)
  then show "2 * capacity st \<le> capacity st'" "flushed_size st' = WriteStream_Position st" "write_current st' = 0"
    using c by (simp_all add: WriteStream_Position_def)
qed

lemma streaming_WriteByte_flushes:
  assumes "Remaining st = 0" and "0 < capacity st" and "capacity st < 2 ^ 60"
    and "WriteByte (StreamingWriteStream_Realloc h) b st = Inr st'"
  shows "flushed st' = contents st"
proof -
  obtain st1 st2 where e: "EnsureSpace (StreamingWriteStream_Realloc h) 1 st = Inr st1" "store_bytes [b] st1 = Inr st2"
    "st' = move_current 1 st2" using assms(4) by (auto simp: WriteByte_def bindE_Inr_iff)
  have "st1 = StreamingWriteStream_Realloc h (2 * capacity st) st"
    using e(1) assms(1,2) by (auto simp: EnsureSpace_def require_def Let_def split: if_splits)
  then have "flushed st1 = contents st"
    using assms(2) by (simp add: StreamingWriteStream_Realloc_def Flush_def contents_def stream_memory_def Let_def
        split: option.splits)
  moreover have "flushed st2 = flushed st1"
    using e(2) by (auto simp: store_bytes_def Let_def split: option.splits if_splits)
  ultimately show ?thesis by (simp add: e(3) move_current_def)
qed

text \<open>A block of 64 KB fills the first buffer exactly.\<close>

lemma streaming_first_block:
  assumes "length bs = 65536" and "65536 \<le> heap_limit h"
  shows "\<exists>st. WriteBytes (StreamingWriteStream_Realloc h) bs (WriteStream_init 16) = Inr st \<and>
    contents st = bs \<and> Remaining st = 0 \<and> capacity st = 65536"
proof -
  obtain m where m: "realloc h None 65536 = Some m" using realloc_granted [OF assms(2)] by blast
  then have len: "length m = 65536" using length_realloc [OF m] by simp
  have i: "WriteStream_init 16 = \<lparr>initial_size = 16, write_buffer = None, write_current = 0, capacity = 0,
      flushed = [], flushed_size = 0\<rparr>" by code_simp
  have r: "round_up 65536 16 = Inr 65536" "sint (RoundUp (65536 :: intptr) (64 * 1024)) = 65536" by code_simp+
  have "EnsureSpace (StreamingWriteStream_Realloc h) 65536 (WriteStream_init 16) =
      Inr \<lparr>initial_size = 16, write_buffer = Some m, write_current = 0, capacity = 65536, flushed = [], flushed_size = 0\<rparr>"
    using m r by (simp add: i EnsureSpace_def Remaining_def require_def StreamingWriteStream_Realloc_def Flush_def)
  then show ?thesis
    using assms(1) len by (simp add: WriteBytes_def store_bytes_def move_current_def contents_def stream_memory_def Remaining_def)
qed

end
