(* ===== verification/Spec2Isabelle.thy ===== *)
theory Spec2Isabelle
  imports Riscv_Save Riscv_Objects Riscv_Programs Stream_Write
begin

text \<open>
  Verification library for the RISC-V back end of the Dart virtual machine (assembler and
  instruction set simulator) and for the byte streams of its snapshots.

  \<^bold>\<open>The program.\<close>  The compiler of the virtual machine emits machine code through the class
  \<open>Assembler\<close> (\<open>runtime/vm/compiler/assembler/assembler_riscv.{h,cc}\<close>), a macro assembler
  on top of the \<open>MicroAssembler\<close>, which emits single instructions (and longer sequences
  for far branches) and keeps lists of branches to labels not yet bound
  (\<open>assembler_base.h\<close>).  The instruction formats are those of
  \<open>runtime/vm/constants_riscv.h\<close>.  On a host of another architecture the code runs on
  the \<open>Simulator\<close> (\<open>runtime/vm/simulator_riscv.{h,cc}\<close>).  Snapshots and code metadata are
  written and read through the streams of \<open>runtime/vm/datastream.{h,cc}\<close>.  The
  configuration is \<open>TARGET_ARCH_RISCV64\<close>, \<open>USING_SIMULATOR\<close>, \<open>DEBUG\<close>, on a 64-bit
  little-endian host.

  \<^bold>\<open>Foundations.\<close>
  \<^item> \<open>Prelude\<close>: machine types, the result type and its sequencing, collections of rewrite
    rules, lemmas on words.
  \<^item> \<open>Platform_Utils\<close>: the helpers of \<open>runtime/platform/utils.{h,cc}\<close> (alignment, rounding,
    \<open>IsInt\<close>, \<open>IsUint\<close>, \<open>RoundUpToPowerOfTwo\<close>) and what they mean.
  \<^item> \<open>Register_Set\<close>: \<open>SmallSet\<close> and \<open>RegisterSet\<close> of \<open>backend/locations.{h,cc}\<close>.

  \<^bold>\<open>Instruction formats.\<close>  \<open>Riscv_Constants\<close> has the enumerations and the field encoders and
  decoders of \<open>constants_riscv.h\<close>; \<open>Riscv_Encoding\<close> and \<open>Riscv_CEncoding\<close> the 32-bit and the
  compressed formats, with the lemmas that every decoder reads back what was encoded.

  \<^bold>\<open>Simulator.\<close>  The record \<open>sim\<close> (\<open>Riscv_Sim_State\<close>) is the state of class \<open>Simulator\<close>:
  registers, control and status register, reservation, stack limits, random state and memory.
  \<open>Riscv_Sim_Int\<close>, \<open>Riscv_Sim_FP\<close> and \<open>Riscv_Simulator\<close> have one definition per
  \<open>Simulator::Interpret...\<close> method, the dispatch, \<open>Execute\<close> and the calls \<open>CallX\<close>,
  \<open>PrepareCall\<close>, \<open>RunCall\<close>, \<open>CheckPreservedRegisters\<close>.  An illegal instruction, a
  \<open>FATAL\<close> or a failed check is an error value.  \<open>Execute\<close> is a \<open>partial_function\<close> into an
  option type, so that a program that does not end is \<open>None\<close>.  The floating point unit and
  the host functions behind \<open>ECALL\<close> are arguments (records \<open>fpu\<close> and \<open>host\<close>).
  \<open>Riscv_Exec\<close> says what it means that code placed in memory runs to a state;
  \<open>Riscv_Sim_Invariant\<close> shows that every instruction keeps register zero and the stack
  bounds.

  \<^bold>\<open>Assembler.\<close>  The record \<open>asm\<close> (\<open>Riscv_Assembler\<close>) holds the code buffer, the extensions,
  the level of far branches, the labels and the deferred comparison.  An operation of the
  source is a function from the state to an error or a new state; \<open>ASSERT\<close>, \<open>FATAL\<close> and the
  retry with longer branches (\<open>BranchOffsetError\<close>) are errors.  \<open>Riscv_Instructions\<close> has the
  operations of \<open>MicroAssembler\<close>, \<open>Riscv_MacroAssembler\<close> those of \<open>Assembler\<close>.  The loop of
  \<open>Bind\<close> is a \<open>partial_function\<close>; that it ends is proved (\<open>bind_resolves\<close>).

  \<^bold>\<open>What code does.\<close>  The contract \<open>assembles n r f a\<close> (\<open>Riscv_Contract\<close>) says that an
  operation succeeds, appends at most \<open>n\<close> bytes and that running them changes the machine by
  \<open>f\<close>.  Its locales are interpreted once for every instruction, compressed or not.
  \<^item> \<open>Riscv_Split\<close>, \<open>Riscv_Constants_Load\<close>: constants and operands of any size.
  \<^item> \<open>Riscv_Branches\<close>, \<open>Riscv_Compare\<close>, \<open>Riscv_Overflow\<close>: branches to bound labels, deferred
    comparisons, checked arithmetic.
  \<^item> \<open>Riscv_Stack\<close>, \<open>Riscv_Save\<close>, \<open>Riscv_Objects\<close>: effects that are defined only where the
    memory they use is free; frames, saved registers, loads and stores at any offset, tags.
  \<^item> \<open>Riscv_Labels\<close>, \<open>Riscv_Forward\<close>: the lists of pending branches threaded through the
    buffer, their patching by \<open>Bind\<close>, and forward branches.
  \<^item> \<open>Riscv_Calls\<close>, \<open>Riscv_Programs\<close>: routines called through \<open>Simulator::CallX\<close>.

  \<^bold>\<open>Streams.\<close>  \<open>Data_Stream\<close> models \<open>ReadStream\<close>, \<open>BaseWriteStream\<close>, \<open>MallocWriteStream\<close> and
  \<open>StreamingWriteStream\<close>; the heap under \<open>realloc\<close> is an argument.  \<open>Stream_Read\<close> gives the
  formats as lists of bytes and what each reader returns on them; \<open>Stream_Write\<close> shows, in a
  locale over the virtual \<open>Realloc\<close> interpreted for both kinds of streams, that every writer
  appends the bytes of its format.

  \<^bold>\<open>Properties.\<close>  C1 to C19 are about generated code: under the hypotheses stated on registers
  and distances it is assembled, whatever the size of its constants, and running it on the
  simulator has the meaning of the operation.  C20 to C25 are about streams, C26 to C32
  about the simulator and the formats, C33 and C34 about helpers.  C35 to C40 state
  precisely where the code does not do what it is meant to; so does the last case of C31.

  \<^bold>\<open>Conventions.\<close>  Signed arithmetic of the source wraps around, except for \<open>/\<close> and \<open>%\<close>, which
  are partial as in the language.  The simulated memory is a function of its own: a store of
  simulated code cannot reach the fields of the \<open>Simulator\<close> object, as it could on the host.

  \<^bold>\<open>Bounds.\<close>  There is no fuel: the functions are total or partial functions whose termination
  on the cases of interest is proved.  Branch theorems assume labels within 128 KB
  (\<open>bound_within\<close>) or, forward, within the reach of the level of far branches
  (\<open>forward_reaches\<close>); code must not wrap around the address space (\<open>placed\<close>).  Streams
  hold fewer than $2^{60}$ bytes.  Buffer positions are integers; the buffer stays below 2 GB.

  \<^bold>\<open>Not modelled.\<close>
  \<^item> The operations of \<open>Assembler\<close> that need the object pool, the heap, the thread or the
    runtime (object loads, write barriers, allocation, safepoint transitions, runtime
    calls, monomorphic entries): they depend on the layout of objects and threads, which is
    generated, and on the garbage collector.
  \<^item> The simulator's debugger, tracing, the redirection table and \<open>longjmp\<close> out of simulated
    code; these are host input and output.
  \<^item> The arithmetic of the floating point unit: the sources call the C library.
  \<^item> \<open>Printf\<close> on streams (formatting by the C library), \<open>ZoneWriteStream\<close> (the zone
    allocator), destructors.
  \<^item> Other architectures, the intermediate language, the optimizer, the garbage collector,
    snapshots, the core libraries and the tools of the repository: each is a program of its
    own with no interface to the parts above but the calls that are modelled.
\<close>

unbundle bit_operations_syntax

subsection \<open>Assemblers and machines used in the examples\<close>

text \<open>
  A new assembler (level of far branches and extensions given), the same assembler
  with label 0 bound at its current position, and a machine with a given memory.
\<close>

definition new_asm :: "nat \<Rightarrow> ExtensionSet \<Rightarrow> asm" where
  "new_asm level exts = \<lparr>buffer = [], extensions = exts, far_branch_level = level,
     labels = (\<lambda>_. new_Label), deferred_compare = kNone, deferred_left = 0, deferred_reg = 0, deferred_imm = 0\<rparr>"

definition bound_asm :: asm where
  "bound_asm = (new_asm 0 RV_GC)\<lparr>labels := (\<lambda>_. new_Label)(0 := new_Label\<lparr>position := 0\<rparr>)\<rparr>"

definition machine :: "mem \<Rightarrow> sim" where
  "machine m = \<lparr>pc = 0x10000, xregs = (\<lambda>r. if r = SP then 0x80000 else 0), instret = 0, reserved_address = 0,
     reserved_value = 0, fregs = (\<lambda>_. kNaNBox), fcsr = 0, stack_limit = 0x70000, overflow_stack_limit = 0x71000,
     stack_base = 0x80000, random = 1, memory = m\<rparr>"

lemma new_asm_init: "level \<le> 2 \<Longrightarrow> MicroAssembler_init level exts = Inr (new_asm level exts)"
  by (simp add: MicroAssembler_init_def new_asm_def ASSERT_def)

lemma extension_sets [simp]: "IncludesAll RV_G RV_G" "IncludesAll RV_GC RV_G"
  by code_simp+

lemma no_compressed [simp]: "\<not> Includes RV_G RV_C" and compressed [simp]: "Includes RV_GC RV_C" "Includes RV_GC RV_I"
  by code_simp+

lemma wf_new_asm [simp]: "wf_asm (new_asm level RV_G)" "wf_asm (new_asm level RV_GC)"
  by (simp_all add: wf_asm_def new_asm_def)

lemma bound_asm_simps [simp]: "wf_asm bound_asm" "bound_within 0 bound_asm" "IsBound 0 bound_asm"
  by (simp_all add: wf_asm_def bound_asm_def new_asm_def bound_within_def IsBound_def Position_def)

lemma new_asm_fresh: "fresh l (new_asm level exts) (\<lambda>_. no_branches)" if "level \<le> 2"
  using labels_ok_init [OF new_asm_init [OF that]] that
  by (simp add: fresh_def IsBound_def new_asm_def new_Label_def aligned_def Position_def)

text \<open>A memory with code at the address the machine starts from.\<close>

definition code_image :: "u8 list \<Rightarrow> mem" where
  "code_image code x = (if unat (x - 0x10000) < length code then code ! unat (x - 0x10000) else 0)"

lemma code_at_nth: "code_at m p cs \<longleftrightarrow> (\<forall>i < length cs. m (p + of_nat i) = cs ! i)"
  by (induction cs arbitrary: p) (auto simp: All_less_Suc2 algebra_simps)

lemma code_at_code_image: "length code < 2 ^ 32 \<Longrightarrow> code_at (code_image code) 0x10000 code"
  by (auto simp: code_at_nth code_image_def unat_of_nat take_bit_nat_eq_self)

lemma volatile_A0: "A0 \<in> volatile" "TMP2 \<in> volatile"
  unfolding volatile_def by code_simp+

lemma zero_ok_machine [simp]: "zero_ok (machine m)"
  by (simp add: zero_ok_def machine_def get_xreg_def)

text \<open>A host whose functions return at once, and a program that adds 1 to \<open>A0\<close> and returns.\<close>

definition idle_host :: "fpu \<Rightarrow> host" where
  "idle_host fpu = \<lparr>host_fpu = fpu, host_runtime_call = (\<lambda>_ _. Returned ()), host_leaf_call = (\<lambda>_ _. Returned 0),
     host_leaf_float_call = (\<lambda>_ _. Returned 0), host_native_call = (\<lambda>_ _ _. Returned ())\<rparr>"

lemma idle_host_keeps [simp]: "host_keeps I (idle_host fpu)"
  by (simp add: host_keeps_def idle_host_def)

lemma increment_runs:
  "\<exists>code t. length code \<le> 8 \<and> Execute h (set_xreg RA kEndSimulatingPC (machine (code_image code))) = Some (Inr t) \<and>
     get_xreg t A0 = 1"
proof -
  have "IsITypeImm (1 :: u64)" by (simp add: IsITypeImm_def IsInt_iff_sint)
  then have "assembles 4 (addi A0 A0 1 (new_asm 0 RV_GC)) (\<lambda>s. set_xreg A0 (get_xreg s A0 + 1) s) (new_asm 0 RV_GC)"
    by (intro addi.assembles_op) simp_all
  from leaf_reaches [of 4 "addi A0 A0 1", OF this] obtain code where c: "length code \<le> 8"
    "\<And>h s. placed code s \<Longrightarrow> reaches h s ((set_xreg A0 (get_xreg s A0 + 1) s)\<lparr>pc := get_xreg s RA\<rparr>)" by auto
  let ?s = "set_xreg RA kEndSimulatingPC (machine (code_image code))"
  have "memory ?s = code_image code" "pc ?s = 0x10000" "get_xreg ?s A0 = 0" "get_xreg ?s RA = kEndSimulatingPC" "zero_ok ?s"
    by (simp_all add: machine_def set_xreg_def get_xreg_def zero_ok_def)
  then have "placed code ?s" using c(1) by (simp add: placed_def code_at_code_image)
  from reaches_Execute [OF c(2) [OF this, of h]] c(1) \<open>get_xreg ?s A0 = 0\<close> \<open>get_xreg ?s RA = kEndSimulatingPC\<close>
  show ?thesis by auto
qed

subsection \<open>Code generation: constants, branches, labels, routines\<close>

text \<open>
  C1.  Loading a constant.  For every 64-bit constant and every register but the zero
  register, \<open>LoadImmediate\<close> succeeds, appends at most 32 bytes of code, and running
  this code puts the constant into the register and changes nothing else.
\<close>

theorem load_immediate_correct:
  assumes "wf_asm a" and "reg \<noteq> ZR"
  shows "assembles 32 (LoadImmediate reg imm a) (set_xreg reg imm) a"
  using assms by (rule LoadImmediate_assembles)

theorem load_immediate_witness:
  "assembles 32 (LoadImmediate A0 0x123456789ABCDEF0 (new_asm 0 RV_GC)) (set_xreg A0 0x123456789ABCDEF0) (new_asm 0 RV_GC)"
  by (rule load_immediate_correct) simp_all

text \<open>
  C2.  Forward branches.  \<open>EmitBranch\<close> to a new label followed by any code and \<open>Bind\<close>
  of the label: \<open>Bind\<close> succeeds, changes no byte outside the branch, and the branch
  now skips exactly the code in between when its test of the two registers holds, and
  falls through otherwise (near branches, and both levels of far branches, within the
  reach of each).
\<close>

theorem forward_branch_correct:
  assumes "fresh l a LL" and "is_branch funct3"
  shows "\<exists>a'. EmitBranch rs1 rs2 l funct3 distance a = Inr a' \<and>
    (\<forall>cs. aligned a (int (length cs)) \<longrightarrow> forward_reaches distance a (length cs) \<longrightarrow>
       skips l a a' LL (\<lambda>s. branch_test funct3 (get_xreg s rs1) (get_xreg s rs2)) cs)"
  using assms by (rule forward_branch)

theorem forward_branch_witness:
  "\<exists>a'. EmitBranch A0 A1 0 f3_BLT kFarJump (new_asm 2 RV_G) = Inr a' \<and>
    skips 0 (new_asm 2 RV_G) a' (\<lambda>_. no_branches) (\<lambda>s. branch_test f3_BLT (get_xreg s A0) (get_xreg s A1))
      (bytes32 (IType 1 A0 f3_0 A0 op_OPIMM))"
proof -
  have "fresh 0 (new_asm 2 RV_G) (\<lambda>_. no_branches)" and "is_branch f3_BLT"
    by (simp_all add: new_asm_fresh is_branch_def)
  from forward_branch_correct [OF this, of A0 A1 kFarJump] show ?thesis
    by (auto simp: aligned_def forward_reaches_def is_near_def new_asm_def)
qed

text \<open>
  C3.  Binding a label.  While the pending branches of every label form disjoint chains
  in the buffer (\<open>labels_ok\<close>), \<open>Bind\<close> of an unbound label whose branches are within
  reach terminates without an error; every pending branch of the label then holds the
  distance to the current position, the label is bound there, and all other labels and
  their chains are intact.
\<close>

theorem bind_resolves:
  assumes "labels_ok a LL" and "label_reachable a (LL l)" and "\<not> IsBound l a"
  shows "\<exists>a'. Bind l a = Some (Inr a') \<and> IsBound l a' \<and> labels_ok a' (LL(l := no_branches)) \<and>
    extensions a' = extensions a \<and> buffer a' = patch_all (Position a) (LL l) (buffer a) \<and> label_resolved (buffer a') (Position a) (LL l) \<and>
    labels a' = (labels a)(l := new_Label\<lparr>position := Position a\<rparr>)"
  using assms by (rule labels_ok_Bind)

theorem bind_resolves_witness:
  "\<exists>a a'. EmitBranch A0 A1 3 f3_BEQ kNearJump (new_asm 0 RV_G) = Inr a \<and> Bind 3 a = Some (Inr a') \<and> IsBound 3 a' \<and>
    buffer a' = bytes32 (BType 4 A1 A0 f3_BEQ op_BRANCH)"
proof -
  let ?a = "new_asm 0 RV_G" and ?L = "no_branches\<lparr>list_b := [(0, A0, A1, f3_BEQ)]\<rparr>"
  have f: "fresh 3 ?a (\<lambda>_. no_branches)" by (simp add: new_asm_fresh)
  have "\<exists>a. EmitBranch A0 A1 3 f3_BEQ kNearJump ?a = Inr a \<and>
      links 3 ?a no_branches (enc b_class (A0, A1, f3_BEQ) 0) a
        (no_branches\<lparr>list_b := (Position ?a, A0, A1, f3_BEQ) # list_b no_branches\<rparr>)"
    by (rule EmitBranch_links_near [OF freshD(5,3) [OF f]])
      (simp_all add: is_branch_def is_near_def link_distance_def no_branches_def b.fits_0)
  moreover have "Position ?a = 0" by (simp add: Position_def new_asm_def)
  ultimately obtain a where a: "EmitBranch A0 A1 3 f3_BEQ kNearJump ?a = Inr a"
    and l: "links 3 ?a no_branches (enc b_class (A0, A1, f3_BEQ) 0) a ?L" by (auto simp: no_branches_def)
  have ok: "labels_ok a ((\<lambda>_. no_branches)(3 := ?L))" by (rule labels_ok_links [OF freshD(1) [OF f] l])
  have b: "\<not> IsBound 3 a" "buffer a = bytes32 (BType 0 A1 A0 f3_BEQ op_BRANCH)" "Position a = 4" "\<not> Supports RV_C a"
    using l freshD(3) [OF f] by (simp_all add: links_def IsBound_def b_class_def new_asm_def Position_def Supports_def)
  have "label_reachable a ?L"
    by (simp add: label_reachable_def no_branches_def reachable_from_def b b_class_def exact_def
        IsBTypeImm_def IsInt_iff_sint IsAligned_def code_alignment_def)
  with bind_resolves [OF ok _ b(1)] obtain a' where "Bind 3 a = Some (Inr a')" "IsBound 3 a'"
    "buffer a' = patch_all 4 ?L (buffer a)" by (auto simp: b)
  then show ?thesis
    using a by (auto simp: patch_all_def no_branches_def b b_class_def write_bytes_def)
qed

text \<open>
  C4.  From assembler to simulator.  The routine \<open>LoadImmediate(A0, imm); ret()\<close> is at
  most 36 bytes long; wherever it is placed and whatever the registers hold,
  \<open>Simulator::CallX\<close> on it returns (the execution loop ends, no instruction is
  rejected, the check of the preserved registers passes) with the constant.
\<close>

theorem constant_routine_returns:
  assumes "wf_asm a"
  shows "\<exists>code. seqE [LoadImmediate A0 imm, ret] a = Inr (append_code code a) \<and> length code \<le> 36 \<and>
    (\<forall>h s entry x0 x1 x2 x3. code_at (memory s) entry code \<longrightarrow> unat entry + length code < 2 ^ 64 - 2 \<longrightarrow> zero_ok s \<longrightarrow>
       (\<exists>t. CallX h entry x0 x1 x2 x3 s = Some (Inr (imm, t))))"
proof -
  have "assembles 32 (LoadImmediate A0 imm a) (set_xreg A0 imm) a" using assms by (simp add: LoadImmediate_assembles)
  moreover have "writes_only {A0} (set_xreg A0 imm)" by (simp add: writes_only_def)
  moreover have "{A0} \<subseteq> volatile" by (simp add: volatile_A0)
  ultimately show ?thesis
    using leaf_call [of 32 "LoadImmediate A0 imm" a "set_xreg A0 imm" "{A0}"] assms by simp
qed

theorem constant_routine_witness:
  "\<exists>code. seqE [LoadImmediate A0 0x123456789ABCDEF0, ret] (new_asm 0 RV_GC) = Inr (append_code code (new_asm 0 RV_GC)) \<and>
    (\<forall>h. \<exists>t. CallX h 0x10000 1 2 3 4 (machine (code_image code)) = Some (Inr (0x123456789ABCDEF0, t)))"
proof -
  obtain code where c: "seqE [LoadImmediate A0 0x123456789ABCDEF0, ret] (new_asm 0 RV_GC) =
      Inr (append_code code (new_asm 0 RV_GC))" "length code \<le> 36"
    "\<forall>h s entry x0 x1 x2 x3. code_at (memory s) entry code \<longrightarrow> unat entry + length code < 2 ^ 64 - 2 \<longrightarrow> zero_ok s \<longrightarrow>
       (\<exists>t. CallX h entry x0 x1 x2 x3 s = Some (Inr (0x123456789ABCDEF0, t)))"
    using constant_routine_returns [of "new_asm 0 RV_GC" "0x123456789ABCDEF0"] by auto
  have "code_at (memory (machine (code_image code))) 0x10000 code" using c(2) by (simp add: machine_def code_at_code_image)
  then show ?thesis using c by auto
qed

text \<open>
  C5.  A routine with a label.  \<open>EmitBranch\<close> to a new label, straight-line code, \<open>Bind\<close> of
  the label and \<open>ret\<close> assemble without error; called with the end marker as return
  address, the execution loop of the simulator ends, having executed the code in
  between exactly when the test of the branch failed.
\<close>

theorem conditional_routine_correct:
  assumes "fresh l a LL" "wf_asm a" and "is_branch funct3"
    and "\<And>b. extensions b = extensions a \<Longrightarrow> op b = Inr (append_code cs b)" and "runs cs f" "frame f"
    and "aligned a (int (length cs))" "forward_reaches distance a (length cs)"
    and "\<And>s. get_xreg (f s) RA = get_xreg s RA"
  shows "\<exists>a' code. conditional_routine rs1 rs2 l funct3 distance op a = Some (Inr a') \<and> buffer a' = buffer a @ code \<and>
    (\<forall>h s. placed code s \<longrightarrow> get_xreg s RA = kEndSimulatingPC \<longrightarrow>
       (\<exists>v k. let u = set_xreg FAR_TMP v s
          in Execute h s = Some (Inr ((if branch_test funct3 (get_xreg s rs1) (get_xreg s rs2) then u else f u)
               \<lparr>pc := kEndSimulatingPC, instret := k\<rparr>))))"
  by (rule conditional_routine_returns) (use assms in auto)

theorem conditional_routine_witness:
  "\<exists>a' code. conditional_routine A0 A1 0 f3_BGE kNearJump (mv A0 A1) (new_asm 0 RV_GC) = Some (Inr a') \<and> buffer a' = code \<and>
    (\<forall>h s. placed code s \<longrightarrow> get_xreg s RA = kEndSimulatingPC \<longrightarrow>
       (\<exists>t. Execute h s = Some (Inr t) \<and> sint (get_xreg t A0) = max (sint (get_xreg s A0)) (sint (get_xreg s A1))))"
proof -
  let ?cs = "bytes16 (CR C_MV A0 A1)" and ?f = "\<lambda>s. set_xreg A0 (get_xreg s A1) s"
  have op: "mv A0 A1 b = Inr (append_code ?cs b)" if "extensions b = extensions (new_asm 0 RV_GC)" for b
    using that by (simp add: addi_def asm_defs ASSERT_def Supports_def new_asm_def Emit_append_code IsCIImm_def IsInt_iff_sint)
  have "assembles 4 (mv A0 A1 (new_asm 0 RV_GC)) (\<lambda>s. set_xreg A0 (get_xreg s A1 + 0) s) (new_asm 0 RV_GC)"
    by (intro addi.assembles_op) (simp_all add: IsITypeImm_def IsInt_iff_sint)
  then have r: "runs ?cs ?f" "frame ?f" using op [OF refl] by (auto simp: assembles_def append_code_def new_asm_def)
  let ?a = "new_asm 0 RV_GC"
  have "\<exists>a' code. conditional_routine A0 A1 0 f3_BGE kNearJump (mv A0 A1) ?a = Some (Inr a') \<and> buffer a' = buffer ?a @ code \<and>
    (\<forall>h s. placed code s \<longrightarrow> get_xreg s RA = kEndSimulatingPC \<longrightarrow> (\<exists>v k. let u = set_xreg FAR_TMP v s
       in Execute h s = Some (Inr ((if branch_test f3_BGE (get_xreg s A0) (get_xreg s A1) then u else ?f u)
            \<lparr>pc := kEndSimulatingPC, instret := k\<rparr>))))"
    by (rule conditional_routine_correct [OF new_asm_fresh wf_new_asm(2) _ op r])
      (simp_all add: is_branch_def aligned_def forward_reaches_def is_near_def Supports_def new_asm_def)
  then obtain a' code where c: "conditional_routine A0 A1 0 f3_BGE kNearJump (mv A0 A1) ?a = Some (Inr a')" "buffer a' = code"
    "\<And>h s. placed code s \<Longrightarrow> get_xreg s RA = kEndSimulatingPC \<Longrightarrow> \<exists>v k. Execute h s = Some (Inr
       ((if branch_test f3_BGE (get_xreg s A0) (get_xreg s A1) then set_xreg FAR_TMP v s else ?f (set_xreg FAR_TMP v s))
            \<lparr>pc := kEndSimulatingPC, instret := k\<rparr>))"
    by (auto simp: Let_def new_asm_def)
  have "\<exists>t. Execute h s = Some (Inr t) \<and> sint (get_xreg t A0) = max (sint (get_xreg s A0)) (sint (get_xreg s A1))"
    if "placed code s" "get_xreg s RA = kEndSimulatingPC" for h s
    using c(3) [OF that, of h] by (auto simp: branch_test_def word_sle_eq max_def)
  then show ?thesis using c(1,2) by blast
qed

subsection \<open>Code generation: comparisons and checked arithmetic\<close>

text \<open>
  C6.  Conditional branches.  After \<open>CompareRegisters\<close>, \<open>CompareImmediate\<close>,
  \<open>TestRegisters\<close> or \<open>TestImmediate\<close> (a deferred comparison), \<open>BranchIf\<close> to a bound
  label within 128 KB emits code that goes to the label exactly when the condition
  holds of the compared values, changes no memory and no register but the temporaries
  \<open>TMP2\<close> and \<open>FAR_TMP\<close>, and leaves no deferred comparison.
\<close>

theorem branch_if_correct:
  assumes "wf_asm a" and "bound_within l a" and "wf_deferred condition a"
  shows "takes_branch (BranchIf condition l kFarJump a) (deferred_holds condition a) l a"
  using assms by (rule BranchIf_correct)

theorem branch_if_witness:
  "\<exists>a. CompareImmediate A0 0x12345 bound_asm = Inr a \<and>
     takes_branch (BranchIf UNSIGNED_LESS 0 kFarJump a) (deferred_holds UNSIGNED_LESS a) 0 a"
  by (rule exI, rule conjI [OF _ branch_if_correct])
    (auto simp: CompareImmediate_def bound_asm_def new_asm_def wf_asm_def bound_within_def Position_def wf_deferred_def
      comparable_def asm_defs ASSERT_def)

text \<open>
  C7.  Conditions as values.  \<open>SetIf\<close> emits code that sets the register to 1 when the
  condition holds of the deferred comparison and to 0 when it does not, changes no
  memory and no other register but \<open>TMP2\<close>.  The comparison \<open>x <= -1\<close> (and its
  negation) on unsigned values is excluded.
\<close>

theorem set_if_correct:
  assumes "wf_asm a" and "wf_deferred condition a" and "rd \<noteq> ZR"
    and "deferred_compare a = kCompareImm \<Longrightarrow> immediate_comparable condition (deferred_imm a)"
  shows "sets_flag (SetIf condition rd a) rd (deferred_holds condition a) a"
  using assms by (rule SetIf_correct)

theorem set_if_witness:
  "\<exists>a. CompareRegisters A0 A1 (new_asm 0 RV_GC) = Inr a \<and>
     sets_flag (SetIf GREATER A2 a) A2 (deferred_holds GREATER a) a"
  by (rule exI, rule conjI [OF _ set_if_correct])
    (auto simp: CompareRegisters_def new_asm_def wf_asm_def wf_deferred_def comparable_def asm_defs ASSERT_def)

text \<open>
  C8.  Checked addition.  \<open>AddBranchOverflow\<close> puts the sum modulo $2^{64}$ into the
  destination and goes to the label, bound within 128 KB, exactly when the mathematical sum of the signed
  operands is not representable, whichever of its three registers coincide.
\<close>

theorem add_branch_overflow_correct:
  assumes "wf_asm a" and "bound_within l a" and "plain rd" and "plain rs1" and "plain rs2"
  shows "computes_or_branches (AddBranchOverflow rd rs1 rs2 l a) rd (\<lambda>s. get_xreg s rs1 + get_xreg s rs2)
    (\<lambda>s. sint (get_xreg s rs1 + get_xreg s rs2) \<noteq> sint (get_xreg s rs1) + sint (get_xreg s rs2)) l a"
  using AddBranchOverflow_correct [OF assms] by (simp add: add_overflows_def)

theorem add_branch_overflow_witness:
  "computes_or_branches (AddBranchOverflow A0 A0 A0 0 bound_asm) A0 (\<lambda>s. get_xreg s A0 + get_xreg s A0)
    (\<lambda>s. sint (get_xreg s A0 + get_xreg s A0) \<noteq> sint (get_xreg s A0) + sint (get_xreg s A0)) 0 bound_asm"
  by (rule add_branch_overflow_correct) (simp_all add: plain_def)

text \<open>
  C9.  Checked multiplication.  \<open>MultiplyBranchOverflow\<close> puts the product modulo $2^{64}$
  into the destination and goes to the label, bound within 128 KB, exactly when the mathematical product of
  the signed operands is not representable.
\<close>

theorem multiply_branch_overflow_correct:
  assumes "wf_asm a" and "bound_within l a" and "plain rd" and "plain rs1" and "plain rs2"
  shows "computes_or_branches (MultiplyBranchOverflow rd rs1 rs2 l a) rd (\<lambda>s. get_xreg s rs1 * get_xreg s rs2)
    (\<lambda>s. sint (get_xreg s rs1 * get_xreg s rs2) \<noteq> sint (get_xreg s rs1) * sint (get_xreg s rs2)) l a"
  using MultiplyBranchOverflow_correct [OF assms] by (simp add: mul_overflows_def)

theorem multiply_branch_overflow_witness:
  "computes_or_branches (MultiplyBranchOverflow A0 A0 A1 0 bound_asm) A0 (\<lambda>s. get_xreg s A0 * get_xreg s A1)
    (\<lambda>s. sint (get_xreg s A0 * get_xreg s A1) \<noteq> sint (get_xreg s A0) * sint (get_xreg s A1)) 0 bound_asm"
  by (rule multiply_branch_overflow_correct) (simp_all add: plain_def)

text \<open>
  C10.  Checked subtraction.  With three different registers, \<open>SubtractBranchOverflow\<close>
  puts the difference modulo $2^{64}$ into the destination and goes to the label,
  bound within 128 KB, exactly when the mathematical difference is not representable.
\<close>

theorem subtract_branch_overflow_correct:
  assumes "wf_asm a" and "bound_within l a" and "plain rd" and "plain rs1" and "plain rs2"
    and "rd \<noteq> rs1" "rd \<noteq> rs2" "rs1 \<noteq> rs2"
  shows "computes_or_branches (SubtractBranchOverflow rd rs1 rs2 l a) rd (\<lambda>s. get_xreg s rs1 - get_xreg s rs2)
    (\<lambda>s. sint (get_xreg s rs1 - get_xreg s rs2) \<noteq> sint (get_xreg s rs1) - sint (get_xreg s rs2)) l a"
  using SubtractBranchOverflow_distinct [OF assms] by (simp add: sub_overflows_def)

theorem subtract_branch_overflow_witness:
  "computes_or_branches (SubtractBranchOverflow A0 A1 A2 0 bound_asm) A0 (\<lambda>s. get_xreg s A1 - get_xreg s A2)
    (\<lambda>s. sint (get_xreg s A1 - get_xreg s A2) \<noteq> sint (get_xreg s A1) - sint (get_xreg s A2)) 0 bound_asm"
  by (rule subtract_branch_overflow_correct) (simp_all add: plain_def)

text \<open>
  C11.  Checked addition of a constant, with a label bound within 128 KB: correct when the destination is not the operand,
  and when it is but the constant fits the 12-bit immediate.
\<close>

theorem add_immediate_branch_overflow_correct:
  assumes "wf_asm a" and "bound_within l a" and "plain rd" and "plain rs1" and "rd = rs1 \<Longrightarrow> IsITypeImm imm"
  shows "computes_or_branches (AddImmediateBranchOverflow rd rs1 imm l a) rd (\<lambda>s. get_xreg s rs1 + imm)
    (\<lambda>s. sint (get_xreg s rs1 + imm) \<noteq> sint (get_xreg s rs1) + sint imm) l a"
  using AddImmediateBranchOverflow_correct [OF assms(1-4)] assms(5) by (simp add: add_overflows_def)

theorem add_immediate_branch_overflow_witness:
  "computes_or_branches (AddImmediateBranchOverflow A0 A1 0x1234567 0 bound_asm) A0 (\<lambda>s. get_xreg s A1 + 0x1234567)
    (\<lambda>s. sint (get_xreg s A1 + 0x1234567) \<noteq> sint (get_xreg s A1) + sint (0x1234567 :: u64)) 0 bound_asm"
  by (rule add_immediate_branch_overflow_correct) (simp_all add: plain_def)

text \<open>
  C12.  Checked multiplication by a constant.  For every 64-bit constant,
  \<open>MultiplyImmediateBranchOverflow\<close> puts the product modulo $2^{64}$ into the destination
  and goes to the label, bound within 128 KB, exactly when the mathematical product is not
  representable.
\<close>

theorem multiply_immediate_branch_overflow_correct:
  assumes "wf_asm a" and "bound_within l a" and "plain rd" and "plain rs1"
  shows "computes_or_branches (MultiplyImmediateBranchOverflow rd rs1 imm l a) rd (\<lambda>s. get_xreg s rs1 * imm)
    (\<lambda>s. sint (get_xreg s rs1 * imm) \<noteq> sint (get_xreg s rs1) * sint imm) l a"
  using MultiplyImmediateBranchOverflow_correct [OF assms] by (simp add: mul_overflows_def)

theorem multiply_immediate_branch_overflow_witness:
  "computes_or_branches (MultiplyImmediateBranchOverflow A0 A0 10000000000 0 bound_asm) A0 (\<lambda>s. get_xreg s A0 * 10000000000)
    (\<lambda>s. sint (get_xreg s A0 * 10000000000) \<noteq> sint (get_xreg s A0) * sint (10000000000 :: u64)) 0 bound_asm"
  by (rule multiply_immediate_branch_overflow_correct) (simp_all add: plain_def)

subsection \<open>Code generation: frames, registers, memory, tags\<close>

text \<open>
  C13.  Function frames.  Around any code that keeps the frame pointer and the two words it
  points to, \<open>EnterFrame\<close> and \<open>LeaveFrame\<close> restore the stack pointer, the frame pointer
  and the return address of the caller and change no other register and no memory the
  body leaves.  The effect is defined on every state with room for the frame in the stack
  outside the code.
\<close>

theorem function_frame_restored:
  assumes "wf_asm a" and "IsITypeImm (- (frame_size + 16))" and "IsITypeImm (frame_size + 8)"
    and "IsITypeImm frame_size" and "\<And>b. wf_asm b \<Longrightarrow> transforms n (body b) B b"
  shows "\<exists>G. transforms (n + 32) (seqE [EnterFrame frame_size, body, LeaveFrame] a) G a \<and>
    (\<forall>P s u. 16 \<le> get_xreg s SP \<longrightarrow> frame_free frame_size P s \<longrightarrow> B P (enter_frame frame_size s) = Some u \<longrightarrow>
       keeps_frame (enter_frame frame_size s) u \<longrightarrow>
       (\<exists>t. G P s = Some t \<and> memory t = memory u \<and>
          (\<forall>r. get_xreg t r = (if r \<in> {SP, FP, RA} then get_xreg s r else get_xreg u r))))"
  using assms by (rule framed_body)

theorem function_frame_witness:
  "\<exists>G. transforms 36 (seqE [EnterFrame 32, addi RA ZR 7, LeaveFrame] (new_asm 0 RV_GC)) G (new_asm 0 RV_GC) \<and>
     (\<forall>m. \<exists>t. G {} (machine m) = Some t \<and> get_xreg t SP = 0x80000 \<and> get_xreg t RA = 0)"
proof -
  let ?B = "pureG (\<lambda>s. set_xreg RA (get_xreg s ZR + 7) s)"
  have "IsITypeImm (7 :: u64)" "IsITypeImm (- (32 + 16) :: u64)" "IsITypeImm (32 + 8 :: u64)" "IsITypeImm (32 :: u64)"
    by (simp_all add: IsITypeImm_def IsInt_iff_sint)
  then obtain G where G: "transforms (4 + 32) (seqE [EnterFrame 32, addi RA ZR 7, LeaveFrame] (new_asm 0 RV_GC)) G (new_asm 0 RV_GC)"
    "\<forall>P s u. 16 \<le> get_xreg s SP \<longrightarrow> frame_free 32 P s \<longrightarrow> ?B P (enter_frame 32 s) = Some u \<longrightarrow>
       keeps_frame (enter_frame 32 s) u \<longrightarrow> (\<exists>t. G P s = Some t \<and> memory t = memory u \<and>
         (\<forall>r. get_xreg t r = (if r \<in> {SP, FP, RA} then get_xreg s r else get_xreg u r)))"
    using function_frame_restored [of "new_asm 0 RV_GC" 32 4 "addi RA ZR 7" ?B] transforms_addi [of _ 7 RA ZR] by auto
  have "frame_free 32 {} (machine m)" "get_xreg (machine m) SP = 0x80000" "get_xreg (machine m) RA = 0"
    and "keeps_frame (enter_frame 32 (machine m)) (set_xreg RA (get_xreg (enter_frame 32 (machine m)) ZR + 7) (enter_frame 32 (machine m)))" for m
    by (simp_all add: frame_free_def machine_def get_xreg_def Let_def area_def keeps_frame_def set_xreg_def)
  then have "\<exists>t. G {} (machine m) = Some t \<and> get_xreg t SP = 0x80000 \<and> get_xreg t RA = 0" for m
    using G(2) [rule_format, of "machine m" "{}"] by (fastforce simp: pureG_def)
  then show ?thesis using G(1) by auto
qed

text \<open>
  C14.  Saving registers.  For every set of registers without the zero register and the
  stack pointer, \<open>PushRegisters\<close> and \<open>PopRegisters\<close> around any code that keeps the stack
  pointer and the saved words give back every register of the set, integer and
  floating-point, restore the stack pointer, and change no other register.
\<close>

theorem saved_registers_restored:
  assumes "wf_asm a" and "wf_regs regs" and "\<And>b. wf_asm b \<Longrightarrow> transforms n (body b) B b"
  shows "\<exists>G. transforms (n + 520) (seqE [PushRegisters regs, body, PopRegisters regs] a) G a \<and>
    (\<forall>P s u. let m = length (saved_regs regs); sp = get_xreg s SP - 8 * of_nat m in
       area sp (8 * m) \<inter> P = {} \<longrightarrow> stack_words sp m s \<longrightarrow> B P (push_regs regs s) = Some u \<longrightarrow>
       get_xreg u SP = sp \<longrightarrow> stack_base u = stack_base s \<longrightarrow>
       (\<forall>x \<in> area sp (8 * m). memory u x = memory (push_regs regs s) x) \<longrightarrow>
       (\<exists>t. G P s = Some t \<and> get_xreg t SP = get_xreg s SP \<and>
          (\<forall>r. slot_reg_ok r \<longrightarrow> get_slot t r = get_slot (if r \<in> set (saved_regs regs) then s else u) r)))"
  using assms by (rule saved_body)

theorem saved_registers_witness:
  "\<exists>G. transforms 524 (seqE [PushRegisters (RegisterSet_of 0xC00 0x100), addi A0 A0 1,
       PopRegisters (RegisterSet_of 0xC00 0x100)] (new_asm 0 RV_GC)) G (new_asm 0 RV_GC) \<and>
     (\<forall>m. \<exists>t. G {} (machine m) = Some t \<and> get_slot t (XR 10) = 0 \<and> get_xreg t SP = 0x80000)"
proof -
  let ?regs = "RegisterSet_of 0xC00 0x100" and ?B = "pureG (\<lambda>s. set_xreg A0 (get_xreg s A0 + 1) s)"
  have r: "wf_regs ?regs" "saved_regs ?regs = [XR 10, XR 11, FR 8]" by code_simp+
  then have n: "length (saved_regs ?regs) = 3" "set (saved_regs ?regs) = {XR 10, XR 11, FR 8}" by simp_all
  have "IsITypeImm (1 :: u64)" by (simp add: IsITypeImm_def IsInt_iff_sint)
  then have "\<And>b. wf_asm b \<Longrightarrow> transforms 4 (addi A0 A0 1 b) ?B b" by (simp add: transforms_addi)
  from saved_registers_restored [OF wf_new_asm(2) [of 0] r(1) this]
  obtain G where G: "transforms (4 + 520) (seqE [PushRegisters ?regs, addi A0 A0 1, PopRegisters ?regs] (new_asm 0 RV_GC)) G (new_asm 0 RV_GC)"
    "\<forall>P s u. area (get_xreg s SP - 24) 24 \<inter> P = {} \<longrightarrow> stack_words (get_xreg s SP - 24) 3 s \<longrightarrow> ?B P (push_regs ?regs s) = Some u \<longrightarrow>
       get_xreg u SP = get_xreg s SP - 24 \<longrightarrow> stack_base u = stack_base s \<longrightarrow>
       (\<forall>x \<in> area (get_xreg s SP - 24) 24. memory u x = memory (push_regs ?regs s) x) \<longrightarrow>
       (\<exists>t. G P s = Some t \<and> get_xreg t SP = get_xreg s SP \<and>
          (\<forall>r. slot_reg_ok r \<longrightarrow> get_slot t r = get_slot (if r \<in> {XR 10, XR 11, FR 8} then s else u) r))"
    by (auto simp: n Let_def)
  have "\<exists>t. G {} (machine m) = Some t \<and> get_slot t (XR 10) = 0 \<and> get_xreg t SP = 0x80000" for m
  proof -
    let ?s = "machine m" and ?p = "push_regs ?regs (machine m)"
    let ?u = "set_xreg A0 (get_xreg ?p A0 + 1) ?p"
    have sp: "get_xreg ?s SP = 0x80000" and x: "get_slot ?s (XR 10) = 0" and b: "stack_base ?s = 0x80000"
      by (simp_all add: machine_def get_xreg_def)
    have w: "stack_words (get_xreg ?s SP - 24) 3 ?s" unfolding stack_words_def sp b by code_simp
    have p: "get_xreg ?p SP = get_xreg ?s SP - 24" "stack_base ?p = stack_base ?s"
      by (simp_all add: push_regs_def Let_def n)
    have "\<exists>t. G {} ?s = Some t \<and> get_xreg t SP = get_xreg ?s SP \<and>
        (\<forall>r. slot_reg_ok r \<longrightarrow> get_slot t r = get_slot (if r \<in> {XR 10, XR 11, FR 8} then ?s else ?u) r)"
      by (rule G(2) [rule_format, OF _ w]) (simp_all add: pureG_def p)
    then obtain t where t: "G {} ?s = Some t" "get_xreg t SP = get_xreg ?s SP"
      "\<And>r. slot_reg_ok r \<Longrightarrow> get_slot t r = get_slot (if r \<in> {XR 10, XR 11, FR 8} then ?s else ?u) r" by blast
    then show ?thesis using t(3) [of "XR 10"] sp x by simp
  qed
  then show ?thesis using G(1) by auto
qed

text \<open>
  C15.  Branches to bound labels.  For every distance in reach (\<open>branch_reaches\<close>), whichever of its three code shapes \<open>EmitBranch\<close> chooses
  for the distance (branch; inverted branch around a jump; inverted branch around a
  pc-relative indirect jump), the code goes to the label exactly when the test of the
  two registers holds, and changes no register but \<open>FAR_TMP\<close>.
\<close>

theorem backward_branch_correct:
  assumes "is_branch funct3" and "IsBound l a" and "branch_reaches (label_offset l a)"
  shows "branches_to (EmitBranch rs1 rs2 l funct3 distance a) (\<lambda>s. s)
    (\<lambda>s. branch_test funct3 (get_xreg s rs1) (get_xreg s rs2)) l a"
  using assms by (rule EmitBranch_bound)

theorem backward_branch_witness:
  "\<exists>code. length code = 1000000 \<and>
    branches_to (EmitBranch A0 A1 0 f3_BGEU kNearJump (append_code code bound_asm)) (\<lambda>s. s)
      (\<lambda>s. branch_test f3_BGEU (get_xreg s A0) (get_xreg s A1)) 0 (append_code code bound_asm)"
proof -
  obtain code :: "u8 list" where c: "length code = 1000000" using Ex_list_of_length by blast
  have "label_offset 0 (append_code code bound_asm) = - 1000000" "IsBound 0 (append_code code bound_asm)"
    by (simp_all add: label_offset_def append_code_def bound_asm_def new_asm_def Position_def IsBound_def c)
  then have "IsBound 0 (append_code code bound_asm)" "branch_reaches (label_offset 0 (append_code code bound_asm))"
    by (simp_all add: branch_reaches_def IsBTypeImm_def IsJTypeImm_def IsInt_iff_sint IsAligned_def split_lo_eq)
  with c backward_branch_correct [of f3_BGEU 0 "append_code code bound_asm" A0 A1 kNearJump] show ?thesis
    by (auto simp: is_branch_def)
qed

text \<open>
  C16.  Fields of objects.  For each of the seven integer sizes, what \<open>StoreToOffset\<close>
  stores at an offset from a register, \<open>LoadFromOffset\<close> loads from there, sign- or
  zero-extended; only the bytes of the field, the destination and \<open>TMP2\<close> change.  This
  holds for offsets of any length below 0x7FFFF800, whenever the simulator allows the
  access.
\<close>

theorem field_store_load:
  assumes "wf_asm a" and "base \<noteq> ZR" "base \<noteq> TMP2" and "offset_ok offset" and "bytes_of sz = Some n"
    and "src \<noteq> TMP2" and "dest \<noteq> ZR"
  shows "\<exists>G. transforms 24 (bindE (StoreToOffset src base offset sz a) (LoadFromOffset dest base offset sz)) G a \<and>
    (\<forall>P s. let addr = get_xreg s base + scast offset in
       CheckAccess n addr (offset_base base (scast offset)) s = None \<longrightarrow> area addr n \<inter> P = {} \<longrightarrow>
       (\<exists>t. G P s = Some t \<and> memory t = store n addr (get_xreg s src) (memory s) \<and>
          get_xreg t dest = extend_to sz (get_xreg s src) \<and>
          (\<forall>q. q \<notin> {dest, TMP2} \<longrightarrow> get_xreg t q = get_xreg s q)))"
  using assms by (rule store_load_offset)

theorem field_store_load_witness:
  "\<exists>G. transforms 24 (bindE (StoreToOffset A1 A0 0x12345 kTwoBytes (new_asm 0 RV_GC)) (LoadFromOffset A2 A0 0x12345 kTwoBytes))
      G (new_asm 0 RV_GC) \<and>
     (\<forall>m. \<exists>t. G {} (set_xreg A1 0xABCD (set_xreg A0 0x40000 (machine m))) = Some t \<and> get_xreg t A2 = 0xFFFFFFFFFFFFABCD)"
proof -
  obtain G where G: "transforms 24 (bindE (StoreToOffset A1 A0 0x12345 kTwoBytes (new_asm 0 RV_GC))
      (LoadFromOffset A2 A0 0x12345 kTwoBytes)) G (new_asm 0 RV_GC)"
    "\<forall>P s. CheckAccess 2 (get_xreg s A0 + 0x12345) (offset_base A0 (scast (0x12345 :: u32))) s = None \<longrightarrow>
       area (get_xreg s A0 + 0x12345) 2 \<inter> P = {} \<longrightarrow> (\<exists>t. G P s = Some t \<and>
       memory t = store 2 (get_xreg s A0 + 0x12345) (get_xreg s A1) (memory s) \<and>
       get_xreg t A2 = extend_to kTwoBytes (get_xreg s A1) \<and> (\<forall>q. q \<notin> {A2, TMP2} \<longrightarrow> get_xreg t q = get_xreg s q))"
    using field_store_load [of "new_asm 0 RV_GC" A0 "0x12345" kTwoBytes 2 A1 A2] by (auto simp: Let_def offset_ok_def)
  have "offset_base A0 (scast (0x12345 :: u32)) = TMP2" by (simp add: offset_base_def IsITypeImm_def IsInt_iff_sint)
  then have "\<exists>t. G {} (set_xreg A1 0xABCD (set_xreg A0 0x40000 (machine m))) = Some t \<and> get_xreg t A2 = 0xFFFFFFFFFFFFABCD" for m
    using G(2) [rule_format, of "set_xreg A1 0xABCD (set_xreg A0 0x40000 (machine m))" "{}"] by (auto simp: CheckAccess_def)
  then show ?thesis using G(1) by blast
qed

text \<open>
  C17.  Tagged integers.  Tagging and untagging a value in place keeps its low 63 bits and
  extends their sign: every integer of the Smi range comes back.
\<close>

theorem smi_tag_untag:
  assumes "wf_asm a" and "rd \<noteq> ZR"
  shows "assembles 8 (seqE [SmiTag rd rs, SmiUntag rd rd] a) (\<lambda>s. set_xreg rd (signed_take_bit 62 (get_xreg s rs)) s) a \<and>
    (- (2 ^ 62) \<le> sint x \<and> sint x < 2 ^ 62 \<longrightarrow> signed_take_bit 62 x = (x :: u64))"
  using smi_roundtrip [OF assms, of rs] IsInt_iff_signed_take_bit [of 63 x] by (simp add: IsInt_iff_sint)

theorem smi_tag_untag_witness:
  "assembles 8 (seqE [SmiTag A0 A1, SmiUntag A0 A0] (new_asm 0 RV_GC)) (\<lambda>s. set_xreg A0 (signed_take_bit 62 (get_xreg s A1)) s)
     (new_asm 0 RV_GC) \<and> signed_take_bit 62 (- 5 :: u64) = - 5"
  using smi_tag_untag [of "new_asm 0 RV_GC" A0 A1 "- 5"] by simp

text \<open>
  C18.  Tests for tagged integers.  \<open>BranchIfSmi\<close> goes to the label, bound within 128 KB,
  exactly when the value is even, \<open>BranchIfNotSmi\<close> exactly when it is odd.
\<close>

theorem branch_if_smi:
  assumes "wf_asm a" and "bound_within l a" and "reg \<noteq> TMP2"
  shows "branches_to (BranchIfSmi reg l kFarJump a) (\<lambda>s. set_xreg TMP2 (get_xreg s reg AND 1) s)
      (\<lambda>s. even (get_xreg s reg)) l a \<and>
    branches_to (BranchIfNotSmi reg l kFarJump a) (\<lambda>s. set_xreg TMP2 (get_xreg s reg AND 1) s)
      (\<lambda>s. odd (get_xreg s reg)) l a"
  using BranchIfSmi_branches [OF assms] by simp

theorem branch_if_smi_witness:
  "branches_to (BranchIfSmi A0 0 kFarJump bound_asm) (\<lambda>s. set_xreg TMP2 (get_xreg s A0 AND 1) s)
      (\<lambda>s. even (get_xreg s A0)) 0 bound_asm"
  using branch_if_smi [of bound_asm 0 A0] by simp

text \<open>
  C19.  Branches out of reach are reported.  If more code than a near branch reaches follows
  it, \<open>Bind\<close> ends with the branch offset error (the compiler then assembles again with
  far branches); no wrong displacement is written.
\<close>

theorem near_branch_error:
  assumes "fresh l a LL" and "is_branch funct3" and "is_near distance a"
  shows "\<exists>a'. EmitBranch rs1 rs2 l funct3 distance a = Inr a' \<and>
    (\<forall>cs. aligned a (int (length cs)) \<longrightarrow> 2044 \<le> length cs \<longrightarrow> length cs < 2 ^ 31 \<longrightarrow>
       Bind l (append_code cs a') = Some (Inl BranchOffsetError))"
  using assms by (rule near_branch_out_of_reach)

theorem near_branch_error_witness:
  "\<exists>a' cs. EmitBranch A0 A1 0 f3_BNE kFarJump (new_asm 0 RV_G) = Inr a' \<and> length cs = 4000 \<and>
    Bind 0 (append_code cs a') = Some (Inl BranchOffsetError)"
proof -
  obtain cs :: "u8 list" where "length cs = 4000" using Ex_list_of_length by blast
  moreover have "fresh 0 (new_asm 0 RV_G) (\<lambda>_. no_branches)" "is_branch f3_BNE" "is_near kFarJump (new_asm 0 RV_G)"
    by (simp_all add: new_asm_fresh is_branch_def is_near_def) (simp add: new_asm_def)
  from near_branch_error [OF this, of A0 A1] obtain a' where "EmitBranch A0 A1 0 f3_BNE kFarJump (new_asm 0 RV_G) = Inr a'"
    "\<And>cs. aligned (new_asm 0 RV_G) (int (length cs)) \<Longrightarrow> 2044 \<le> length cs \<Longrightarrow> length cs < 2 ^ 31 \<Longrightarrow>
       Bind 0 (append_code cs a') = Some (Inl BranchOffsetError)" by blast
  ultimately show ?thesis by (intro exI [of _ a'] exI [of _ cs]) (simp add: aligned_def)
qed

subsection \<open>Byte streams\<close>

text \<open>
  C20.  Write streams refine lists of bytes.  Any sequence of write operations (bytes, blocks,
  fixed words, variable length numbers, LEB128 and SLEB128 numbers, alignment) on a new
  \<open>MallocWriteStream\<close> leaves exactly the bytes that the same operations append to a
  list.  The buffer never exceeds twice the bytes written plus twice the initial size,
  and the operations fail only with \<open>OutOfMemory\<close>, when the heap does not grant a block
  of this size.
\<close>

theorem write_stream_refines:
  assumes "1 \<le> uint n" and "uint n \<le> 2 ^ 60" and "list_all op_ok ops"
    and "int (length (fold spec_op ops [])) < 2 ^ 60"
  shows "case seqE (map (run_op (MallocWriteStream_Realloc h)) ops) (WriteStream_init n) of
      Inl e \<Rightarrow> e = OutOfMemory \<and> int (heap_limit h) < 2 * int (length (fold spec_op ops [])) + 2 * uint n
    | Inr st \<Rightarrow> contents st = fold spec_op ops [] \<and> capacity st \<le> 2 * int (length (fold spec_op ops [])) + 2 * uint n"
proof -
  note init = WriteStream_init_reserved [OF assms(1,2)]
  note ext = malloc_stream.run_ops_extends [OF assms(3), of h]
  note r = extendsD [OF ext init(1), unfolded init(3), OF assms(4)]
  show ?thesis
  proof (cases "seqE (map (run_op (MallocWriteStream_Realloc h)) ops) (WriteStream_init n)")
    case (Inl e)
    then show ?thesis using r init(4) by (simp add: malloc_enough_def)
  next
    case (Inr st)
    then have "malloc_reserved 0 st" "contents st = fold spec_op ops []" "initial_size st < 2 * uint n" using r init(4) by simp_all
    moreover from this(1) have "int (length (contents st)) = write_current st"
      using length_contents [of st] by (simp add: malloc_reserved_def WriteStream_Position_def wf_stream_def)
    ultimately show ?thesis using Inr by (simp add: malloc_reserved_def)
  qed
qed

theorem write_stream_refines_witness:
  "\<exists>st. seqE (map (run_op (MallocWriteStream_Realloc \<lparr>heap_limit = 1000, heap_fresh = (\<lambda>_. 0)\<rparr>))
      [OpSigned (- 200), OpAlign 3, OpLEB128 300]) (WriteStream_init 16) = Inr st \<and>
    contents st = [56, 190, 0, 0, 0, 0, 0, 0, 172, 2] \<and> capacity st \<le> 52"
proof -
  let ?h = "\<lparr>heap_limit = 1000, heap_fresh = (\<lambda>_. 0 :: u8)\<rparr>"
  let ?ops = "[OpSigned (- 200), OpAlign 3, OpLEB128 300]"
  have bytes: "fold spec_op ?ops [] = [56, 190, 0, 0, 0, 0, 0, 0, 172, 2]" by code_simp
  have "case seqE (map (run_op (MallocWriteStream_Realloc ?h)) ?ops) (WriteStream_init 16) of
      Inl e \<Rightarrow> e = OutOfMemory \<and> int (heap_limit ?h) < 2 * int (length (fold spec_op ?ops [])) + 2 * uint (16 :: u64)
    | Inr st \<Rightarrow> contents st = fold spec_op ?ops [] \<and> capacity st \<le> 2 * int (length (fold spec_op ?ops [])) + 2 * uint (16 :: u64)"
    by (rule write_stream_refines) (simp_all only: bytes, simp_all)
  then show ?thesis unfolding bytes by (simp split: sum.splits)
qed

text \<open>
  C21.  Streaming write streams.  For any sequence of write operations on a new
  \<open>StreamingWriteStream\<close>, the bytes handed to the callback followed by the bytes still in
  the buffer are those the operations append to a list: none is lost, repeated or reordered
  by flushing, alignment included.  The buffer never exceeds twice the bytes written plus
  twice the initial size and 64 KB, and the operations fail only with \<open>OutOfMemory\<close>, when
  the heap does not grant a block of this size.
\<close>

theorem streaming_stream_refines:
  assumes "1 \<le> uint n" and "uint n \<le> 2 ^ 60" and "list_all op_ok ops"
    and "int (length (fold spec_op ops [])) < 2 ^ 60"
  shows "case seqE (map (run_op (StreamingWriteStream_Realloc h)) ops) (WriteStream_init n) of
      Inl e \<Rightarrow> e = OutOfMemory \<and> int (heap_limit h) < 2 * int (length (fold spec_op ops [])) + 2 * uint n + 65536
    | Inr st \<Rightarrow> flushed (Flush st) = fold spec_op ops [] \<and> flushed_size (Flush st) = int (length (fold spec_op ops [])) \<and>
        capacity st \<le> 2 * int (length (fold spec_op ops [])) + 2 * uint n + 65536"
proof -
  note init = WriteStream_init_reserved [OF assms(1,2)]
  note ext = streaming_stream.run_ops_extends [OF assms(3), of h]
  note r = extendsD [OF ext init(2), unfolded init(3), OF assms(4)]
  show ?thesis
  proof (cases "seqE (map (run_op (StreamingWriteStream_Realloc h)) ops) (WriteStream_init n)")
    case (Inl e)
    then show ?thesis using r init(4) by (simp add: streaming_enough_def)
  next
    case (Inr st)
    then have st: "streaming_reserved 0 st" "contents st = fold spec_op ops []" "initial_size st < 2 * uint n"
      using r init(4) by simp_all
    then have "wf_stream st" by (simp add: streaming_reserved_def)
    from length_contents [OF this] have "int (length (fold spec_op ops [])) = WriteStream_Position st" by (simp add: st(2))
    moreover have "flushed (Flush st) = contents st"
      by (simp add: Flush_def contents_def stream_memory_def Let_def split: option.splits)
    moreover have "flushed_size (Flush st) = WriteStream_Position st"
      by (simp add: Flush_def WriteStream_Position_def Let_def)
    ultimately show ?thesis using Inr st by (simp add: streaming_reserved_def)
  qed
qed

theorem streaming_stream_refines_witness:
  "\<exists>st. seqE (map (run_op (StreamingWriteStream_Realloc \<lparr>heap_limit = 300000, heap_fresh = (\<lambda>_. 0)\<rparr>))
      [OpBytes (replicate 65536 1), OpByte 7]) (WriteStream_init 16) = Inr st \<and>
    flushed st = replicate 65536 1 \<and> flushed (Flush st) = replicate 65536 1 @ [7] \<and> flushed_size (Flush st) = 65537"
proof -
  let ?h = "\<lparr>heap_limit = 300000, heap_fresh = (\<lambda>_. 0 :: u8)\<rparr>"
  let ?R = "StreamingWriteStream_Realloc ?h" and ?ops = "[OpBytes (replicate 65536 1), OpByte 7]"
  have bytes: "fold spec_op ?ops [] = replicate 65536 1 @ [7]" by simp
  have "case seqE (map (run_op ?R) ?ops) (WriteStream_init 16) of
      Inl e \<Rightarrow> e = OutOfMemory \<and> int (heap_limit ?h) < 2 * int (length (fold spec_op ?ops [])) + 2 * uint (16 :: u64) + 65536
    | Inr st \<Rightarrow> flushed (Flush st) = fold spec_op ?ops [] \<and> flushed_size (Flush st) = int (length (fold spec_op ?ops [])) \<and>
        capacity st \<le> 2 * int (length (fold spec_op ?ops [])) + 2 * uint (16 :: u64) + 65536"
    by (rule streaming_stream_refines) (simp_all only: bytes, simp_all)
  then obtain st where st: "seqE (map (run_op ?R) ?ops) (WriteStream_init 16) = Inr st"
    "flushed (Flush st) = replicate 65536 1 @ [7]" "flushed_size (Flush st) = 65537"
    unfolding bytes by (auto split: sum.splits)
  obtain st1 where st1: "WriteBytes ?R (replicate 65536 1) (WriteStream_init 16) = Inr st1"
    "contents st1 = replicate 65536 1" "Remaining st1 = 0" "capacity st1 = 65536"
    using streaming_first_block [of "replicate 65536 1" ?h] by auto
  then have "WriteByte ?R 7 st1 = Inr st" using st(1) by (auto simp: bindE_Inr_iff)
  from streaming_WriteByte_flushes [OF st1(3) _ _ this] show ?thesis using st st1 by auto
qed

text \<open>
  C22.  Variable length numbers.  \<open>Write\<close> of a 64-bit number appends at most 10 bytes; from
  these bytes, whatever precedes and follows them in the buffer, \<open>Read\<close> and the unrolled
  \<open>Read64\<close> return the number and stop right behind them.
\<close>

theorem varint_roundtrip:
  assumes "malloc_reserved 0 st" and "int (length (contents st)) + 10 < 2 ^ 60"
    and "Write (MallocWriteStream_Realloc h) (v :: u64) st = Inr st'"
  shows "\<exists>bs. contents st' = contents st @ bs \<and> length bs \<le> 10 \<and>
    reads (Read kEndByteMarker) bs v \<and> reads (stream_Read64 kEndByteMarker) bs v"
proof -
  let ?bs = "varint (sint v)"
  have range: "- (2 ^ 63) \<le> sint v" "sint v < 2 ^ 63" using sint_ge [of v] sint_lt [of v] by simp_all
  then have len: "length ?bs \<le> 10" using length_signed_format [of 63 "sint v"] by (simp add: varint_def)
  have "contents st' = contents st @ ?bs"
    using malloc_stream.Write_appends [of h v] assms len by (auto simp: appends_def extends_def)
  moreover have read: "reads (Read kEndByteMarker) ?bs v" using Read_varint [of "sint v", where 'a = 64] range by simp
  moreover have "reads (stream_Read64 kEndByteMarker) ?bs v" by (rule reads_same_result [OF read stream_Read64_Read])
  ultimately show ?thesis using len by blast
qed

theorem varint_roundtrip_witness:
  "\<exists>st' bs. Write (MallocWriteStream_Realloc \<lparr>heap_limit = 64, heap_fresh = (\<lambda>_. 0)\<rparr>) (5 :: u64) (WriteStream_init 16) = Inr st' \<and>
    contents st' = bs \<and> reads (stream_Read64 kEndByteMarker) bs 5"
proof -
  let ?h = "\<lparr>heap_limit = 64, heap_fresh = (\<lambda>_. 0 :: u8)\<rparr>"
  have init: "malloc_reserved 0 (WriteStream_init 16)" "contents (WriteStream_init 16) = []"
    using WriteStream_init_reserved [of 16] by simp_all
  have "RoundUpToPowerOfTwo 16 = 16" by code_simp
  then have "WriteStream_init 16 = \<lparr>initial_size = 16, write_buffer = None, write_current = 0, capacity = 0, flushed = [],
      flushed_size = 0\<rparr>" by (simp add: WriteStream_init_def)
  moreover have "round_up 1 16 = Inr 16" by code_simp
  ultimately have "\<exists>st'. Write (MallocWriteStream_Realloc ?h) (5 :: u64) (WriteStream_init 16) = Inr st'"
    by (simp add: Write.simps WriteByte_def EnsureSpace_def MallocWriteStream_Realloc_def realloc_def store_bytes_def
        Remaining_def require_def Let_def)
  then obtain st' where "Write (MallocWriteStream_Realloc ?h) (5 :: u64) (WriteStream_init 16) = Inr st'" by blast
  with varint_roundtrip [OF init(1) _ this] init(2) show ?thesis by auto
qed

text \<open>
  C23.  LEB128.  The bytes that \<open>WriteLEB128\<close> appends for an unsigned number (at most 10) are
  read back by \<open>ReadLEB128\<close>, and those that \<open>WriteSLEB128\<close> appends for a signed number by
  \<open>ReadSLEB128\<close>, whichever way the compiler shifts negative numbers to the right.
\<close>

theorem leb128_roundtrip:
  assumes "malloc_reserved 0 st" and "int (length (contents st)) + 10 < 2 ^ 60"
  shows "(WriteLEB128 (MallocWriteStream_Realloc h) (v :: u64) st = Inr st' \<longrightarrow>
      (\<exists>bs. contents st' = contents st @ bs \<and> length bs \<le> 10 \<and> reads ReadLEB128 bs v)) \<and>
    (WriteSLEB128 arithmetic (MallocWriteStream_Realloc h) v st = Inr st' \<longrightarrow>
      (\<exists>bs. contents st' = contents st @ bs \<and> length bs \<le> 10 \<and> reads ReadSLEB128 bs v))"
proof (intro conjI impI)
  have u: "0 \<le> uint v" "uint v < 2 ^ 64" using uint_lt2p [of v] by simp_all
  have s: "- (2 ^ 63) \<le> sint v" "sint v < 2 ^ 63" using sint_ge [of v] sint_lt [of v] by simp_all
  have len: "length (leb128 (uint v)) \<le> 10" "length (sleb128 (sint v)) \<le> 10"
    using length_unsigned_format [OF u(2)] length_signed_format [OF s] by (simp_all add: leb128_def sleb128_def)
  have read: "reads ReadLEB128 (leb128 (uint v)) v" "reads ReadSLEB128 (sleb128 (sint v)) v"
    using ReadLEB128_leb128 [of "uint v", where 'a = 64] ReadSLEB128_sleb128 [of "sint v", where 'a = 64] u s by simp_all
  show "\<exists>bs. contents st' = contents st @ bs \<and> length bs \<le> 10 \<and> reads ReadLEB128 bs v"
    if "WriteLEB128 (MallocWriteStream_Realloc h) v st = Inr st'"
    using malloc_stream.WriteLEB128_appends [of h v] assms len(1) read(1) that by (auto simp: appends_def extends_def)
  show "\<exists>bs. contents st' = contents st @ bs \<and> length bs \<le> 10 \<and> reads ReadSLEB128 bs v"
    if "WriteSLEB128 arithmetic (MallocWriteStream_Realloc h) v st = Inr st'"
    using malloc_stream.WriteSLEB128_appends [of h v arithmetic] assms len(2) read(2) that
    by (auto simp: appends_def extends_def)
qed

theorem leb128_roundtrip_witness:
  "\<exists>st' bs. WriteLEB128 (MallocWriteStream_Realloc \<lparr>heap_limit = 64, heap_fresh = (\<lambda>_. 0)\<rparr>) (5 :: u64) (WriteStream_init 16) = Inr st' \<and>
    contents st' = bs \<and> reads ReadLEB128 bs (5 :: u64)"
proof -
  let ?h = "\<lparr>heap_limit = 64, heap_fresh = (\<lambda>_. 0 :: u8)\<rparr>"
  have init: "malloc_reserved 0 (WriteStream_init 16)" "contents (WriteStream_init 16) = []"
    using WriteStream_init_reserved [of 16] by simp_all
  have "RoundUpToPowerOfTwo 16 = 16" by code_simp
  then have "WriteStream_init 16 = \<lparr>initial_size = 16, write_buffer = None, write_current = 0, capacity = 0, flushed = [],
      flushed_size = 0\<rparr>" by (simp add: WriteStream_init_def)
  moreover have "round_up 1 16 = Inr 16" by code_simp
  ultimately have "\<exists>st'. WriteLEB128 (MallocWriteStream_Realloc ?h) (5 :: u64) (WriteStream_init 16) = Inr st'"
    by (simp add: WriteLEB128.simps WriteByte_def EnsureSpace_def MallocWriteStream_Realloc_def realloc_def store_bytes_def
        Remaining_def require_def Let_def)
  then obtain st' where "WriteLEB128 (MallocWriteStream_Realloc ?h) (5 :: u64) (WriteStream_init 16) = Inr st'" by blast
  with leb128_roundtrip [OF init(1), of ?h 5 st'] init(2) show ?thesis by auto
qed

text \<open>
  C24.  The unrolled readers are the loop.  On every stream, valid or not, \<open>Read32\<close> and \<open>Read64\<close>
  return a value and a new position exactly when the generic loop \<open>Read\<close> does, and then
  the same.
\<close>

theorem unrolled_readers_equivalent:
  "(stream_Read32 m st = Inr x \<longleftrightarrow> Read m st = Inr x) \<and> (stream_Read64 m st' = Inr y \<longleftrightarrow> Read m st' = Inr y)"
  using stream_Read32_Read [of m st] stream_Read64_Read [of m st'] unfolding same_result_def by blast

text \<open>
  C25.  Readers stay in the buffer.  Whatever the bytes, a read that succeeds from a valid
  position moves it forward, never past the end, and does not change the buffer.  (Reads
  that run out of bytes, or of bits in the result, fail.)
\<close>

theorem readers_stay_in_buffer:
  "advances ReadByte \<and> advances (Read m :: 'a::len word reader) \<and> advances (ReadUnsigned :: 'a word reader) \<and>
   advances (ReadLEB128 :: 'a word reader) \<and> advances (ReadSLEB128 :: 'a word reader) \<and>
   advances (stream_Read32 m) \<and> advances (stream_Read64 m)"
  by (simp add: ReadByte_advances Read_advances ReadUnsigned_def ReadLEB128_advances
      advances_same_result [OF Read_advances stream_Read32_Read] advances_same_result [OF Read_advances stream_Read64_Read])

subsection \<open>The simulator and the instruction formats\<close>

text \<open>
  C26.  The zero register.  Whatever code the simulator executes, when the execution ends
  without an error the register \<open>zero\<close> holds 0, provided the runtime functions that the
  code calls keep it.
\<close>

theorem simulator_keeps_zero:
  assumes "Execute h s = Some r" and "get_xreg s ZR = 0" and "host_keeps (\<lambda>s. get_xreg s ZR = 0) h"
  shows "case r of Inl e \<Rightarrow> True | Inr t \<Rightarrow> get_xreg t ZR = 0"
proof -
  have z: "(\<lambda>s. get_xreg s ZR = 0) = zero_ok" by (simp add: fun_eq_iff zero_ok_def)
  show ?thesis using zero.Execute_keeps [OF assms(1)] assms(2,3) unfolding z by (simp add: keeps_def zero_ok_def)
qed

theorem simulator_keeps_zero_witness:
  "\<forall>fpu. \<exists>code t. Execute (idle_host fpu) (set_xreg RA kEndSimulatingPC (machine (code_image code))) = Some (Inr t) \<and>
     get_xreg t A0 = 1 \<and> get_xreg t ZR = 0"
proof
  fix fpu
  obtain code t where t: "Execute (idle_host fpu) (set_xreg RA kEndSimulatingPC (machine (code_image code))) = Some (Inr t)"
    "get_xreg t A0 = 1" using increment_runs by blast
  moreover have "get_xreg (set_xreg RA kEndSimulatingPC (machine (code_image code))) ZR = 0"
    by (simp add: machine_def get_xreg_def set_xreg_def)
  ultimately have "get_xreg t ZR = 0" using simulator_keeps_zero [OF t(1)] by simp
  then show "\<exists>code t. Execute (idle_host fpu) (set_xreg RA kEndSimulatingPC (machine (code_image code))) = Some (Inr t) \<and>
     get_xreg t A0 = 1 \<and> get_xreg t ZR = 0" using t by blast
qed

text \<open>
  C27.  Instruction formats with scattered immediates.  For every immediate that the
  assembler accepts, the decoders of the simulator recover from a B-, J-, S- or U-type
  word exactly the immediate, the registers, the function code and the opcode it was
  encoded from.
\<close>

theorem branch_formats_roundtrip:
  assumes "IsFunct3 funct3" and "IsOpcode opcode" and "IsBTypeImm b" and "IsJTypeImm j" and "IsSTypeImm s" and "IsUTypeImm u"
  shows "DecodeBTypeImm (BType b rs2 rs1 funct3 opcode) = b \<and> DecodeRs1 (BType b rs2 rs1 funct3 opcode) = rs1 \<and>
    DecodeRs2 (BType b rs2 rs1 funct3 opcode) = rs2 \<and> DecodeFunct3 (BType b rs2 rs1 funct3 opcode) = funct3 \<and>
    DecodeOpcode (BType b rs2 rs1 funct3 opcode) = opcode \<and>
    DecodeJTypeImm (JType j rd opcode) = j \<and> DecodeRd (JType j rd opcode) = rd \<and> DecodeOpcode (JType j rd opcode) = opcode \<and>
    DecodeSTypeImm (SType s rs2 rs1 funct3 opcode) = s \<and> DecodeRs1 (SType s rs2 rs1 funct3 opcode) = rs1 \<and>
    DecodeRs2 (SType s rs2 rs1 funct3 opcode) = rs2 \<and> DecodeFunct3 (SType s rs2 rs1 funct3 opcode) = funct3 \<and>
    DecodeOpcode (SType s rs2 rs1 funct3 opcode) = opcode \<and>
    DecodeUTypeImm (UType u rd opcode) = u \<and> DecodeRd (UType u rd opcode) = rd \<and> DecodeOpcode (UType u rd opcode) = opcode"
  using assms by (simp add: dec_simps)

theorem branch_formats_witness:
  "DecodeBTypeImm (BType (- 20) A1 A0 f3_BNE op_BRANCH) = - 20 \<and> DecodeJTypeImm (JType 1000 RA op_BRANCH) = 1000 \<and>
    DecodeSTypeImm (SType (- 8) A1 A0 f3_BNE op_BRANCH) = - 8 \<and> DecodeRs1 (SType (- 8) A1 A0 f3_BNE op_BRANCH) = A0"
  using branch_formats_roundtrip [of f3_BNE op_BRANCH "- 20" 1000 "- 8" 0 A1 A0 RA]
  by (simp add: IsFunct3_def IsOpcode_def IsBTypeImm_def IsJTypeImm_def IsSTypeImm_def IsUTypeImm_def IsInt_iff_sint IsAligned_def)

text \<open>
  C28.  Compressed formats.  For every operand the assembler accepts, a compressed jump,
  branch, stack adjustment or doubleword store decodes to the operands it was encoded
  from, and is recognised as a compressed instruction.
\<close>

theorem compressed_formats_roundtrip:
  assumes "IsCJImm j" and "IsCBImm b" and "IsCI16Imm i" and "IsCMem8Imm m" and "IsCRs1p rs1" and "IsCRs2p rs2"
  shows "DecodeCJImm (ucast (CJ C_J j)) = j \<and> IsCInstruction (CJ C_J j) \<and>
    DecodeCBImm (ucast (CB C_BEQZ rs1 b)) = b \<and> DecodeCRs1p (ucast (CB C_BEQZ rs1 b)) = rs1 \<and>
    IsCInstruction (CB C_BEQZ rs1 b) \<and>
    DecodeCBImm (ucast (CB C_BNEZ rs1 b)) = b \<and> DecodeCRs1p (ucast (CB C_BNEZ rs1 b)) = rs1 \<and>
    IsCInstruction (CB C_BNEZ rs1 b) \<and>
    DecodeCI16Imm (ucast (CI_16 C_ADDI16SP SP i)) = i \<and> IsCInstruction (CI_16 C_ADDI16SP SP i) \<and>
    DecodeCMem8Imm (ucast (CS8 C_SD rs1 rs2 m)) = m \<and> DecodeCRs1p (ucast (CS8 C_SD rs1 rs2 m)) = rs1 \<and>
    DecodeCRs2p (ucast (CS8 C_SD rs1 rs2 m)) = rs2 \<and> IsCInstruction (CS8 C_SD rs1 rs2 m)"
  using assms by (simp add: dec_simps)

theorem compressed_formats_witness:
  "DecodeCJImm (ucast (CJ C_J (- 100))) = - 100 \<and> DecodeCBImm (ucast (CB C_BEQZ A0 60)) = 60"
proof -
  have "IsCMem8Imm (8 :: u64)" by code_simp
  then show ?thesis
    using compressed_formats_roundtrip [of "- 100" 60 "- 64" 8 A0 A1]
    by (simp add: IsCJImm_def IsCBImm_def IsCI16Imm_def IsCRs1p_def IsCRs2p_def IsInt_iff_sint IsAligned_def)
qed

text \<open>
  C29.  High multiplication.  The routines \<open>mulh\<close>, \<open>mulhu\<close> and \<open>mulhsu\<close> of the simulator,
  which work on 32-bit halves, give the upper 64 bits of the mathematical product of
  two signed, two unsigned, and a signed and an unsigned operand.
\<close>

theorem high_multiplication_correct:
  "sint (sim_mulh x y) = (sint x * sint y) div 2 ^ 64 \<and> uint (sim_mulhu x y) = (uint x * uint y) div 2 ^ 64 \<and>
   sint (sim_mulhsu x y) = (sint x * uint y) div 2 ^ 64"
  by (simp only: sint_sim_mulh uint_sim_mulhu sint_sim_mulhsu simp_thms)

text \<open>
  C30.  Division.  The division routines of the simulator are defined for all operands (the
  guards cover every undefined case of the operators \<open>/\<close> and \<open>%\<close>), and quotient and
  remainder meet the contract of the RISC-V manual over the integers: dividend = quotient
  * divisor + remainder, the remainder is smaller than the divisor and has the sign of the
  dividend; a zero divisor gives all ones and the dividend, and the quotient of the
  smallest integer by - 1 is the smallest integer, with remainder 0.
\<close>

theorem division_correct:
  "(\<exists>q r. sim_div x y = Some q \<and> sim_rem x y = Some r \<and>
     signed_division (- (2 ^ 63)) (sint x) (sint y) (sint q) (sint r)) \<and>
   (\<exists>q r. sim_divu x y = Some q \<and> sim_remu x y = Some r \<and>
     unsigned_division (2 ^ 64 - 1) (uint x) (uint y) (uint q) (uint r)) \<and>
   (\<exists>q r. sim_divw v w = Some q \<and> sim_remw v w = Some r \<and>
     signed_division (- (2 ^ 31)) (sint v) (sint w) (sint q) (sint r)) \<and>
   (\<exists>q r. sim_divuw v w = Some q \<and> sim_remuw v w = Some r \<and>
     unsigned_division (2 ^ 32 - 1) (uint v) (uint w) (uint q) (uint r))"
  by (intro conjI sim_division)

theorem division_witness:
  "\<exists>q r. sim_div (- 7) 2 = Some q \<and> sim_rem (- 7) 2 = Some r \<and> sint q = - 3 \<and> sint r = - 1"
proof -
  obtain q r where q: "sim_div (- 7) 2 = Some q" "sim_rem (- 7) 2 = Some r"
    "signed_division (- (2 ^ 63)) (sint (- 7 :: u64)) (sint (2 :: u64)) (sint q) (sint r)"
    using division_correct [of "- 7" 2] by blast
  then have "- 7 = sint q * 2 + sint r" "\<bar>sint r\<bar> < 2" "sint r = 0 \<or> sgn (sint r) = - 1"
    by (simp_all add: signed_division_def)
  then have "sint q = - 3 \<and> sint r = - 1" by (auto simp: sgn_if split: if_splits) presburger+
  then show ?thesis using q by blast
qed

text \<open>
  C31.  Checked addresses.  A load or store of 8 bytes through a register other than \<open>SP\<close> and
  \<open>FP\<close> stops the simulator with the bad-access error exactly when the address is below 16
  KB, or the end of the access is in the last 16 KB of the address space.  The sum in this
  test wraps around, so that an access in the last 8 bytes (as of a field of a null
  pointer, at address - 1) is not stopped.
\<close>

theorem bad_address_check:
  assumes "wf_asm a" and "IsITypeImm imm" and "base \<noteq> SP" and "base \<noteq> FP"
  shows "\<exists>code code'. ld rd (Address base imm) a = Inr (append_code code a) \<and> length code \<le> 4 \<and>
    sd rs2 (Address base imm) a = Inr (append_code code' a) \<and> length code' \<le> 4 \<and>
    (\<forall>h s. let addr = get_xreg s base + imm;
               stops = uint addr < 16384 \<or> 2 ^ 64 - 16385 \<le> uint addr + 8 \<and> uint addr + 8 < 2 ^ 64
       in (placed code s \<longrightarrow>
             (if stops then Execute h s = Some (Inl BadMemoryAccess)
              else reaches h s ((set_xreg rd (load 8 (memory s) addr) s)\<lparr>pc := pc s + of_nat (length code)\<rparr>))) \<and>
          (placed code' s \<longrightarrow>
             (if stops then Execute h s = Some (Inl BadMemoryAccess)
              else reaches h s (s\<lparr>memory := store 8 addr (get_xreg s rs2) (memory s),
                                   pc := pc s + of_nat (length code')\<rparr>))))"
proof -
  have imm: "IsSTypeImm imm" using assms(2) by (simp add: IsITypeImm_def IsSTypeImm_def)
  obtain code where c: "ld rd (Address base imm) a = Inr (append_code code a)" "length code \<le> 4"
    "\<forall>h s. placed code s \<longrightarrow>
       (\<forall>e. CheckAccess 8 (get_xreg s base + imm) base s = Some e \<longrightarrow> Execute h s = Some (Inl e)) \<and>
       (CheckAccess 8 (get_xreg s base + imm) base s = None \<longrightarrow>
          reaches h s ((set_xreg rd (load 8 (memory s) (get_xreg s base + imm)) s)\<lparr>pc := pc s + of_nat (length code)\<rparr>))"
    using ld.checked_load [OF assms(1,2), of rd base] by blast
  obtain code' where c': "sd rs2 (Address base imm) a = Inr (append_code code' a)" "length code' \<le> 4"
    "\<forall>h s. placed code' s \<longrightarrow>
       (\<forall>e. CheckAccess 8 (get_xreg s base + imm) base s = Some e \<longrightarrow> Execute h s = Some (Inl e)) \<and>
       (CheckAccess 8 (get_xreg s base + imm) base s = None \<longrightarrow>
          reaches h s (s\<lparr>memory := store 8 (get_xreg s base + imm) (get_xreg s rs2) (memory s),
             pc := pc s + of_nat (length code')\<rparr>))"
    using sd.checked_store [OF assms(1) imm, of rs2 base] by blast
  have check: "CheckAccess 8 addr base s =
      (if uint addr < 16384 \<or> 2 ^ 64 - 16385 \<le> uint addr + 8 \<and> uint addr + 8 < 2 ^ 64 then Some BadMemoryAccess else None)"
    for addr s using assms(3,4) by (simp add: CheckAccess_other)
  show ?thesis
    by (rule exI [of _ code], rule exI [of _ code']) (use c c' in \<open>simp add: check Let_def\<close>)
qed

theorem bad_address_check_witness:
  "\<exists>code. ld A0 (Address A0 (- 1)) (new_asm 0 RV_GC) = Inr (append_code code (new_asm 0 RV_GC)) \<and>
    (\<forall>h. reaches h (machine (code_image code))
       ((set_xreg A0 (load 8 (code_image code) (- 1)) (machine (code_image code)))\<lparr>pc := 0x10000 + of_nat (length code)\<rparr>))"
proof -
  have "IsITypeImm (- 1 :: u64)" by (simp add: IsITypeImm_def IsInt_iff_sint)
  from bad_address_check [OF wf_new_asm(2) [of 0] this, of A0 A0 A0] obtain code where
    c: "ld A0 (Address A0 (- 1)) (new_asm 0 RV_GC) = Inr (append_code code (new_asm 0 RV_GC))" "length code \<le> 4"
      and r: "\<forall>h s. placed code s \<longrightarrow> (let addr = get_xreg s A0 + - 1 in
        if uint addr < 16384 \<or> 2 ^ 64 - 16385 \<le> uint addr + 8 \<and> uint addr + 8 < 2 ^ 64
        then Execute h s = Some (Inl BadMemoryAccess)
        else reaches h s ((set_xreg A0 (load 8 (memory s) addr) s)\<lparr>pc := pc s + of_nat (length code)\<rparr>))"
    unfolding Let_def by auto
  have "placed code (machine (code_image code))"
    using c(2) code_at_code_image [of code] by (simp add: placed_def) (simp add: machine_def)
  note p = r [rule_format, OF this]
  have "get_xreg (machine (code_image code)) A0 + - 1 = - 1" "pc (machine (code_image code)) = 0x10000"
    "memory (machine (code_image code)) = code_image code" by (simp_all add: machine_def get_xreg_def)
  moreover have "uint (- 1 :: u64) = 2 ^ 64 - 1" by code_simp
  ultimately have "reaches h (machine (code_image code))
      ((set_xreg A0 (load 8 (code_image code) (- 1)) (machine (code_image code)))\<lparr>pc := 0x10000 + of_nat (length code)\<rparr>)"
    for h using p [of h] by (simp only: Let_def) simp
  then show ?thesis using c(1) by blast
qed

text \<open>
  C32.  Checked stack accesses.  Executing a load or store of 8 bytes through \<open>SP\<close> or \<open>FP\<close> whose
  address is below the stack pointer or whose end is beyond the stack base stops the
  simulator with the out-of-bounds error.
\<close>

theorem stack_access_checked:
  assumes "wf_asm a" and "IsITypeImm imm" and "base \<in> {SP, FP}"
  shows "\<exists>code code'. ld rd (Address base imm) a = Inr (append_code code a) \<and> length code \<le> 4 \<and>
    sd rs2 (Address base imm) a = Inr (append_code code' a) \<and> length code' \<le> 4 \<and>
    (\<forall>h s. placed code s \<or> placed code' s \<longrightarrow>
       (let addr = get_xreg s base + imm in addr < get_xreg s SP \<or> stack_base s < addr + 8) \<longrightarrow>
       Execute h s = Some (Inl OutOfBoundsStackAccess))"
proof -
  have imm: "IsSTypeImm imm" using assms(2) by (simp add: IsITypeImm_def IsSTypeImm_def)
  obtain code where c: "ld rd (Address base imm) a = Inr (append_code code a)" "length code \<le> 4"
    "\<forall>h s. placed code s \<longrightarrow>
       (\<forall>e. CheckAccess 8 (get_xreg s base + imm) base s = Some e \<longrightarrow> Execute h s = Some (Inl e)) \<and>
       (CheckAccess 8 (get_xreg s base + imm) base s = None \<longrightarrow>
          reaches h s ((set_xreg rd (load 8 (memory s) (get_xreg s base + imm)) s)\<lparr>pc := pc s + of_nat (length code)\<rparr>))"
    using ld.checked_load [OF assms(1,2), of rd base] by blast
  obtain code' where c': "sd rs2 (Address base imm) a = Inr (append_code code' a)" "length code' \<le> 4"
    "\<forall>h s. placed code' s \<longrightarrow>
       (\<forall>e. CheckAccess 8 (get_xreg s base + imm) base s = Some e \<longrightarrow> Execute h s = Some (Inl e)) \<and>
       (CheckAccess 8 (get_xreg s base + imm) base s = None \<longrightarrow>
          reaches h s (s\<lparr>memory := store 8 (get_xreg s base + imm) (get_xreg s rs2) (memory s),
             pc := pc s + of_nat (length code')\<rparr>))"
    using sd.checked_store [OF assms(1) imm, of rs2 base] by blast
  have "CheckAccess 8 addr base s = Some OutOfBoundsStackAccess" if "addr < get_xreg s SP \<or> stack_base s < addr + 8" for addr s
    using that assms(3) by (auto simp: CheckAccess_def)
  then show ?thesis
    by - (rule exI [of _ code], rule exI [of _ code'], use c c' in \<open>auto simp: Let_def\<close>)
qed

theorem stack_access_checked_witness:
  "\<exists>code. ld A0 (Address SP 0) (new_asm 0 RV_GC) = Inr (append_code code (new_asm 0 RV_GC)) \<and>
    (\<forall>h. Execute h (machine (code_image code)) = Some (Inl OutOfBoundsStackAccess))"
proof -
  have "IsITypeImm (0 :: u64)" by (simp add: IsITypeImm_def IsInt_iff_sint)
  from stack_access_checked [OF wf_new_asm(2) [of 0] this, of SP A0 A0] obtain code where
    c: "ld A0 (Address SP 0) (new_asm 0 RV_GC) = Inr (append_code code (new_asm 0 RV_GC))" "length code \<le> 4"
      "\<And>h s. placed code s \<Longrightarrow> stack_base s < get_xreg s SP + 8 \<Longrightarrow> Execute h s = Some (Inl OutOfBoundsStackAccess)"
    by (auto simp: Let_def)
  have "placed code (machine (code_image code))"
    using c(2) code_at_code_image [of code] by (simp add: placed_def) (simp add: machine_def)
  then have "Execute h (machine (code_image code)) = Some (Inl OutOfBoundsStackAccess)" for h
    by (rule c(3)) (simp add: machine_def get_xreg_def)
  then show ?thesis using c(1) by blast
qed

text \<open>
  C33.  Powers of two.  For every number from 1 to $2^{63}$ the shifts of
  \<open>Utils::RoundUpToPowerOfTwo\<close> give a power of two that is at least the number and less
  than twice the number.
\<close>

theorem round_up_to_power_of_two:
  assumes "1 \<le> uint x" and "uint x \<le> 2 ^ 63"
  shows "\<exists>e\<le>63. RoundUpToPowerOfTwo x = 2 ^ e \<and> uint x \<le> 2 ^ e \<and> 2 ^ e < 2 * uint x"
  using assms by (rule RoundUpToPowerOfTwo_power)

theorem round_up_to_power_of_two_witness:
  "\<exists>e\<le>63. RoundUpToPowerOfTwo 100 = 2 ^ e \<and> (100 :: int) \<le> 2 ^ e \<and> 2 ^ e < (200 :: int)"
  using round_up_to_power_of_two [of 100] by simp

text \<open>
  C34.  Counting registers.  The loop that clears the lowest bit until the mask is empty ends
  for every mask, and counts the registers of the set.
\<close>

theorem register_count_terminates:
  "RegisterCount w = int (card {i. i < 64 \<and> bit w i})"
proof -
  have "members w = {i. i < 64 \<and> bit w i}" by (auto simp: members_def dest: bit_imp_le_length)
  then show ?thesis by (simp add: RegisterCount_card)
qed

subsection \<open>Where the code departs from its purpose\<close>

text \<open>
  C35.  Checked subtraction in place is wrong.  When the destination is the minuend, the
  code of \<open>SubtractBranchOverflow\<close> branches exactly when \<open>(x < 0) <> (x - y < y)\<close>
  (it compares the difference with the subtrahend instead of the minuend).  This
  condition holds for 5 - 3, which does not overflow, and fails for the difference of
  the smallest and the largest integer, which does.
\<close>

theorem subtract_branch_overflow_aliased:
  assumes "wf_asm a" and "bound_within l a" and "plain rd" and "plain rs2" and "rd \<noteq> rs2"
  shows "let taken = \<lambda>x y. (x <s 0) \<noteq> (x - y <s y) in
    computes_or_branches (SubtractBranchOverflow rd rd rs2 l a) rd (\<lambda>s. get_xreg s rd - get_xreg s rs2)
      (\<lambda>s. taken (get_xreg s rd) (get_xreg s rs2)) l a \<and>
    taken 5 3 \<and> \<not> sub_overflows 5 3 \<and>
    \<not> taken 0x8000000000000000 0x7FFFFFFFFFFFFFFF \<and> sub_overflows 0x8000000000000000 0x7FFFFFFFFFFFFFFF"
  using SubtractBranchOverflow_rd_rs1 [OF assms]
  by (simp add: Let_def sub_overflows_def word_sless_alt)

theorem subtract_branch_overflow_aliased_witness:
  "computes_or_branches (SubtractBranchOverflow A0 A0 A1 0 bound_asm) A0 (\<lambda>s. get_xreg s A0 - get_xreg s A1)
    (\<lambda>s. (get_xreg s A0 <s 0) \<noteq> (get_xreg s A0 - get_xreg s A1 <s get_xreg s A1)) 0 bound_asm"
  using subtract_branch_overflow_aliased [of bound_asm 0 A0 A1] by (simp add: plain_def Let_def)

text \<open>
  C36.  Checked addition of a long constant in place is wrong.  The operand is saved in
  \<open>TMP2\<close>, which the loading of a constant beyond 12 bits overwrites; the code then
  branches when the sum is less than the constant, that is also for every negative
  operand whose sum does not overflow.
\<close>

theorem add_immediate_branch_overflow_in_place:
  assumes "wf_asm a" and "bound_within l a" and "plain rd" and "\<not> IsITypeImm imm" and "0 <s imm"
  shows "computes_or_branches (AddImmediateBranchOverflow rd rd imm l a) rd (\<lambda>s. get_xreg s rd + imm)
      (\<lambda>s. get_xreg s rd + imm <s imm) l a \<and> - 1 + imm <s imm \<and> \<not> add_overflows (- 1) imm"
proof -
  have "sint (word_of_int (sint imm - 1) :: u64) = sint imm - 1"
    using assms(5) sint_range_size [of imm] by (intro sint_word_of_int_fits) (simp_all add: word_sless_alt word_size)
  then have "sint (- 1 + imm) = sint imm - 1" by simp
  then show ?thesis
    using AddImmediateBranchOverflow_long_same [OF assms] by (simp add: word_sless_alt add_overflows_def)
qed

theorem add_immediate_branch_overflow_in_place_witness:
  "computes_or_branches (AddImmediateBranchOverflow A0 A0 0x12345 0 bound_asm) A0 (\<lambda>s. get_xreg s A0 + 0x12345)
    (\<lambda>s. get_xreg s A0 + 0x12345 <s 0x12345) 0 bound_asm"
  using add_immediate_branch_overflow_in_place [of bound_asm 0 A0 "0x12345"]
  by (simp add: plain_def IsITypeImm_def IsInt_iff_sint word_sless_alt)

text \<open>
  C37.  A gap in backward branches.  \<open>EmitBranch\<close> to a label bound exactly 524288 bytes back
  fails an assertion: the jump form is chosen by testing the offset plus 4, but the jump
  is emitted with the offset minus 4, which is out of range there.  At 524296
  bytes back the indirect form is chosen and works.
\<close>

theorem backward_branch_gap:
  assumes "is_branch funct3" and "IsBound l a"
  shows "(label_offset l a = - 524288 \<longrightarrow> EmitBranch rs1 rs2 l funct3 distance a = Inl AssertionFailed) \<and>
    (label_offset l a = - 524296 \<longrightarrow> branches_to (EmitBranch rs1 rs2 l funct3 distance a) (\<lambda>s. s)
       (\<lambda>s. branch_test funct3 (get_xreg s rs1) (get_xreg s rs2)) l a)"
proof (intro conjI impI)
  assume o: "label_offset l a = - 524288"
  obtain inv where inv: "InvertFunct3 funct3 = Inr inv" "is_branch inv" using InvertFunct3_is_branch [OF assms(1)] .
  have "label_offset l (append_code code a) = - 524288 - of_nat (length code)" for code
    using label_offset_append_code [of l code a] o by simp
  moreover have "\<not> IsBTypeImm (- 524288 :: intptr)" "IsJTypeImm (- 524288 + 4 :: intptr)" "\<not> IsJTypeImm (- 524288 - 4 :: intptr)"
    "IsBTypeImm (8 :: intptr)"
    by (simp_all add: IsBTypeImm_def IsJTypeImm_def IsInt_iff_sint IsAligned_def)
  ultimately show "EmitBranch rs1 rs2 l funct3 distance a = Inl AssertionFailed"
    using assms(2) o inv is_branch_IsFunct3 [OF inv(2)]
    by (simp add: EmitBranch_def EmitBType_def EmitJType_def ASSERT_def Emit_append_code IsOpcode_def)
next
  assume "label_offset l a = - 524296"
  then have "branch_reaches (label_offset l a)"
    by (simp add: branch_reaches_def IsBTypeImm_def IsJTypeImm_def IsInt_iff_sint IsAligned_def split_lo_eq)
  then show "branches_to (EmitBranch rs1 rs2 l funct3 distance a) (\<lambda>s. s)
      (\<lambda>s. branch_test funct3 (get_xreg s rs1) (get_xreg s rs2)) l a"
    using assms by (intro EmitBranch_bound)
qed

theorem backward_branch_gap_witness:
  "\<exists>code. length code = 524288 \<and>
     EmitBranch A0 A1 0 f3_BEQ kFarJump (append_code code bound_asm) = Inl AssertionFailed"
proof -
  obtain code :: "u8 list" where c: "length code = 524288" using Ex_list_of_length by blast
  have "label_offset 0 (append_code code bound_asm) = - 524288" "IsBound 0 (append_code code bound_asm)"
    by (simp_all add: label_offset_def append_code_def bound_asm_def new_asm_def Position_def IsBound_def c)
  then show ?thesis using backward_branch_gap [of f3_BEQ 0 "append_code code bound_asm"] c by (auto simp: is_branch_def)
qed

text \<open>
  C38.  An unsigned comparison with \<open>-1\<close> is wrong.  \<open>SetIf(UNSIGNED_LESS_EQUAL)\<close> compares
  with the immediate plus one, which is 0 for \<open>-1\<close>: the flag is always 0, although every
  64-bit value is at most $2^{64} - 1$.
\<close>

theorem set_if_minus_one:
  assumes "wf_asm a" and "deferred_compare a = kNone" and "rd \<noteq> ZR"
  shows "\<exists>b. CompareImmediate left (- 1) a = Inr b \<and> sets_flag (SetIf UNSIGNED_LESS_EQUAL rd b) rd (\<lambda>s. False) b \<and>
    (\<forall>s. deferred_holds UNSIGNED_LESS_EQUAL b s)"
proof -
  let ?b = "a\<lparr>deferred_compare := kCompareImm, deferred_left := left, deferred_imm := - 1\<rparr>"
  have w: "wf_asm ?b" using assms(1) by (simp add: wf_asm_def)
  have i: "IsITypeImm (- 1 :: u64)" "IsITypeImm (0 :: u64)" by (simp_all add: IsITypeImm_def IsInt_iff_sint)
  have "sets_flag (bindE (sltiu rd left 0 ?b) (\<lambda>a. Inr (consume_compare a))) rd (\<lambda>s. False) ?b"
    by (rule sets_flagI [OF sltiu.assembles_op [OF w i(2)]]) (use assms(3) in \<open>simp_all add: preserves_def\<close>)
  then have "sets_flag (SetIf UNSIGNED_LESS_EQUAL rd ?b) rd (\<lambda>s. False) ?b"
    using i by (simp add: SetIf_def ASSERT_def Let_def SetIf_imm_def)
  moreover have "deferred_holds UNSIGNED_LESS_EQUAL ?b s" for s by (simp add: deferred_holds_def condition_holds_def)
  ultimately show ?thesis using assms(2) by (auto simp: CompareImmediate_def ASSERT_def)
qed

theorem set_if_minus_one_witness:
  "\<exists>b. CompareImmediate A0 (- 1) (new_asm 0 RV_GC) = Inr b \<and> sets_flag (SetIf UNSIGNED_LESS_EQUAL A1 b) A1 (\<lambda>s. False) b"
proof -
  have "deferred_compare (new_asm 0 RV_GC) = kNone" by (simp add: new_asm_def)
  then show ?thesis using set_if_minus_one [of "new_asm 0 RV_GC" A1 A0] by auto
qed

text \<open>
  C39.  Offsets at the top of the 32-bit range are wrong.  For an offset of 0x7FFFF800 or
  more, \<open>LoadFromOffset\<close> loads from $2^{32}$ below base plus offset: the high part of the
  split offset is 0x80000000, which \<open>lui\<close> extends to a negative number.
\<close>

theorem large_offset_wraps:
  assumes "wf_asm a" and "base \<noteq> ZR" and "base \<noteq> TMP2" and "0x7FFFF800 \<le> sint offset" and "bytes_of sz = Some n"
  shows "\<exists>G. transforms 12 (LoadFromOffset dest base offset sz a) G a \<and>
    (\<forall>P s. let t = set_xreg TMP2 (get_xreg s base + split_hi (scast offset)) s in
       G P s = (case MemoryRead n (get_xreg s base + scast offset - 0x100000000) TMP2 t of
                  Inl e \<Rightarrow> None | Inr v \<Rightarrow> Some (set_xreg dest (extend_to sz v) t)))"
proof -
  have nok: "\<not> offset_ok offset" using assms(4) by (simp add: offset_ok_def)
  have "sint (scast offset :: intx) = sint offset"
    using sint_range_size [of offset] by (simp add: word_size signed_scast_eq signed_take_bit_int_eq_self)
  then have "\<not> IsITypeImm (scast offset :: intx)" using assms(4) by (simp add: IsITypeImm_def IsInt_iff_sint)
  then have "offsetG (readG n (\<lambda>rd v. set_xreg rd (extend_to sz v)) dest) base (scast offset) P s =
      (let t = set_xreg TMP2 (get_xreg s base + split_hi (scast offset)) s in
       case MemoryRead n (get_xreg s base + scast offset - 0x100000000) TMP2 t of
         Inl e \<Rightarrow> None | Inr v \<Rightarrow> Some (set_xreg dest (extend_to sz v) t))" for P s
    using offset_wraps [OF nok] assms(3)
    by (simp add: Let_def offsetG_def seqG_def pureG_def readG_def offset_state_def offset_base_def add.assoc
        add_diff_eq [symmetric] cong: sum.case_cong del: add_diff_eq)
  then show ?thesis
    using LoadFromOffset_transforms [OF assms(1-3,5), of dest offset] unfolding Let_def by blast
qed

theorem large_offset_wraps_witness:
  "\<exists>G. transforms 12 (LoadFromOffset A1 A0 0x7FFFF800 kEightBytes (new_asm 0 RV_GC)) G (new_asm 0 RV_GC) \<and>
    (\<forall>P s. let t = set_xreg TMP2 (get_xreg s A0 + split_hi (scast (0x7FFFF800 :: u32))) s in
       G P s = (case MemoryRead 8 (get_xreg s A0 + scast (0x7FFFF800 :: u32) - 0x100000000) TMP2 t of
                  Inl e \<Rightarrow> None | Inr v \<Rightarrow> Some (set_xreg A1 (extend_to kEightBytes v) t)))"
  by (rule large_offset_wraps) simp_all

text \<open>
  C40.  The buffer of a streaming stream doubles at every flush.  \<open>EnsureSpace\<close> asks
  \<open>Realloc\<close> for more than the capacity, so the test that is meant to keep the buffer when
  flushing has made enough room never holds: a request that the empty buffer would satisfy
  still leaves a buffer of at least twice the size.
\<close>

theorem streaming_buffer_doubles:
  assumes "wf_stream st" and "Remaining st < n" and "0 < n" and "n \<le> capacity st" and "capacity st < 2 ^ 60"
    and "EnsureSpace (StreamingWriteStream_Realloc h) n st = Inr st'"
  shows "2 * capacity st \<le> capacity st' \<and> write_current st' = 0 \<and> flushed_size st' = WriteStream_Position st"
  using streaming_EnsureSpace_grows [OF assms] by simp

theorem streaming_buffer_doubles_witness:
  "\<exists>st st'. capacity st = 16 \<and> write_current st = 16 \<and>
    EnsureSpace (StreamingWriteStream_Realloc \<lparr>heap_limit = 100000, heap_fresh = (\<lambda>_. 0)\<rparr>) 1 st = Inr st' \<and>
    32 \<le> capacity st' \<and> flushed_size st' = 16"
proof -
  let ?h = "\<lparr>heap_limit = 100000, heap_fresh = (\<lambda>_. 0 :: u8)\<rparr>"
  let ?st = "\<lparr>initial_size = 16, write_buffer = Some (replicate 16 0), write_current = 16, capacity = 16, flushed = [],
    flushed_size = 0\<rparr>"
  have "sint (RoundUp (word_of_int 32 :: intptr) (64 * 1024)) = 65536" by code_simp
  moreover obtain m where "realloc ?h (Some (replicate 16 0)) 65536 = Some m" using realloc_granted [of 65536 ?h] by auto
  ultimately obtain st' where run: "EnsureSpace (StreamingWriteStream_Realloc ?h) 1 ?st = Inr st'"
    by (simp add: EnsureSpace_def StreamingWriteStream_Realloc_def Flush_def Remaining_def require_def Let_def)
  have "\<exists>e\<le>60. (16 :: int) = 2 ^ e" by (rule exI [of _ 4]) simp
  then have "wf_stream ?st" by (simp add: wf_stream_def stream_memory_def)
  from streaming_buffer_doubles [OF this _ _ _ _ run] show ?thesis
    using run by (intro exI [of _ ?st] exI [of _ st']) (simp add: Remaining_def WriteStream_Position_def)
qed

end
